theory Spec2Isabelle
  imports Main "HOL-Library.Word"
begin

unbundle bit_operations_syntax

section \<open>The target access port\<close>

text \<open>
  The two flash drivers of the repository (\<^verbatim>\<open>nucX1\<close> and the commented copy of
  \<^verbatim>\<open>stm32x\<close>) talk to the chip only through the target functions of OpenOCD:
  \<^verbatim>\<open>target_read_u32\<close>, \<^verbatim>\<open>target_write_u32\<close>, \<^verbatim>\<open>target_write_u16\<close>,
  \<^verbatim>\<open>target_alloc_working_area\<close> and so on. Those functions are not part of the
  repository, so the embedding takes them as a parameter: a \<open>target\<close> is a record of
  response functions, each of which sees the history of all calls made so far and
  answers the next call. Every call is appended to the history, so a theorem can
  speak about which calls were made and in which order.

  Return codes are the \<^verbatim>\<open>ERROR_*\<close> macros of OpenOCD, pairwise distinct; the
  constructor \<open>ERROR_OTHER\<close> stands for any further code the transport may return.
  \<open>ERROR_UNDEFINED\<close> is not a code of OpenOCD: it marks the places where the C
  program has no defined behaviour (an array index outside the sector table, a
  division by zero, a shift by 32 or more).
\<close>

type_synonym u8 = "8 word"
type_synonym u16 = "16 word"
type_synonym u32 = "32 word"

datatype retval =
    ERROR_OK
  | ERROR_FAIL
  | ERROR_TARGET_NOT_HALTED
  | ERROR_TARGET_RESOURCE_NOT_AVAILABLE
  | ERROR_FLASH_BANK_INVALID
  | ERROR_FLASH_OPERATION_FAILED
  | ERROR_FLASH_DST_BREAKS_ALIGNMENT
  | ERROR_OTHER int
  | ERROR_UNDEFINED

record working_area =
  wa_address :: u32
  wa_size :: u32

datatype tap_call =
    ReadU32 u32
  | ReadU16 u32
  | WriteU32 u32 u32
  | WriteU16 u32 u16
  | AllocWorkingArea u32
  | AllocWorkingAreaTry u32
  | FreeWorkingArea working_area
  | WriteBuffer u32 "u8 list"
  | RunAlgorithm "u32 list" u32 u32 int

record target =
  read_u32_resp :: "tap_call list \<Rightarrow> u32 \<Rightarrow> retval \<times> u32"
  read_u16_resp :: "tap_call list \<Rightarrow> u32 \<Rightarrow> retval \<times> u16"
  write_u32_resp :: "tap_call list \<Rightarrow> u32 \<Rightarrow> u32 \<Rightarrow> retval"
  write_u16_resp :: "tap_call list \<Rightarrow> u32 \<Rightarrow> u16 \<Rightarrow> retval"
  alloc_resp :: "tap_call list \<Rightarrow> u32 \<Rightarrow> retval \<times> u32"
  alloc_try_resp :: "tap_call list \<Rightarrow> u32 \<Rightarrow> retval \<times> u32"
  write_buffer_resp :: "tap_call list \<Rightarrow> u32 \<Rightarrow> u8 list \<Rightarrow> retval"
  run_algorithm_resp :: "tap_call list \<Rightarrow> u32 list \<Rightarrow> u32 \<Rightarrow> retval \<times> u32"

text \<open>
  The mutable part: whether \<^verbatim>\<open>target->state == TARGET_HALTED\<close>, the calls made so
  far (oldest first) and the working areas that are allocated and not yet freed.
\<close>

record tstate =
  halted :: bool
  calls :: "tap_call list"
  areas :: "working_area list"

definition logged :: "tstate \<Rightarrow> tap_call \<Rightarrow> tstate" where
  "logged s c = s\<lparr>calls := calls s @ [c]\<rparr>"

definition target_read_u32 :: "target \<Rightarrow> tstate \<Rightarrow> u32 \<Rightarrow> (retval \<times> u32) \<times> tstate" where
  "target_read_u32 t s a = (read_u32_resp t (calls s) a, logged s (ReadU32 a))"

definition target_read_u16 :: "target \<Rightarrow> tstate \<Rightarrow> u32 \<Rightarrow> (retval \<times> u16) \<times> tstate" where
  "target_read_u16 t s a = (read_u16_resp t (calls s) a, logged s (ReadU16 a))"

definition target_write_u32 :: "target \<Rightarrow> tstate \<Rightarrow> u32 \<Rightarrow> u32 \<Rightarrow> retval \<times> tstate" where
  "target_write_u32 t s a v = (write_u32_resp t (calls s) a v, logged s (WriteU32 a v))"

definition target_write_u16 :: "target \<Rightarrow> tstate \<Rightarrow> u32 \<Rightarrow> u16 \<Rightarrow> retval \<times> tstate" where
  "target_write_u16 t s a v = (write_u16_resp t (calls s) a v, logged s (WriteU16 a v))"

definition target_write_buffer :: "target \<Rightarrow> tstate \<Rightarrow> u32 \<Rightarrow> u8 list \<Rightarrow> retval \<times> tstate" where
  "target_write_buffer t s a bs = (write_buffer_resp t (calls s) a bs, logged s (WriteBuffer a bs))"

text \<open>
  An allocation that succeeds (\<open>Inr\<close>) hands out a new working area of the requested
  size at the address the target chose; one that fails (\<open>Inl\<close>, with the code) leaves
  the caller's pointer as it was.
\<close>

definition target_alloc_working_area ::
  "target \<Rightarrow> tstate \<Rightarrow> u32 \<Rightarrow> (retval + working_area) \<times> tstate" where
  "target_alloc_working_area t s sz =
     (case alloc_resp t (calls s) sz of (r, a) \<Rightarrow>
        if r = ERROR_OK
        then (Inr \<lparr>wa_address = a, wa_size = sz\<rparr>,
              (logged s (AllocWorkingArea sz))\<lparr>areas := areas s @ [\<lparr>wa_address = a, wa_size = sz\<rparr>]\<rparr>)
        else (Inl r, logged s (AllocWorkingArea sz)))"

definition target_alloc_working_area_try ::
  "target \<Rightarrow> tstate \<Rightarrow> u32 \<Rightarrow> (retval + working_area) \<times> tstate" where
  "target_alloc_working_area_try t s sz =
     (case alloc_try_resp t (calls s) sz of (r, a) \<Rightarrow>
        if r = ERROR_OK
        then (Inr \<lparr>wa_address = a, wa_size = sz\<rparr>,
              (logged s (AllocWorkingAreaTry sz))\<lparr>areas := areas s @ [\<lparr>wa_address = a, wa_size = sz\<rparr>]\<rparr>)
        else (Inl r, logged s (AllocWorkingAreaTry sz)))"

definition target_free_working_area :: "target \<Rightarrow> tstate \<Rightarrow> working_area \<Rightarrow> tstate" where
  "target_free_working_area t s wa = (logged s (FreeWorkingArea wa))\<lparr>areas := remove1 wa (areas s)\<rparr>"

definition target_run_algorithm ::
  "target \<Rightarrow> tstate \<Rightarrow> u32 list \<Rightarrow> u32 \<Rightarrow> u32 \<Rightarrow> int \<Rightarrow> (retval \<times> u32) \<times> tstate" where
  "target_run_algorithm t s regs entry exit timeout =
     (run_algorithm_resp t (calls s) regs entry, logged s (RunAlgorithm regs entry exit timeout))"

section \<open>The flash bank\<close>

text \<open>
  \<^verbatim>\<open>struct flash_sector\<close> and \<^verbatim>\<open>struct flash_bank\<close> of OpenOCD, with the fields the
  drivers use. \<open>is_erased\<close> is \<open>- 1\<close> for unknown, \<open>1\<close> for erased; \<open>is_protected\<close>
  is \<open>1\<close> for protected, \<open>0\<close> for unprotected. The sector array is a list (\<^verbatim>\<open>NULL\<close>
  is the empty list). The driver's private data is the type parameter.
\<close>

record flash_sector =
  offset :: u32
  sector_size :: u32
  is_erased :: int
  is_protected :: int

record 'p flash_bank =
  base :: u32
  bank_size :: u32
  num_sectors :: int
  sectors :: "flash_sector list"
  driver_priv :: 'p

section \<open>The nucX1 driver\<close>

record nucX1_flash_bank =
  nucX1_write_algorithm :: "working_area option"
  nucX1_probed :: int

text \<open>
  \<^verbatim>\<open>nucX1_write_block\<close> of \<^verbatim>\<open>src/nucX1.c\<close>: the byte count is halved, an odd offset is
  refused, and everything after that is inside \<^verbatim>\<open>#if 0 ... #endif\<close>, so the
  function returns \<^verbatim>\<open>retval\<close>, still \<^verbatim>\<open>ERROR_OK\<close>.
\<close>

definition nucX1_write_block ::
  "target \<Rightarrow> tstate \<Rightarrow> nucX1_flash_bank flash_bank \<Rightarrow> u8 list \<Rightarrow> u32 \<Rightarrow> u32 \<Rightarrow> retval \<times> tstate" where
  "nucX1_write_block t s bank buffer offs count =
     (let retval = ERROR_OK;
          count = count div 2
      in if offs AND 0x1 \<noteq> 0 then (ERROR_FLASH_DST_BREAKS_ALIGNMENT, s)
         else (retval, s))"

text \<open>
  \<^verbatim>\<open>nucX1_write_block\<close> of the second copy of the driver (\<^verbatim>\<open>src/unnamed/part_000\<close>,
  "The write routine stub"): it only logs and returns \<^verbatim>\<open>ERROR_OK\<close>.
\<close>

definition nucX1_write_block_stub ::
  "target \<Rightarrow> tstate \<Rightarrow> nucX1_flash_bank flash_bank \<Rightarrow> u8 list \<Rightarrow> u32 \<Rightarrow> u32 \<Rightarrow> retval \<times> tstate" where
  "nucX1_write_block_stub t s bank buffer offs count =
     (let retval = ERROR_OK in (retval, s))"

text \<open>
  \<^verbatim>\<open>nucX1_probe\<close> (the same in both copies of the driver). The sector table is
  rebuilt by a loop over \<^verbatim>\<open>i = 0 .. num_pages - 1\<close> that fills entry \<open>i\<close>; the list
  comprehension over \<open>[0..<num_pages]\<close> is that loop.
\<close>

definition build_sectors :: "u16 \<Rightarrow> int \<Rightarrow> flash_sector list" where
  "build_sectors num_pages page_size =
     map (\<lambda>i. \<lparr>offset = word_of_int (int i * page_size),
                sector_size = word_of_int page_size,
                is_erased = - 1,
                is_protected = 1\<rparr>) [0..<unat num_pages]"

text \<open>
  The tail that both probe functions share: base, size, number of sectors and the
  new sector table.
\<close>

definition rebuild_bank :: "'p flash_bank \<Rightarrow> u32 \<Rightarrow> u16 \<Rightarrow> int \<Rightarrow> 'p flash_bank" where
  "rebuild_bank bank base_address num_pages page_size =
     bank\<lparr>base := base_address,
          bank_size := word_of_int (uint num_pages * page_size),
          num_sectors := uint num_pages,
          sectors := build_sectors num_pages page_size\<rparr>"

definition nucX1_rebuild ::
  "nucX1_flash_bank flash_bank \<Rightarrow> u16 \<Rightarrow> int \<Rightarrow> nucX1_flash_bank flash_bank" where
  "nucX1_rebuild bank num_pages page_size =
     (rebuild_bank bank 0x00000000 num_pages page_size)
       \<lparr>driver_priv := (driver_priv bank)\<lparr>nucX1_probed := 1\<rparr>\<rparr>"

definition nucX1_probe ::
  "target \<Rightarrow> tstate \<Rightarrow> nucX1_flash_bank flash_bank
     \<Rightarrow> retval \<times> tstate \<times> nucX1_flash_bank flash_bank" where
  "nucX1_probe t s bank0 =
     (let bank = bank0\<lparr>driver_priv := (driver_priv bank0)\<lparr>nucX1_probed := 0\<rparr>\<rparr>
      in if \<not> halted s then (ERROR_TARGET_NOT_HALTED, s, bank)
         else case target_read_u32 t s 0x50000000 of ((retval, device_id), s) \<Rightarrow>
           if retval \<noteq> ERROR_OK then (retval, s, bank)
           else if device_id = 0x00012000 then (ERROR_OK, s, nucX1_rebuild bank 256 512)
           else if device_id \<noteq> 0x00000000 then (ERROR_OK, s, nucX1_rebuild bank 64 512)
           else (ERROR_FAIL, s, bank))"

subsection \<open>Erasing\<close>

definition NUCX1_SYS_WRPROT :: u32 where "NUCX1_SYS_WRPROT = 0x50000100"
definition NUCX1_SYSCLK_PWRCON :: u32 where "NUCX1_SYSCLK_PWRCON = 0x50000200"
definition NUCX1_SYSCLK_CLKSEL0 :: u32 where "NUCX1_SYSCLK_CLKSEL0 = 0x50000210"
definition NUCX1_SYSCLK_CLKDIV :: u32 where "NUCX1_SYSCLK_CLKDIV = 0x50000218"
definition NUCX1_SYSCLK_AHBCLK :: u32 where "NUCX1_SYSCLK_AHBCLK = 0x50000204"
definition NUCX1_FLASH_ISPCON :: u32 where "NUCX1_FLASH_ISPCON = 0x5000C000"
definition NUCX1_FLASH_ISPCMD :: u32 where "NUCX1_FLASH_ISPCMD = 0x5000C00C"
definition NUCX1_FLASH_ISPADR :: u32 where "NUCX1_FLASH_ISPADR = 0x5000C004"
definition NUCX1_FLASH_ISPTRG :: u32 where "NUCX1_FLASH_ISPTRG = 0x5000C010"

definition PWRCON_XTL12M :: u32 where "PWRCON_XTL12M = push_bit 0 1"
definition AHBCLK_ISP_EN :: u32 where "AHBCLK_ISP_EN = push_bit 2 1"
definition ISPCON_ISPEN :: u32 where "ISPCON_ISPEN = push_bit 0 1"
definition ISPCON_ISPFF :: u32 where "ISPCON_ISPFF = push_bit 6 1"
definition ISPCMD_FCTRL :: u32 where "ISPCMD_FCTRL = 0x2"
definition ISPCMD_FOEN :: u32 where "ISPCMD_FOEN = push_bit 5 1"
definition ISPCMD_ERASE :: u32 where "ISPCMD_ERASE = ISPCMD_FCTRL OR ISPCMD_FOEN"
definition ISPTRG_ISPGO :: u32 where "ISPTRG_ISPGO = push_bit 0 1"

definition nucX1_KEY1 :: u32 where "nucX1_KEY1 = 0x59"
definition nucX1_KEY2 :: u32 where "nucX1_KEY2 = 0x16"
definition nucX1_KEY3 :: u32 where "nucX1_KEY3 = 0x88"
definition nucX1_LOCK :: u32 where "nucX1_LOCK = 0x00"

text \<open>
  Reading entry \<open>i\<close> of the sector table; \<open>None\<close> when \<open>i\<close> is outside the table,
  where the C program reads or writes memory it does not own.
\<close>

definition sector_at :: "'p flash_bank \<Rightarrow> int \<Rightarrow> flash_sector option" where
  "sector_at bank i =
     (if 0 \<le> i \<and> i < int (length (sectors bank)) then Some (sectors bank ! nat i) else None)"

text \<open>
  The inner \<^verbatim>\<open>for (;;)\<close> of \<^verbatim>\<open>nucX1_erase\<close>: read \<^verbatim>\<open>ISPTRG\<close> until it is 0; give up
  with \<^verbatim>\<open>ERROR_FAIL\<close> when \<^verbatim>\<open>timeout-- <= 0\<close>. The sleeps between the reads are not
  calls to the target and are left out.
\<close>

function nucX1_wait_go :: "target \<Rightarrow> tstate \<Rightarrow> int \<Rightarrow> (retval \<times> u32) \<times> tstate" where
  "nucX1_wait_go t s timeout =
     (case target_read_u32 t s NUCX1_FLASH_ISPTRG of ((retval, status), s') \<Rightarrow>
        if retval \<noteq> ERROR_OK then ((retval, status), s')
        else if status = 0 then ((ERROR_OK, status), s')
        else if timeout \<le> 0 then ((ERROR_FAIL, status), s')
        else nucX1_wait_go t s' (timeout - 1))"
  by pat_completeness auto
termination
  by (relation "measure (\<lambda>(t, s, timeout). nat timeout)") auto

declare nucX1_wait_go.simps [simp del]

text \<open>The loop \<^verbatim>\<open>for (i = first; i <= last; i++)\<close> of \<^verbatim>\<open>nucX1_erase\<close>.\<close>

function nucX1_erase_sectors ::
  "target \<Rightarrow> tstate \<Rightarrow> nucX1_flash_bank flash_bank \<Rightarrow> int \<Rightarrow> int
     \<Rightarrow> retval \<times> tstate \<times> nucX1_flash_bank flash_bank" where
  "nucX1_erase_sectors t s bank i last' =
     (if i \<le> last' then
        (case sector_at bank i of
           None \<Rightarrow> (ERROR_UNDEFINED, s, bank)
         | Some sec \<Rightarrow>
            (case target_write_u32 t s NUCX1_FLASH_ISPADR (base bank + offset sec) of (retval, s) \<Rightarrow>
             if retval \<noteq> ERROR_OK then (retval, s, bank) else
             case target_write_u32 t s NUCX1_FLASH_ISPTRG ISPTRG_ISPGO of (retval, s) \<Rightarrow>
             if retval \<noteq> ERROR_OK then (retval, s, bank) else
             case nucX1_wait_go t s 100 of ((retval, status), s) \<Rightarrow>
             if retval \<noteq> ERROR_OK then (retval, s, bank) else
             case target_read_u32 t s NUCX1_FLASH_ISPCON of ((retval, status), s) \<Rightarrow>
             if retval \<noteq> ERROR_OK then (retval, s, bank) else
             if status AND ISPCON_ISPFF \<noteq> 0 then
               (case target_write_u32 t s NUCX1_FLASH_ISPCON ISPCON_ISPFF of (retval, s) \<Rightarrow>
                if retval \<noteq> ERROR_OK then (retval, s, bank)
                else nucX1_erase_sectors t s bank (i + 1) last')
             else nucX1_erase_sectors t s
                    (bank\<lparr>sectors := (sectors bank)[nat i := sec\<lparr>is_erased := 1\<rparr>]\<rparr>) (i + 1) last'))
      else (ERROR_OK, s, bank))"
  by pat_completeness auto
termination
  by (relation "measure (\<lambda>(t, s, bank, i, last'). nat (last' + 1 - i))") auto

declare nucX1_erase_sectors.simps [simp del]

text \<open>
  \<^verbatim>\<open>nucX1_erase\<close>. The dispatch to a mass erase for the full range is commented out
  in the source ("Nuc can't do mass erase"), so every range is erased sector by
  sector.
\<close>

definition nucX1_erase ::
  "target \<Rightarrow> tstate \<Rightarrow> nucX1_flash_bank flash_bank \<Rightarrow> int \<Rightarrow> int
     \<Rightarrow> retval \<times> tstate \<times> nucX1_flash_bank flash_bank" where
  "nucX1_erase t s bank first last' =
     (if \<not> halted s then (ERROR_TARGET_NOT_HALTED, s, bank) else
      case target_read_u32 t s NUCX1_SYS_WRPROT of ((retval, protected), s) \<Rightarrow>
      if retval \<noteq> ERROR_OK then (retval, s, bank) else
      case (if protected = 0 then
              (case target_write_u32 t s NUCX1_SYS_WRPROT nucX1_KEY1 of (retval, s) \<Rightarrow>
               if retval \<noteq> ERROR_OK then (retval, s) else
               case target_write_u32 t s NUCX1_SYS_WRPROT nucX1_KEY2 of (retval, s) \<Rightarrow>
               if retval \<noteq> ERROR_OK then (retval, s) else
               target_write_u32 t s NUCX1_SYS_WRPROT nucX1_KEY3)
            else (ERROR_OK, s)) of (retval, s) \<Rightarrow>
      if retval \<noteq> ERROR_OK then (retval, s, bank) else
      case target_read_u32 t s NUCX1_SYS_WRPROT of ((retval, protected), s) \<Rightarrow>
      if retval \<noteq> ERROR_OK then (retval, s, bank) else
      case target_read_u32 t s NUCX1_SYSCLK_PWRCON of ((retval, clockSelection), s) \<Rightarrow>
      if retval \<noteq> ERROR_OK then (retval, s, bank) else
      case (if clockSelection AND PWRCON_XTL12M = 0
            then target_write_u32 t s NUCX1_SYSCLK_PWRCON PWRCON_XTL12M
            else (ERROR_OK, s)) of (retval, s) \<Rightarrow>
      if retval \<noteq> ERROR_OK then (retval, s, bank) else
      case target_write_u32 t s NUCX1_SYSCLK_CLKSEL0 0x00 of (retval, s) \<Rightarrow>
      if retval \<noteq> ERROR_OK then (retval, s, bank) else
      case target_write_u32 t s NUCX1_SYSCLK_CLKDIV 0x00 of (retval, s) \<Rightarrow>
      if retval \<noteq> ERROR_OK then (retval, s, bank) else
      case target_write_u32 t s NUCX1_SYSCLK_AHBCLK AHBCLK_ISP_EN of (retval, s) \<Rightarrow>
      if retval \<noteq> ERROR_OK then (retval, s, bank) else
      case target_read_u32 t s NUCX1_FLASH_ISPCON of ((retval, dummy), s) \<Rightarrow>
      if retval \<noteq> ERROR_OK then (retval, s, bank) else
      case target_write_u32 t s NUCX1_FLASH_ISPCON (dummy OR ISPCON_ISPEN) of (retval, s) \<Rightarrow>
      if retval \<noteq> ERROR_OK then (retval, s, bank) else
      case target_write_u32 t s NUCX1_FLASH_ISPCMD ISPCMD_ERASE of (retval, s) \<Rightarrow>
      if retval \<noteq> ERROR_OK then (retval, s, bank) else
      case nucX1_erase_sectors t s bank first last' of (retval, s, bank) \<Rightarrow>
      if retval \<noteq> ERROR_OK then (retval, s, bank) else
      case target_write_u32 t s NUCX1_SYS_WRPROT nucX1_LOCK of (retval, s) \<Rightarrow>
      if retval \<noteq> ERROR_OK then (retval, s, bank) else
      (ERROR_OK, s, bank))"

section \<open>The stm32x driver\<close>

definition STM32_FLASH_KEYR :: u32 where "STM32_FLASH_KEYR = 0x40022004"
definition STM32_FLASH_SR :: u32 where "STM32_FLASH_SR = 0x4002200C"
definition STM32_FLASH_CR :: u32 where "STM32_FLASH_CR = 0x40022010"
definition STM32_FLASH_AR :: u32 where "STM32_FLASH_AR = 0x40022014"
definition STM32_FLASH_WRPR :: u32 where "STM32_FLASH_WRPR = 0x40022020"

definition FLASH_PG :: u32 where "FLASH_PG = push_bit 0 1"
definition FLASH_PER :: u32 where "FLASH_PER = push_bit 1 1"
definition FLASH_MER :: u32 where "FLASH_MER = push_bit 2 1"
definition FLASH_STRT :: u32 where "FLASH_STRT = push_bit 6 1"
definition FLASH_LOCK :: u32 where "FLASH_LOCK = push_bit 7 1"

definition FLASH_BSY :: u32 where "FLASH_BSY = push_bit 0 1"
definition FLASH_PGERR :: u32 where "FLASH_PGERR = push_bit 2 1"
definition FLASH_WRPRTERR :: u32 where "FLASH_WRPRTERR = push_bit 4 1"

definition KEY1 :: u32 where "KEY1 = 0x45670123"
definition KEY2 :: u32 where "KEY2 = 0xCDEF89AB"

definition FLASH_OFFSET_B0 :: int where "FLASH_OFFSET_B0 = 0x00"
definition FLASH_OFFSET_B1 :: int where "FLASH_OFFSET_B1 = 0x40"

text \<open>
  \<^verbatim>\<open>struct stm32x_flash_bank\<close> without the option byte cache, which none of the
  functions below reads or writes.
\<close>

record stm32x_flash_bank =
  write_algorithm :: "working_area option"
  ppage_size :: int
  probed :: int
  has_dual_banks :: bool
  register_offset :: int

type_synonym stm32x_bank = "stm32x_flash_bank flash_bank"

definition stm32x_get_flash_reg :: "stm32x_bank \<Rightarrow> u32 \<Rightarrow> u32" where
  "stm32x_get_flash_reg bank reg = reg + word_of_int (register_offset (driver_priv bank))"

definition stm32x_get_flash_status :: "target \<Rightarrow> tstate \<Rightarrow> stm32x_bank \<Rightarrow> (retval \<times> u32) \<times> tstate" where
  "stm32x_get_flash_status t s bank = target_read_u32 t s (stm32x_get_flash_reg bank STM32_FLASH_SR)"

text \<open>
  The \<^verbatim>\<open>for (;;)\<close> of \<^verbatim>\<open>stm32x_wait_status_busy\<close>. It is left with \<^verbatim>\<open>ERROR_OK\<close> by
  the \<^verbatim>\<open>break\<close>, and with another code by one of the two \<^verbatim>\<open>return\<close>s. The sleep
  between two reads is not a call to the target and is left out.
\<close>

function stm32x_wait_busy_loop ::
  "target \<Rightarrow> tstate \<Rightarrow> stm32x_bank \<Rightarrow> int \<Rightarrow> (retval \<times> u32) \<times> tstate" where
  "stm32x_wait_busy_loop t s bank timeout =
     (case stm32x_get_flash_status t s bank of ((retval, status), s') \<Rightarrow>
        if retval \<noteq> ERROR_OK then ((retval, status), s')
        else if status AND FLASH_BSY = 0 then ((ERROR_OK, status), s')
        else if timeout \<le> 0 then ((ERROR_FAIL, status), s')
        else stm32x_wait_busy_loop t s' bank (timeout - 1))"
  by pat_completeness auto
termination
  by (relation "measure (\<lambda>(t, s, bank, timeout). nat timeout)") auto

declare stm32x_wait_busy_loop.simps [simp del]

definition stm32x_wait_status_busy :: "target \<Rightarrow> tstate \<Rightarrow> stm32x_bank \<Rightarrow> int \<Rightarrow> retval \<times> tstate" where
  "stm32x_wait_status_busy t s bank timeout =
     (case stm32x_wait_busy_loop t s bank timeout of ((retval, status), s) \<Rightarrow>
        if retval \<noteq> ERROR_OK then (retval, s) else
        let retval = (if status AND FLASH_WRPRTERR \<noteq> 0 then ERROR_FAIL else retval);
            retval = (if status AND FLASH_PGERR \<noteq> 0 then ERROR_FAIL else retval)
        in if status AND (FLASH_WRPRTERR OR FLASH_PGERR) \<noteq> 0
           then (retval, snd (target_write_u32 t s (stm32x_get_flash_reg bank STM32_FLASH_SR)
                                 (FLASH_WRPRTERR OR FLASH_PGERR)))
           else (retval, s))"

definition stm32x_check_operation_supported :: "stm32x_bank \<Rightarrow> retval" where
  "stm32x_check_operation_supported bank =
     (if register_offset (driver_priv bank) \<noteq> FLASH_OFFSET_B0 then ERROR_FLASH_OPERATION_FAILED
      else ERROR_OK)"

subsection \<open>Protection check\<close>

text \<open>The division of C on \<^verbatim>\<open>int\<close>, which truncates towards zero.\<close>

definition c_div :: "int \<Rightarrow> int \<Rightarrow> int" where
  "c_div a b = sgn a * sgn b * (\<bar>a\<bar> div \<bar>b\<bar>)"

text \<open>
  \<^verbatim>\<open>for (s = s0; s < n; s++) bank->sectors[first + s].is_protected = set;\<close>
  on the sector table; \<open>None\<close> when an index leaves the table.
\<close>

function protect_run ::
  "flash_sector list \<Rightarrow> int \<Rightarrow> int \<Rightarrow> int \<Rightarrow> int \<Rightarrow> flash_sector list option" where
  "protect_run secs set' first s n =
     (if s < n then
        (if 0 \<le> first + s \<and> first + s < int (length secs)
         then protect_run (secs[nat (first + s) := (secs ! nat (first + s))\<lparr>is_protected := set'\<rparr>])
                set' first (s + 1) n
         else None)
      else Some secs)"
  by pat_completeness auto
termination
  by (relation "measure (\<lambda>(secs, set', first, s, n). nat (n - s))") auto

declare protect_run.simps [simp del]

text \<open>
  The loop over the protection bits, \<^verbatim>\<open>for (i = i0; i < num_bits; i++)\<close>: bit \<open>i\<close>
  of the register decides the flag of the sectors \<open>i * ppage_size + s\<close> for
  \<open>s < ppage_size\<close>; a set' bit means not protected. \<^verbatim>\<open>1 << i\<close> is not defined in C
  for \<open>i\<close> of 32 and more.
\<close>

function protect_bits ::
  "flash_sector list \<Rightarrow> u32 \<Rightarrow> int \<Rightarrow> int \<Rightarrow> int \<Rightarrow> flash_sector list option" where
  "protect_bits secs protection ppage num_bits i =
     (if i < num_bits then
        (if i < 0 \<or> 32 \<le> i then None
         else
           let set' = (if protection AND push_bit (nat i) 1 \<noteq> 0 then 0 else 1)
           in case protect_run secs set' (i * ppage) 0 ppage of
                None \<Rightarrow> None
              | Some secs' \<Rightarrow> protect_bits secs' protection ppage num_bits (i + 1))
      else Some secs)"
  by pat_completeness auto
termination
  by (relation "measure (\<lambda>(secs, protection, ppage, num_bits, i). nat (num_bits - i))") auto

declare protect_bits.simps [simp del]

definition stm32x_protect_check ::
  "target \<Rightarrow> tstate \<Rightarrow> stm32x_bank \<Rightarrow> retval \<times> tstate \<times> stm32x_bank" where
  "stm32x_protect_check t s bank =
     (if \<not> halted s then (ERROR_TARGET_NOT_HALTED, s, bank) else
      let retval = stm32x_check_operation_supported bank in
      if ERROR_OK \<noteq> retval then (retval, s, bank) else
      case target_read_u32 t s STM32_FLASH_WRPR of ((retval, protection), s) \<Rightarrow>
      if retval \<noteq> ERROR_OK then (retval, s, bank) else
      if ppage_size (driver_priv bank) = 0 then (ERROR_UNDEFINED, s, bank) else
      let num_bits = c_div (num_sectors bank) (ppage_size (driver_priv bank)) in
      if ppage_size (driver_priv bank) = 2 then
        (let set' = (if protection AND push_bit 31 1 \<noteq> 0 then 0 else 1) in
         case protect_run (sectors bank) set' 0 62 (num_sectors bank) of
           None \<Rightarrow> (ERROR_UNDEFINED, s, bank)
         | Some secs \<Rightarrow>
            let num_bits = (if num_sectors bank > 61 then 31 else num_bits) in
            case protect_bits secs protection (ppage_size (driver_priv bank)) num_bits 0 of
              None \<Rightarrow> (ERROR_UNDEFINED, s, bank)
            | Some secs \<Rightarrow> (ERROR_OK, s, bank\<lparr>sectors := secs\<rparr>))
      else
        (case protect_bits (sectors bank) protection (ppage_size (driver_priv bank)) num_bits 0 of
           None \<Rightarrow> (ERROR_UNDEFINED, s, bank)
         | Some secs \<Rightarrow> (ERROR_OK, s, bank\<lparr>sectors := secs\<rparr>)))"

subsection \<open>Erase and mass erase\<close>

definition stm32x_mass_erase :: "target \<Rightarrow> tstate \<Rightarrow> stm32x_bank \<Rightarrow> retval \<times> tstate" where
  "stm32x_mass_erase t s bank =
     (if \<not> halted s then (ERROR_TARGET_NOT_HALTED, s) else
      case target_write_u32 t s (stm32x_get_flash_reg bank STM32_FLASH_KEYR) KEY1 of (retval, s) \<Rightarrow>
      if retval \<noteq> ERROR_OK then (retval, s) else
      case target_write_u32 t s (stm32x_get_flash_reg bank STM32_FLASH_KEYR) KEY2 of (retval, s) \<Rightarrow>
      if retval \<noteq> ERROR_OK then (retval, s) else
      case target_write_u32 t s (stm32x_get_flash_reg bank STM32_FLASH_CR) FLASH_MER of (retval, s) \<Rightarrow>
      if retval \<noteq> ERROR_OK then (retval, s) else
      case target_write_u32 t s (stm32x_get_flash_reg bank STM32_FLASH_CR) (FLASH_MER OR FLASH_STRT) of (retval, s) \<Rightarrow>
      if retval \<noteq> ERROR_OK then (retval, s) else
      case stm32x_wait_status_busy t s bank 100 of (retval, s) \<Rightarrow>
      if retval \<noteq> ERROR_OK then (retval, s) else
      case target_write_u32 t s (stm32x_get_flash_reg bank STM32_FLASH_CR) FLASH_LOCK of (retval, s) \<Rightarrow>
      if retval \<noteq> ERROR_OK then (retval, s) else
      (ERROR_OK, s))"

text \<open>The loop \<^verbatim>\<open>for (i = first; i <= last; i++)\<close> of \<^verbatim>\<open>stm32x_erase\<close>.\<close>

function stm32x_erase_sectors ::
  "target \<Rightarrow> tstate \<Rightarrow> stm32x_bank \<Rightarrow> int \<Rightarrow> int \<Rightarrow> retval \<times> tstate \<times> stm32x_bank" where
  "stm32x_erase_sectors t s bank i last' =
     (if i \<le> last' then
        (case target_write_u32 t s (stm32x_get_flash_reg bank STM32_FLASH_CR) FLASH_PER of (retval, s) \<Rightarrow>
         if retval \<noteq> ERROR_OK then (retval, s, bank) else
         case sector_at bank i of
           None \<Rightarrow> (ERROR_UNDEFINED, s, bank)
         | Some sec \<Rightarrow>
            (case target_write_u32 t s (stm32x_get_flash_reg bank STM32_FLASH_AR)
                   (base bank + offset sec) of (retval, s) \<Rightarrow>
             if retval \<noteq> ERROR_OK then (retval, s, bank) else
             case target_write_u32 t s (stm32x_get_flash_reg bank STM32_FLASH_CR)
                   (FLASH_PER OR FLASH_STRT) of (retval, s) \<Rightarrow>
             if retval \<noteq> ERROR_OK then (retval, s, bank) else
             case stm32x_wait_status_busy t s bank 100 of (retval, s) \<Rightarrow>
             if retval \<noteq> ERROR_OK then (retval, s, bank) else
             stm32x_erase_sectors t s
               (bank\<lparr>sectors := (sectors bank)[nat i := sec\<lparr>is_erased := 1\<rparr>]\<rparr>) (i + 1) last'))
      else (ERROR_OK, s, bank))"
  by pat_completeness auto
termination
  by (relation "measure (\<lambda>(t, s, bank, i, last'). nat (last' + 1 - i))") auto

declare stm32x_erase_sectors.simps [simp del]

definition stm32x_erase ::
  "target \<Rightarrow> tstate \<Rightarrow> stm32x_bank \<Rightarrow> int \<Rightarrow> int \<Rightarrow> retval \<times> tstate \<times> stm32x_bank" where
  "stm32x_erase t s bank first last' =
     (if \<not> halted s then (ERROR_TARGET_NOT_HALTED, s, bank) else
      if first = 0 \<and> last' = num_sectors bank - 1
      then (case stm32x_mass_erase t s bank of (retval, s) \<Rightarrow> (retval, s, bank)) else
      case target_write_u32 t s (stm32x_get_flash_reg bank STM32_FLASH_KEYR) KEY1 of (retval, s) \<Rightarrow>
      if retval \<noteq> ERROR_OK then (retval, s, bank) else
      case target_write_u32 t s (stm32x_get_flash_reg bank STM32_FLASH_KEYR) KEY2 of (retval, s) \<Rightarrow>
      if retval \<noteq> ERROR_OK then (retval, s, bank) else
      case stm32x_erase_sectors t s bank first last' of (retval, s, bank) \<Rightarrow>
      if retval \<noteq> ERROR_OK then (retval, s, bank) else
      case target_write_u32 t s (stm32x_get_flash_reg bank STM32_FLASH_CR) FLASH_LOCK of (retval, s) \<Rightarrow>
      if retval \<noteq> ERROR_OK then (retval, s, bank) else
      (ERROR_OK, s, bank))"

subsection \<open>Writing\<close>

text \<open>The routine that is uploaded into the target's RAM (40 bytes).\<close>

definition stm32x_flash_write_code :: "u8 list" where
  "stm32x_flash_write_code =
     [0x08, 0x4c, 0x1c, 0x44, 0x01, 0x23, 0x23, 0x61,
      0x30, 0xf8, 0x02, 0x3b, 0x21, 0xf8, 0x02, 0x3b,
      0xe3, 0x68, 0x13, 0xf0, 0x01, 0x0f, 0xfb, 0xd0,
      0x13, 0xf0, 0x14, 0x0f, 0x01, 0xd1, 0x01, 0x3a,
      0xf0, 0xd1, 0x00, 0xbe, 0x00, 0x20, 0x02, 0x40]"

text \<open>
  The loop \<^verbatim>\<open>while (target_alloc_working_area_try(..., buffer_size, &source) != ERROR_OK)\<close>
  of \<^verbatim>\<open>stm32x_write_block\<close>: the size is halved after every failure; at 256 bytes or
  less the routine's area is freed and the function returns (\<open>Inl\<close>). \<open>Inr\<close> is the
  area that was obtained, with the size it has.
\<close>

function stm32x_alloc_source ::
  "target \<Rightarrow> tstate \<Rightarrow> stm32x_bank \<Rightarrow> u32 \<Rightarrow> (retval + working_area \<times> u32) \<times> tstate" where
  "stm32x_alloc_source t s bank buffer_size =
     (case target_alloc_working_area_try t s buffer_size of
        (Inr source, s') \<Rightarrow> (Inr (source, buffer_size), s')
      | (Inl e, s') \<Rightarrow>
          if buffer_size div 2 \<le> 256
          then (Inl ERROR_TARGET_RESOURCE_NOT_AVAILABLE,
                (case write_algorithm (driver_priv bank) of
                   Some wa \<Rightarrow> target_free_working_area t s' wa
                 | None \<Rightarrow> s'))
          else stm32x_alloc_source t s' bank (buffer_size div 2))"
  by pat_completeness auto
termination
proof (relation "measure (\<lambda>(t, s, bank, buffer_size). unat buffer_size)")
  show "wf (measure (\<lambda>(t, s, bank, buffer_size). unat buffer_size))"
    by simp
next
  fix t :: target and s :: tstate and bank :: stm32x_bank and buffer_size :: u32
    and x :: "(retval + working_area) \<times> tstate" and x1 x2 a
  assume "\<not> buffer_size div 2 \<le> 256"
  then have "buffer_size \<noteq> 0"
    by auto
  then have "unat (buffer_size div 2) < unat buffer_size"
    by (simp add: unat_div unat_gt_0)
  then show "((t, x2, bank, buffer_size div 2), (t, s, bank, buffer_size))
      \<in> measure (\<lambda>(t, s, bank, buffer_size). unat buffer_size)"
    by simp
qed

declare stm32x_alloc_source.simps [simp del]

text \<open>
  The loop \<^verbatim>\<open>while (count > 0)\<close> of \<^verbatim>\<open>stm32x_write_block\<close>. \<open>count\<close> is in half
  words. The result is the value of \<^verbatim>\<open>retval\<close> when the loop is left, by its
  condition or by a \<^verbatim>\<open>break\<close>. With a data area of less than two bytes
  (\<open>buffer_size div 2 = 0\<close>) no iteration makes progress and the loop of the source
  need not end: the result is then \<open>None\<close>. Reading the caller's buffer beyond its
  end is not defined.
\<close>

partial_function (option) stm32x_write_block_loop ::
  "target \<Rightarrow> tstate \<Rightarrow> working_area \<Rightarrow> working_area \<Rightarrow> int \<Rightarrow> u32 \<Rightarrow> retval
     \<Rightarrow> u8 list \<Rightarrow> u32 \<Rightarrow> u32 \<Rightarrow> (retval \<times> tstate) option" where
  "stm32x_write_block_loop t s source algorithm reg_offset buffer_size retval buffer address count =
     (if count > 0 then
        (let thisrun_count = (if count > buffer_size div 2 then buffer_size div 2 else count)
         in if length buffer < unat (thisrun_count * 2) then Some (ERROR_UNDEFINED, s) else
            case target_write_buffer t s (wa_address source)
                   (take (unat (thisrun_count * 2)) buffer) of (retval, s) \<Rightarrow>
            if retval \<noteq> ERROR_OK then Some (retval, s) else
            case target_run_algorithm t s
                   [wa_address source, address, thisrun_count, word_of_int reg_offset]
                   (wa_address algorithm) 0 10000 of ((retval, r3), s) \<Rightarrow>
            if retval \<noteq> ERROR_OK then Some (retval, s) else
            if r3 AND FLASH_PGERR \<noteq> 0
            then Some (ERROR_FAIL, snd (target_write_u32 t s STM32_FLASH_SR FLASH_PGERR)) else
            if r3 AND FLASH_WRPRTERR \<noteq> 0
            then Some (ERROR_FAIL, snd (target_write_u32 t s STM32_FLASH_SR FLASH_WRPRTERR)) else
            stm32x_write_block_loop t s source algorithm reg_offset buffer_size retval
              (drop (unat (thisrun_count * 2)) buffer)
              (address + thisrun_count * 2)
              (count - thisrun_count))
      else Some (retval, s))"

declare stm32x_write_block_loop.simps [code]

definition stm32x_write_block ::
  "target \<Rightarrow> tstate \<Rightarrow> stm32x_bank \<Rightarrow> u8 list \<Rightarrow> u32 \<Rightarrow> u32
     \<Rightarrow> (retval \<times> tstate \<times> stm32x_bank) option" where
  "stm32x_write_block t s bank buffer offs count =
     (let buffer_size = 16384;
          address = base bank + offs
      in case target_alloc_working_area t s (of_nat (length stm32x_flash_write_code)) of
           (Inl e, s) \<Rightarrow> Some (ERROR_TARGET_RESOURCE_NOT_AVAILABLE, s, bank)
         | (Inr algorithm, s) \<Rightarrow>
            (let bank = bank\<lparr>driver_priv := (driver_priv bank)\<lparr>write_algorithm := Some algorithm\<rparr>\<rparr>
             in case target_write_buffer t s (wa_address algorithm) stm32x_flash_write_code of
                  (retval, s) \<Rightarrow>
                if retval \<noteq> ERROR_OK then Some (retval, s, bank) else
                (case stm32x_alloc_source t s bank buffer_size of
                   (Inl e, s) \<Rightarrow> Some (e, s, bank)
                 | (Inr (source, buffer_size), s) \<Rightarrow>
                    (case stm32x_write_block_loop t s source algorithm
                            (register_offset (driver_priv bank)) buffer_size retval
                            buffer address count of
                       None \<Rightarrow> None
                     | Some (retval, s) \<Rightarrow>
                        Some (retval,
                              target_free_working_area t (target_free_working_area t s source) algorithm,
                              bank)))))"

text \<open>
  \<^verbatim>\<open>memcpy(&value, buffer + bytes_written, n)\<close> into a \<^verbatim>\<open>uint16_t\<close> on a little
  endian host: the first byte is the low half.
\<close>

definition halfword :: "u8 \<Rightarrow> u8 \<Rightarrow> u16" where
  "halfword lo hi = ucast lo OR push_bit 8 (ucast hi)"

text \<open>
  The loop \<^verbatim>\<open>while (words_remaining > 0)\<close> of \<^verbatim>\<open>stm32x_write\<close>, one half word per
  iteration. The result carries the \<^verbatim>\<open>address\<close> and \<^verbatim>\<open>bytes_written\<close> the loop ends
  with.
\<close>

function stm32x_write_words ::
  "target \<Rightarrow> tstate \<Rightarrow> stm32x_bank \<Rightarrow> u8 list \<Rightarrow> u32 \<Rightarrow> u32 \<Rightarrow> u32
     \<Rightarrow> retval \<times> tstate \<times> u32 \<times> u32" where
  "stm32x_write_words t s bank buffer address words_remaining bytes_written =
     (if words_remaining > 0 then
        (if length buffer < unat bytes_written + 2
         then (ERROR_UNDEFINED, s, address, bytes_written) else
         let value = halfword (buffer ! unat bytes_written) (buffer ! (unat bytes_written + 1)) in
         case target_write_u32 t s (stm32x_get_flash_reg bank STM32_FLASH_CR) FLASH_PG of (retval, s) \<Rightarrow>
         if retval \<noteq> ERROR_OK then (retval, s, address, bytes_written) else
         case target_write_u16 t s address value of (retval, s) \<Rightarrow>
         if retval \<noteq> ERROR_OK then (retval, s, address, bytes_written) else
         case stm32x_wait_status_busy t s bank 5 of (retval, s) \<Rightarrow>
         if retval \<noteq> ERROR_OK then (retval, s, address, bytes_written) else
         stm32x_write_words t s bank buffer (address + 2) (words_remaining - 1) (bytes_written + 2))
      else (ERROR_OK, s, address, bytes_written))"
  by pat_completeness auto
termination
proof (relation "measure (\<lambda>(t, s, bank, buffer, address, words_remaining, bytes_written).
                            unat words_remaining)")
  show "wf (measure (\<lambda>(t, s, bank, buffer, address, words_remaining, bytes_written).
                            unat words_remaining))"
    by simp
next
  fix t :: target and s s' :: tstate and bank :: stm32x_bank and buffer :: "u8 list"
    and address words_remaining bytes_written :: u32
  assume "0 < words_remaining"
  then have "unat (words_remaining - 1) < unat words_remaining"
    by (simp add: unat_minus_one word_neq_0_conv unat_gt_0)
  then show "((t, s', bank, buffer, address + 2, words_remaining - 1, bytes_written + 2),
              (t, s, bank, buffer, address, words_remaining, bytes_written))
      \<in> measure (\<lambda>(t, s, bank, buffer, address, words_remaining, bytes_written).
                    unat words_remaining)"
    by simp
qed

declare stm32x_write_words.simps [simp del]

definition stm32x_write ::
  "target \<Rightarrow> tstate \<Rightarrow> stm32x_bank \<Rightarrow> u8 list \<Rightarrow> u32 \<Rightarrow> u32
     \<Rightarrow> (retval \<times> tstate \<times> stm32x_bank) option" where
  "stm32x_write t s bank buffer offs count =
     (let words_remaining = count div 2;
          bytes_remaining = count AND 0x00000001;
          address = base bank + offs;
          bytes_written = 0
      in
      if \<not> halted s then Some (ERROR_TARGET_NOT_HALTED, s, bank) else
      if offs AND 0x1 \<noteq> 0 then Some (ERROR_FLASH_DST_BREAKS_ALIGNMENT, s, bank) else
      case target_write_u32 t s (stm32x_get_flash_reg bank STM32_FLASH_KEYR) KEY1 of (retval, s) \<Rightarrow>
      if retval \<noteq> ERROR_OK then Some (retval, s, bank) else
      case target_write_u32 t s (stm32x_get_flash_reg bank STM32_FLASH_KEYR) KEY2 of (retval, s) \<Rightarrow>
      if retval \<noteq> ERROR_OK then Some (retval, s, bank) else
      case (if words_remaining > 0
            then (case stm32x_write_block t s bank buffer offs words_remaining of
                    None \<Rightarrow> None
                  | Some (retval, s, bank) \<Rightarrow>
                      if retval \<noteq> ERROR_OK
                      then Some (retval, s, bank, buffer, address, words_remaining)
                      else Some (retval, s, bank,
                                 drop (unat (words_remaining * 2)) buffer,
                                 address + words_remaining * 2,
                                 0))
            else Some (retval, s, bank, buffer, address, words_remaining)) of
        None \<Rightarrow> None
      | Some (retval, s, bank, buffer, address, words_remaining) \<Rightarrow>
      if retval \<noteq> ERROR_OK \<and> retval \<noteq> ERROR_TARGET_RESOURCE_NOT_AVAILABLE
      then Some (retval, s, bank) else
      case stm32x_write_words t s bank buffer address words_remaining bytes_written of
        (retval, s, address, bytes_written) \<Rightarrow>
      if retval \<noteq> ERROR_OK then Some (retval, s, bank) else
      if bytes_remaining \<noteq> 0 then
        (if length buffer < unat bytes_written + 1 then Some (ERROR_UNDEFINED, s, bank) else
         let value = halfword (buffer ! unat bytes_written) 0xff in
         case target_write_u32 t s (stm32x_get_flash_reg bank STM32_FLASH_CR) FLASH_PG of (retval, s) \<Rightarrow>
         if retval \<noteq> ERROR_OK then Some (retval, s, bank) else
         case target_write_u16 t s address value of (retval, s) \<Rightarrow>
         if retval \<noteq> ERROR_OK then Some (retval, s, bank) else
         case stm32x_wait_status_busy t s bank 5 of (retval, s) \<Rightarrow>
         if retval \<noteq> ERROR_OK then Some (retval, s, bank) else
         (case target_write_u32 t s STM32_FLASH_CR FLASH_LOCK of (retval, s) \<Rightarrow> Some (retval, s, bank)))
      else
        (case target_write_u32 t s STM32_FLASH_CR FLASH_LOCK of (retval, s) \<Rightarrow> Some (retval, s, bank)))"

subsection \<open>Probing\<close>

text \<open>
  \<^verbatim>\<open>stm32x_probe\<close>. \<open>num_pages\<close> is a \<^verbatim>\<open>uint16_t\<close>: the flash size in KiB as the chip
  reports it, then the number of pages. The chain of \<^verbatim>\<open>if\<close>s on the device id
  chooses \<open>page_size\<close>, the private data and \<open>num_pages\<close>, or fails for an unknown
  id; the tail rebuilds the sector table with the same loop as \<open>build_sectors\<close>.
\<close>

definition stm32x_probe ::
  "target \<Rightarrow> tstate \<Rightarrow> stm32x_bank \<Rightarrow> retval \<times> tstate \<times> stm32x_bank" where
  "stm32x_probe t s bank0 =
     (let info = (driver_priv bank0)\<lparr>probed := 0, register_offset := FLASH_OFFSET_B0\<rparr>;
          bank = bank0\<lparr>driver_priv := info\<rparr>;
          base_address = 0x08000000
      in
      case target_read_u32 t s 0xE0042000 of ((retval, device_id), s) \<Rightarrow>
      if retval \<noteq> ERROR_OK then (retval, s, bank) else
      case target_read_u16 t s 0x1FFFF7E0 of ((retval, num_pages), s) \<Rightarrow>
      let num_pages = (if retval \<noteq> ERROR_OK then 0xffff else num_pages) in
      case
        (if device_id AND 0x7ff = 0x410 then
           Some (1024, info\<lparr>ppage_size := 4\<rparr>,
                 (if num_pages = 0xffff then 128 else num_pages), base_address)
         else if device_id AND 0x7ff = 0x412 then
           Some (1024, info\<lparr>ppage_size := 4\<rparr>,
                 (if num_pages = 0xffff then 32 else num_pages), base_address)
         else if device_id AND 0x7ff = 0x414 then
           Some (2048, info\<lparr>ppage_size := 2\<rparr>,
                 (if num_pages = 0xffff then 512 else num_pages), base_address)
         else if device_id AND 0x7ff = 0x418 then
           Some (2048, info\<lparr>ppage_size := 2\<rparr>,
                 (if num_pages = 0xffff then 256 else num_pages), base_address)
         else if device_id AND 0x7ff = 0x420 then
           Some (1024, info\<lparr>ppage_size := 4\<rparr>,
                 (if num_pages = 0xffff then 128 else num_pages), base_address)
         else if device_id AND 0x7ff = 0x430 then
           (let info = info\<lparr>ppage_size := 2, has_dual_banks := True\<rparr>;
                num_pages = (if num_pages = 0xffff then 1024 else num_pages)
            in if base bank \<noteq> 0x08080000
               then Some (2048, info, 512, base_address)
               else Some (2048, info\<lparr>register_offset := FLASH_OFFSET_B1\<rparr>,
                          num_pages - 512, 0x08080000))
         else None) of
        None \<Rightarrow> (ERROR_FAIL, s, bank)
      | Some (page_size, info, num_pages, base_address) \<Rightarrow>
          (let num_pages = num_pages div (word_of_int (c_div page_size 1024)) in
           (ERROR_OK, s,
            (rebuild_bank bank base_address num_pages page_size)
              \<lparr>driver_priv := info\<lparr>probed := 1\<rparr>\<rparr>)))"

section \<open>What a probe leaves behind\<close>

text \<open>
  A freshly rebuilt sector table for pages of \<open>page_size\<close> bytes: the bank's number of
  sectors is the length of the table, the bank's size is that number times the page
  size, sector \<open>i\<close> starts at \<open>i * page_size\<close> and is one page long, its erased
  state is unknown (\<open>- 1\<close>) and it counts as protected (\<open>1\<close>). Offsets and sizes are
  read as natural numbers, so nothing wraps around.
\<close>

definition fresh_sectors :: "'p flash_bank \<Rightarrow> nat \<Rightarrow> bool" where
  "fresh_sectors bank page_size =
     (num_sectors bank = int (length (sectors bank))
      \<and> unat (bank_size bank) = length (sectors bank) * page_size
      \<and> list_all (\<lambda>i. unat (offset (sectors bank ! i)) = i * page_size
                      \<and> unat (sector_size (sectors bank ! i)) = page_size
                      \<and> is_erased (sectors bank ! i) = - 1
                      \<and> is_protected (sectors bank ! i) = 1) [0..<length (sectors bank)])"

section \<open>Example targets and banks\<close>

text \<open>A target on which every call succeeds, reads return 0 and areas are handed out at 0x20000000.\<close>

definition quiet_target :: target where
  "quiet_target =
     \<lparr>read_u32_resp = (\<lambda>h a. (ERROR_OK, 0)),
      read_u16_resp = (\<lambda>h a. (ERROR_OK, 0)),
      write_u32_resp = (\<lambda>h a v. ERROR_OK),
      write_u16_resp = (\<lambda>h a v. ERROR_OK),
      alloc_resp = (\<lambda>h sz. (ERROR_OK, 0x20000000)),
      alloc_try_resp = (\<lambda>h sz. (ERROR_OK, 0x20001000)),
      write_buffer_resp = (\<lambda>h a bs. ERROR_OK),
      run_algorithm_resp = (\<lambda>h regs entry. (ERROR_OK, 0))\<rparr>"

definition start_state :: tstate where
  "start_state = \<lparr>halted = True, calls = [], areas = []\<rparr>"

definition running_state :: tstate where
  "running_state = \<lparr>halted = False, calls = [], areas = []\<rparr>"

text \<open>A nucX1 bank before the first probe, and one with four sectors of 512 bytes.\<close>

definition nucX1_bank0 :: "nucX1_flash_bank flash_bank" where
  "nucX1_bank0 =
     \<lparr>base = 0, bank_size = 0, num_sectors = 0, sectors = [],
      driver_priv = \<lparr>nucX1_write_algorithm = None, nucX1_probed = 0\<rparr>\<rparr>"

definition nucX1_bank4 :: "nucX1_flash_bank flash_bank" where
  "nucX1_bank4 =
     \<lparr>base = 0, bank_size = 2048, num_sectors = 4, sectors = build_sectors 4 512,
      driver_priv = \<lparr>nucX1_write_algorithm = None, nucX1_probed = 1\<rparr>\<rparr>"

definition nucX1_bank256 :: "nucX1_flash_bank flash_bank" where
  "nucX1_bank256 =
     \<lparr>base = 0, bank_size = 0x20000, num_sectors = 256, sectors = build_sectors 256 512,
      driver_priv = \<lparr>nucX1_write_algorithm = None, nucX1_probed = 1\<rparr>\<rparr>"

text \<open>stm32x banks of the medium density family: four sectors, and the full 128 sectors.\<close>

definition stm32x_bank4 :: stm32x_bank where
  "stm32x_bank4 =
     \<lparr>base = 0x08000000, bank_size = 0x1000, num_sectors = 4, sectors = build_sectors 4 1024,
      driver_priv = \<lparr>write_algorithm = None, ppage_size = 4, probed = 1,
                     has_dual_banks = False, register_offset = 0\<rparr>\<rparr>"

definition stm32x_bank128 :: stm32x_bank where
  "stm32x_bank128 =
     \<lparr>base = 0x08000000, bank_size = 0x20000, num_sectors = 128, sectors = build_sectors 128 1024,
      driver_priv = \<lparr>write_algorithm = None, ppage_size = 4, probed = 1,
                     has_dual_banks = False, register_offset = 0\<rparr>\<rparr>"

text \<open>A medium density stm32 with 128 KiB of flash, and a NUC120.\<close>

definition medium_density :: target where
  "medium_density = quiet_target\<lparr>read_u32_resp := (\<lambda>h a. (ERROR_OK, 0x20036410)),
                                 read_u16_resp := (\<lambda>h a. (ERROR_OK, 128))\<rparr>"

definition nuc120 :: target where
  "nuc120 = quiet_target\<lparr>read_u32_resp := (\<lambda>h a. (ERROR_OK, 0x00012000))\<rparr>"

text \<open>A target that hands out working areas but refuses every upload into its RAM.\<close>

definition upload_fails :: target where
  "upload_fails = quiet_target\<lparr>write_buffer_resp := (\<lambda>h a bs. ERROR_FAIL)\<rparr>"

text \<open>A NUC whose \<^verbatim>\<open>ISPCON\<close> register always shows the fail flag \<^verbatim>\<open>ISPFF\<close> (bit 6).\<close>

definition isp_fails :: target where
  "isp_fails = quiet_target\<lparr>read_u32_resp :=
      (\<lambda>h a. if a = NUCX1_FLASH_ISPCON then (ERROR_OK, 0x40) else (ERROR_OK, 0))\<rparr>"

section \<open>Speaking about the calls a function makes\<close>

text \<open>
  \<open>only_calls P s s'\<close>: the state \<open>s'\<close> is reached from \<open>s\<close> by making calls that
  all satisfy \<open>P\<close>; the earlier history is kept and the target's run state is the
  same.
\<close>

definition only_calls :: "(tap_call \<Rightarrow> bool) \<Rightarrow> tstate \<Rightarrow> tstate \<Rightarrow> bool" where
  "only_calls P s s' =
     (halted s' = halted s
      \<and> take (length (calls s)) (calls s') = calls s
      \<and> list_all P (drop (length (calls s)) (calls s')))"

definition is_write_to :: "u32 \<Rightarrow> tap_call \<Rightarrow> bool" where
  "is_write_to a c = (case c of WriteU32 a' v \<Rightarrow> a' = a | _ \<Rightarrow> False)"

text \<open>
  The calls of the stm32x driver by kind: reading the status register and clearing
  its error bits; what is done for one sector of a sector erase (the erase mode, the
  sector's address, the start trigger); what a mass erase does; the write that locks
  the flash again; the unlock sequence.
\<close>

definition status_call :: "stm32x_bank \<Rightarrow> tap_call \<Rightarrow> bool" where
  "status_call bank c =
     (c = ReadU32 (stm32x_get_flash_reg bank STM32_FLASH_SR)
      \<or> c = WriteU32 (stm32x_get_flash_reg bank STM32_FLASH_SR) (FLASH_WRPRTERR OR FLASH_PGERR))"

definition sector_erase_call :: "stm32x_bank \<Rightarrow> tap_call \<Rightarrow> bool" where
  "sector_erase_call bank c =
     (is_write_to (stm32x_get_flash_reg bank STM32_FLASH_AR) c
      \<or> c = WriteU32 (stm32x_get_flash_reg bank STM32_FLASH_CR) FLASH_PER
      \<or> c = WriteU32 (stm32x_get_flash_reg bank STM32_FLASH_CR) (FLASH_PER OR FLASH_STRT))"

definition mass_erase_call :: "stm32x_bank \<Rightarrow> tap_call \<Rightarrow> bool" where
  "mass_erase_call bank c =
     (status_call bank c
      \<or> c = WriteU32 (stm32x_get_flash_reg bank STM32_FLASH_KEYR) KEY1
      \<or> c = WriteU32 (stm32x_get_flash_reg bank STM32_FLASH_KEYR) KEY2
      \<or> c = WriteU32 (stm32x_get_flash_reg bank STM32_FLASH_CR) FLASH_MER
      \<or> c = WriteU32 (stm32x_get_flash_reg bank STM32_FLASH_CR) (FLASH_MER OR FLASH_STRT)
      \<or> c = WriteU32 (stm32x_get_flash_reg bank STM32_FLASH_CR) FLASH_LOCK)"

definition erase_call :: "stm32x_bank \<Rightarrow> tap_call \<Rightarrow> bool" where
  "erase_call bank c = (status_call bank c \<or> sector_erase_call bank c)"

definition lock_call :: "stm32x_bank \<Rightarrow> tap_call" where
  "lock_call bank = WriteU32 (stm32x_get_flash_reg bank STM32_FLASH_CR) FLASH_LOCK"

definition erase_start :: "stm32x_bank \<Rightarrow> flash_sector \<Rightarrow> tap_call list" where
  "erase_start bank sec =
     [WriteU32 (stm32x_get_flash_reg bank STM32_FLASH_CR) FLASH_PER,
      WriteU32 (stm32x_get_flash_reg bank STM32_FLASH_AR) (base bank + offset sec),
      WriteU32 (stm32x_get_flash_reg bank STM32_FLASH_CR) (FLASH_PER OR FLASH_STRT)]"

definition unlocked :: "stm32x_bank \<Rightarrow> tstate \<Rightarrow> tstate" where
  "unlocked bank s =
     logged (logged s (WriteU32 (stm32x_get_flash_reg bank STM32_FLASH_KEYR) KEY1))
       (WriteU32 (stm32x_get_flash_reg bank STM32_FLASH_KEYR) KEY2)"

text \<open>
  The body of the loop of \<^verbatim>\<open>stm32x_erase\<close> for sector \<open>i\<close>, on its own: the loop
  \<open>stm32x_erase_sectors\<close> runs it for \<open>i\<close> and, when it returns \<^verbatim>\<open>ERROR_OK\<close>, goes on
  with \<open>i + 1\<close> (lemma \<open>stm32x_erase_sectors_unfold\<close>).
\<close>

definition stm32x_erase_one ::
  "target \<Rightarrow> tstate \<Rightarrow> stm32x_bank \<Rightarrow> int \<Rightarrow> retval \<times> tstate \<times> stm32x_bank" where
  "stm32x_erase_one t s bank i =
     (case target_write_u32 t s (stm32x_get_flash_reg bank STM32_FLASH_CR) FLASH_PER of (retval, s) \<Rightarrow>
      if retval \<noteq> ERROR_OK then (retval, s, bank) else
      case sector_at bank i of
        None \<Rightarrow> (ERROR_UNDEFINED, s, bank)
      | Some sec \<Rightarrow>
         (case target_write_u32 t s (stm32x_get_flash_reg bank STM32_FLASH_AR)
                (base bank + offset sec) of (retval, s) \<Rightarrow>
          if retval \<noteq> ERROR_OK then (retval, s, bank) else
          case target_write_u32 t s (stm32x_get_flash_reg bank STM32_FLASH_CR)
                (FLASH_PER OR FLASH_STRT) of (retval, s) \<Rightarrow>
          if retval \<noteq> ERROR_OK then (retval, s, bank) else
          case stm32x_wait_status_busy t s bank 100 of (retval, s) \<Rightarrow>
          if retval \<noteq> ERROR_OK then (retval, s, bank) else
          (ERROR_OK, s, bank\<lparr>sectors := (sectors bank)[nat i := sec\<lparr>is_erased := 1\<rparr>]\<rparr>)))"

text \<open>Two banks that differ at most in the contents of their sector table.\<close>

definition same_chip :: "stm32x_bank \<Rightarrow> stm32x_bank \<Rightarrow> bool" where
  "same_chip bank bank' =
     (base bank' = base bank \<and> num_sectors bank' = num_sectors bank
      \<and> driver_priv bank' = driver_priv bank
      \<and> length (sectors bank') = length (sectors bank))"

text \<open>
  A target whose flash stays busy for ever once the erase of the sector at address
  \<open>a\<close> was started (the address was written to \<^verbatim>\<open>FLASH_AR\<close>), and the states of an
  erase of sectors 1 to 3 that gets stuck at sector 2.
\<close>

definition busy_after_erase_of :: "u32 \<Rightarrow> target" where
  "busy_after_erase_of a =
     quiet_target\<lparr>read_u32_resp :=
       (\<lambda>h r. if WriteU32 STM32_FLASH_AR a \<in> set h then (ERROR_OK, 1) else (ERROR_OK, 0))\<rparr>"

definition stm32x_bank4_erased1 :: stm32x_bank where
  "stm32x_bank4_erased1 =
     stm32x_bank4\<lparr>sectors := (sectors stm32x_bank4)[1 := (sectors stm32x_bank4 ! 1)\<lparr>is_erased := 1\<rparr>]\<rparr>"

definition before_sector2 :: tstate where
  "before_sector2 =
     start_state\<lparr>calls :=
       [WriteU32 STM32_FLASH_KEYR KEY1, WriteU32 STM32_FLASH_KEYR KEY2,
        WriteU32 STM32_FLASH_CR FLASH_PER, WriteU32 STM32_FLASH_AR 0x08000400,
        WriteU32 STM32_FLASH_CR (FLASH_PER OR FLASH_STRT), ReadU32 STM32_FLASH_SR]\<rparr>"

definition sector2 :: flash_sector where
  "sector2 = \<lparr>offset = 2048, sector_size = 1024, is_erased = - 1, is_protected = 1\<rparr>"

section \<open>Collections of defining equations\<close>

lemmas nucX1_consts =
  NUCX1_SYS_WRPROT_def NUCX1_SYSCLK_PWRCON_def NUCX1_SYSCLK_CLKSEL0_def NUCX1_SYSCLK_CLKDIV_def
  NUCX1_SYSCLK_AHBCLK_def NUCX1_FLASH_ISPCON_def NUCX1_FLASH_ISPCMD_def NUCX1_FLASH_ISPADR_def
  NUCX1_FLASH_ISPTRG_def PWRCON_XTL12M_def AHBCLK_ISP_EN_def ISPCON_ISPEN_def ISPCON_ISPFF_def
  ISPCMD_FCTRL_def ISPCMD_FOEN_def ISPCMD_ERASE_def ISPTRG_ISPGO_def
  nucX1_KEY1_def nucX1_KEY2_def nucX1_KEY3_def nucX1_LOCK_def

lemmas target_calls =
  target_read_u32_def target_read_u16_def target_write_u32_def target_write_u16_def
  target_write_buffer_def target_alloc_working_area_def target_alloc_working_area_try_def
  target_free_working_area_def target_run_algorithm_def logged_def

lemmas stm32x_consts =
  STM32_FLASH_KEYR_def STM32_FLASH_SR_def STM32_FLASH_CR_def STM32_FLASH_AR_def STM32_FLASH_WRPR_def
  FLASH_PG_def FLASH_PER_def FLASH_MER_def FLASH_STRT_def FLASH_LOCK_def
  FLASH_BSY_def FLASH_PGERR_def FLASH_WRPRTERR_def KEY1_def KEY2_def
  FLASH_OFFSET_B0_def FLASH_OFFSET_B1_def

section \<open>Reading the protection register\<close>

text \<open>
  The flag the loop of \<^verbatim>\<open>stm32x_protect_check\<close> computes for bit \<open>i\<close>
  (\<^verbatim>\<open>set = 1; if (protection & (1 << i)) set = 0;\<close>).
\<close>

definition prot_flag :: "u32 \<Rightarrow> int \<Rightarrow> int" where
  "prot_flag protection i = (if protection AND push_bit (nat i) 1 \<noteq> 0 then 0 else 1)"

text \<open>
  What the protection register says about a sector table, in words: bit \<open>i\<close> of the
  register governs the sectors \<open>i * ppage\<close> up to \<open>(i + 1) * ppage\<close>, for every group
  that fits into the table; a set bit means that the group is not protected (flag 0),
  a clear bit that it is protected (flag 1). Nothing else of a sector changes, and
  sectors beyond the last whole group keep their flag.
\<close>

definition protection_flags :: "u32 \<Rightarrow> nat \<Rightarrow> flash_sector list \<Rightarrow> flash_sector list" where
  "protection_flags protection ppage secs =
     map (\<lambda>j. if j < (length secs div ppage) * ppage
              then (secs ! j)\<lparr>is_protected := (if bit protection (j div ppage) then 0 else 1)\<rparr>
              else secs ! j) [0..<length secs]"

section \<open>Writing half words one by one\<close>

text \<open>
  The calls of \<^verbatim>\<open>stm32x_write\<close> for the \<open>j\<close>-th programming unit of the bytes
  \<open>bytes\<close> written to \<open>address\<close>: program mode, the half word (low byte first), and
  one read of the status register. \<open>flash_idle\<close>: whenever the status register is
  read, the read succeeds and shows neither the busy bit nor an error bit.
\<close>

definition unit_write :: "stm32x_bank \<Rightarrow> u32 \<Rightarrow> u8 list \<Rightarrow> nat \<Rightarrow> tap_call list" where
  "unit_write bank address bytes j =
     [WriteU32 (stm32x_get_flash_reg bank STM32_FLASH_CR) FLASH_PG,
      WriteU16 (address + 2 * of_nat j) (halfword (bytes ! (2 * j)) (bytes ! (2 * j + 1))),
      ReadU32 (stm32x_get_flash_reg bank STM32_FLASH_SR)]"

definition flash_idle :: "target \<Rightarrow> stm32x_bank \<Rightarrow> bool" where
  "flash_idle t bank =
     (\<forall>h. \<exists>v. read_u32_resp t h (stm32x_get_flash_reg bank STM32_FLASH_SR) = (ERROR_OK, v)
            \<and> v AND FLASH_BSY = 0 \<and> v AND FLASH_WRPRTERR = 0 \<and> v AND FLASH_PGERR = 0)"

definition unlock_calls :: "stm32x_bank \<Rightarrow> tap_call list" where
  "unlock_calls bank =
     [WriteU32 (stm32x_get_flash_reg bank STM32_FLASH_KEYR) KEY1,
      WriteU32 (stm32x_get_flash_reg bank STM32_FLASH_KEYR) KEY2]"

section \<open>More example targets\<close>

text \<open>The protection register reads \<^verbatim>\<open>0xFFFFFFFE\<close>: only bit 0 is clear.\<close>

definition wrpr_fffffffe :: target where
  "wrpr_fffffffe =
     quiet_target\<lparr>read_u32_resp :=
       (\<lambda>h a. if a = STM32_FLASH_WRPR then (ERROR_OK, 0xFFFFFFFE) else (ERROR_OK, 0))\<rparr>"

text \<open>
  A target without any working area, and one that has room for the routine but
  none for a data buffer, whatever its size.
\<close>

definition no_working_area :: target where
  "no_working_area =
     quiet_target\<lparr>alloc_resp := (\<lambda>h sz. (ERROR_TARGET_RESOURCE_NOT_AVAILABLE, 0)),
                  alloc_try_resp := (\<lambda>h sz. (ERROR_TARGET_RESOURCE_NOT_AVAILABLE, 0))\<rparr>"

definition no_data_area :: target where
  "no_data_area =
     quiet_target\<lparr>alloc_try_resp := (\<lambda>h sz. (ERROR_TARGET_RESOURCE_NOT_AVAILABLE, 0))\<rparr>"

text \<open>
  The areas the quiet target hands out, and what a block write of the first two of
  the three bytes \<open>[1, 2, 3]\<close> to the start of the four sector bank leaves behind
  on it.
\<close>

definition routine_area :: working_area where
  "routine_area = \<lparr>wa_address = 0x20000000, wa_size = 40\<rparr>"

definition data_area :: working_area where
  "data_area = \<lparr>wa_address = 0x20001000, wa_size = 16384\<rparr>"

definition after_block_write :: tstate where
  "after_block_write =
     start_state\<lparr>calls :=
       [WriteU32 STM32_FLASH_KEYR KEY1, WriteU32 STM32_FLASH_KEYR KEY2,
        AllocWorkingArea 40, WriteBuffer 0x20000000 stm32x_flash_write_code,
        AllocWorkingAreaTry 16384, WriteBuffer 0x20001000 [1, 2],
        RunAlgorithm [0x20001000, 0x08000000, 1, 0] 0x20000000 0 10000,
        FreeWorkingArea data_area, FreeWorkingArea routine_area]\<rparr>"

definition stm32x_bank4_routine :: stm32x_bank where
  "stm32x_bank4_routine =
     stm32x_bank4\<lparr>driver_priv := (driver_priv stm32x_bank4)\<lparr>write_algorithm := Some routine_area\<rparr>\<rparr>"

section \<open>Arithmetic of the sector table\<close>

lemma length_build_sectors: "length (build_sectors n ps) = unat n"
  by (simp add: build_sectors_def)

lemma nth_build_sectors:
  "i < unat n \<Longrightarrow> build_sectors n ps ! i =
     \<lparr>offset = word_of_int (int i * ps), sector_size = word_of_int ps,
      is_erased = - 1, is_protected = 1\<rparr>"
  by (simp add: build_sectors_def)

lemma unat_u16_bound: "unat (n :: u16) < 65536"
  using unsigned_less [of n, where ?'a = nat] by simp

lemma uint_word_of_int_small:
  "0 \<le> k \<Longrightarrow> k < 2 ^ 32 \<Longrightarrow> uint (word_of_int k :: u32) = k"
  by (simp add: uint_word_of_int take_bit_int_eq_self)

lemma unat_word_of_int_small:
  assumes "0 \<le> k" and "k < 2 ^ 32"
  shows "unat (word_of_int k :: u32) = nat k"
proof -
  have "uint (word_of_int k :: u32) = k"
    using assms by (rule uint_word_of_int_small)
  then show ?thesis
    by (metis nat_uint_eq)
qed

lemma page_product_small:
  assumes "0 \<le> (a :: int)" and "a < 65536" and "0 < ps" and "ps \<le> 2048"
  shows "0 \<le> a * ps \<and> a * ps < 2 ^ 32"
proof -
  have "a * ps \<le> 65535 * 2048"
    using mult_mono [of a 65535 ps 2048] assms by simp
  moreover have "0 \<le> a * ps"
    using assms by simp
  ultimately show ?thesis by simp
qed

lemma unat_page_offset:
  assumes "i < unat (n :: u16)" and "0 < ps" and "ps \<le> 2048"
  shows "unat (word_of_int (int i * ps) :: u32) = i * nat ps"
proof -
  have "int i < 65536" using assms(1) unat_u16_bound [of n] by simp
  then have "0 \<le> int i * ps \<and> int i * ps < 2 ^ 32"
    using assms by (intro page_product_small) simp_all
  then have "unat (word_of_int (int i * ps) :: u32) = nat (int i * ps)"
    by (intro unat_word_of_int_small) simp_all
  then show ?thesis using assms by (simp add: nat_mult_distrib)
qed

lemma unat_bank_size:
  assumes "0 < ps" and "ps \<le> 2048"
  shows "unat (word_of_int (uint (n :: u16) * ps) :: u32) = unat n * nat ps"
proof -
  have "uint n < 65536" using uint_bounded [of n] by simp
  then have "0 \<le> uint n * ps \<and> uint n * ps < 2 ^ 32"
    using assms by (intro page_product_small) simp_all
  then have "unat (word_of_int (uint n * ps) :: u32) = nat (uint n * ps)"
    by (intro unat_word_of_int_small) simp_all
  then show ?thesis using assms by (simp add: nat_mult_distrib)
qed

lemma unat_page_offset_product:
  assumes "i < unat (n :: u16)" and "0 < ps" and "ps \<le> 2048"
  shows "unat (word_of_nat i * word_of_int ps :: u32) = i * nat ps"
  using unat_page_offset [OF assms] by simp

lemma unat_bank_size_product:
  assumes "0 < ps" and "ps \<le> 2048"
  shows "unat (ucast (n :: u16) * word_of_int ps :: u32) = unat n * nat ps"
  using unat_bank_size [OF assms, of n] by simp

lemma fresh_rebuild_bank:
  assumes "0 < ps" and "ps \<le> 2048"
  shows "fresh_sectors ((rebuild_bank bank b n ps)\<lparr>driver_priv := d\<rparr>) (nat ps)"
  using assms
  by (simp add: fresh_sectors_def rebuild_bank_def length_build_sectors nth_build_sectors
      unat_page_offset_product unat_bank_size_product unat_word_of_int_small list_all_iff)

section \<open>Probing\<close>

lemma fresh_nucX1_rebuild: "fresh_sectors (nucX1_rebuild bank n 512) 512"
  using fresh_rebuild_bank [where ps = 512] by (simp add: nucX1_rebuild_def)

lemma nucX1_probe_fresh:
  assumes "nucX1_probe t s bank = (ERROR_OK, s', bank')"
  shows "fresh_sectors bank' 512"
  using assms
  by (auto simp: nucX1_probe_def Let_def fresh_nucX1_rebuild split: if_splits prod.splits)

lemma stm32x_probe_fresh:
  assumes "stm32x_probe t s bank = (ERROR_OK, s', bank')"
  shows "fresh_sectors bank' 1024 \<or> fresh_sectors bank' 2048"
proof -
  have a: "fresh_sectors ((rebuild_bank bk b n 1024)\<lparr>driver_priv := d\<rparr>) 1024"
    for bk :: stm32x_bank and b n d
    using fresh_rebuild_bank [where ps = 1024] by simp
  have b: "fresh_sectors ((rebuild_bank bk b n 2048)\<lparr>driver_priv := d\<rparr>) 2048"
    for bk :: stm32x_bank and b n d
    using fresh_rebuild_bank [where ps = 2048] by simp
  show ?thesis
    using assms
    by (auto simp: stm32x_probe_def Let_def a b split: if_splits prod.splits option.splits)
qed

text \<open>
  C10. Whenever a probe succeeds, of the stm32x driver or of the nucX1 driver, the
  sector table it leaves is freshly rebuilt in the sense of \<open>fresh_sectors\<close>: the
  number of sectors times the page size is the bank's size, sector \<open>i\<close> has offset
  \<open>i * page_size\<close> and size \<open>page_size\<close>, every erased state is unknown and every
  sector counts as protected. The page size is 1024 or 2048 bytes for an stm32 and
  512 bytes for a NUC.
\<close>

theorem probe_rebuilds_sectors:
  "(stm32x_probe t s bank = (ERROR_OK, s', bank') \<longrightarrow>
      fresh_sectors bank' 1024 \<or> fresh_sectors bank' 2048)
   \<and> (nucX1_probe tn sn nbank = (ERROR_OK, sn', nbank') \<longrightarrow> fresh_sectors nbank' 512)"
  using stm32x_probe_fresh nucX1_probe_fresh by blast

lemma stm32x_probe_medium_density:
  "stm32x_probe medium_density start_state stm32x_bank4 =
     (ERROR_OK, start_state\<lparr>calls := [ReadU32 0xE0042000, ReadU16 0x1FFFF7E0]\<rparr>, stm32x_bank128)"
  by (simp add: stm32x_probe_def medium_density_def quiet_target_def start_state_def
      stm32x_bank4_def stm32x_bank128_def target_read_u32_def target_read_u16_def logged_def
      FLASH_OFFSET_B0_def c_div_def rebuild_bank_def)

lemma nucX1_probe_nuc120:
  "nucX1_probe nuc120 start_state nucX1_bank0 =
     (ERROR_OK, start_state\<lparr>calls := [ReadU32 0x50000000]\<rparr>, nucX1_bank256)"
  by (simp add: nucX1_probe_def nuc120_def quiet_target_def start_state_def nucX1_bank0_def
      nucX1_bank256_def target_read_u32_def logged_def nucX1_rebuild_def rebuild_bank_def)

lemma stm32x_bank128_not_2048: "\<not> fresh_sectors stm32x_bank128 2048"
  by (simp add: fresh_sectors_def stm32x_bank128_def)

theorem probe_rebuilds_sectors_witness:
  "stm32x_probe medium_density start_state stm32x_bank4 =
     (ERROR_OK, start_state\<lparr>calls := [ReadU32 0xE0042000, ReadU16 0x1FFFF7E0]\<rparr>, stm32x_bank128)
   \<and> fresh_sectors stm32x_bank128 1024
   \<and> nucX1_probe nuc120 start_state nucX1_bank0 =
     (ERROR_OK, start_state\<lparr>calls := [ReadU32 0x50000000]\<rparr>, nucX1_bank256)
   \<and> fresh_sectors nucX1_bank256 512"
  using probe_rebuilds_sectors
    [of medium_density start_state stm32x_bank4
        "start_state\<lparr>calls := [ReadU32 0xE0042000, ReadU16 0x1FFFF7E0]\<rparr>" stm32x_bank128
        nuc120 start_state nucX1_bank0
        "start_state\<lparr>calls := [ReadU32 0x50000000]\<rparr>" nucX1_bank256]
    stm32x_probe_medium_density nucX1_probe_nuc120 stm32x_bank128_not_2048
  by blast

section \<open>Writing with the nucX1 driver\<close>

text \<open>
  C2. For every bank, buffer, count and 2-byte aligned offset, \<^verbatim>\<open>nucX1_write_block\<close>
  returns \<^verbatim>\<open>ERROR_OK\<close> and makes no call to the target at all: the state, with its
  history of calls and its list of working areas, is returned as it was, so no
  area is allocated, no routine uploaded, no register written and none of the data
  programmed. This holds for the function of \<^verbatim>\<open>src/nucX1.c\<close> and for the stub of the
  second copy.
\<close>

theorem nucX1_write_block_does_nothing:
  assumes "offs AND 0x1 = 0"
  shows "nucX1_write_block t s bank buffer offs count = (ERROR_OK, s)
       \<and> nucX1_write_block_stub t s bank buffer offs count = (ERROR_OK, s)"
  using assms by (simp add: nucX1_write_block_def nucX1_write_block_stub_def)

theorem nucX1_write_block_does_nothing_witness:
  "(0x100 :: u32) AND 0x1 = 0
   \<and> nucX1_write_block quiet_target start_state nucX1_bank4 [1, 2, 3, 4] 0x100 4 = (ERROR_OK, start_state)
   \<and> nucX1_write_block_stub quiet_target start_state nucX1_bank4 [1, 2, 3, 4] 0x100 4 = (ERROR_OK, start_state)"
proof -
  have h: "(0x100 :: u32) AND 0x1 = 0" by simp
  show ?thesis using h nucX1_write_block_does_nothing [OF h] by simp
qed

section \<open>The alignment check of a write\<close>

text \<open>
  C8. For an odd offset, \<^verbatim>\<open>stm32x_write\<close> on a halted target and
  \<^verbatim>\<open>nucX1_write_block\<close> of \<^verbatim>\<open>src/nucX1.c\<close> return \<^verbatim>\<open>ERROR_FLASH_DST_BREAKS_ALIGNMENT\<close>
  at once, and no call is made to the target: the state is returned as it was (no
  register read or written, no unlock, no working area allocated). Beside the claim:
  on a target that is not halted \<^verbatim>\<open>stm32x_write\<close> returns
  \<^verbatim>\<open>ERROR_TARGET_NOT_HALTED\<close> before it looks at the offset, and the placeholder for
  the write in the second copy of the nucX1 driver returns \<^verbatim>\<open>ERROR_OK\<close>; they make
  no call either.
\<close>

theorem write_alignment_check:
  assumes "offs AND 0x1 \<noteq> 0"
  shows "stm32x_write t s bank buffer offs count =
           Some (if halted s then ERROR_FLASH_DST_BREAKS_ALIGNMENT else ERROR_TARGET_NOT_HALTED,
                 s, bank)
       \<and> nucX1_write_block t s nbank buffer offs count = (ERROR_FLASH_DST_BREAKS_ALIGNMENT, s)
       \<and> nucX1_write_block_stub t s nbank buffer offs count = (ERROR_OK, s)"
  using assms
  by (simp add: stm32x_write_def nucX1_write_block_def nucX1_write_block_stub_def)

theorem write_alignment_check_witness:
  "(1 :: u32) AND 0x1 \<noteq> 0
   \<and> stm32x_write quiet_target start_state stm32x_bank4 [1, 2, 3, 4] 1 4
       = Some (ERROR_FLASH_DST_BREAKS_ALIGNMENT, start_state, stm32x_bank4)
   \<and> nucX1_write_block quiet_target start_state nucX1_bank4 [1, 2, 3, 4] 1 4
       = (ERROR_FLASH_DST_BREAKS_ALIGNMENT, start_state)
   \<and> nucX1_write_block_stub quiet_target start_state nucX1_bank4 [1, 2, 3, 4] 1 4
       = (ERROR_OK, start_state)"
proof -
  have h: "(1 :: u32) AND 0x1 \<noteq> 0" by simp
  show ?thesis
    using h write_alignment_check [OF h, of quiet_target start_state stm32x_bank4 "[1, 2, 3, 4]" 4 nucX1_bank4]
    by (simp add: start_state_def)
qed

section \<open>Working areas of a block write\<close>

text \<open>
  The loop of the block write allocates and frees nothing.
\<close>

lemma write_block_loop_areas:
  assumes "stm32x_write_block_loop t s source algorithm reg_offset buffer_size retval buffer
     address count = Some y"
  shows "areas (snd y) = areas s"
  apply (rule stm32x_write_block_loop.raw_induct [where P = "\<lambda>t s source algorithm reg_offset
    buffer_size retval buffer address count y. areas (snd y) = areas s", OF _ assms])
  subgoal premises p for f t s source algorithm reg_offset buffer_size retval buffer address count y
    using p(2)
    by (auto simp: Let_def target_calls split: if_splits prod.splits dest!: p(1))
  done

text \<open>
  The search for a data area either ends with a data area of more than 256 bytes, or
  gives up and frees the area of the routine.
\<close>

lemma alloc_source_areas:
  assumes "stm32x_alloc_source t s bank buffer_size = (res, s')"
    and "write_algorithm (driver_priv bank) = Some alg"
    and "256 < buffer_size"
  shows "case res of
           Inl e \<Rightarrow> e = ERROR_TARGET_RESOURCE_NOT_AVAILABLE \<and> areas s' = remove1 alg (areas s)
         | Inr (source, sz) \<Rightarrow> areas s' = areas s @ [source] \<and> 256 < wa_size source"
  using assms
proof (induction t s bank buffer_size arbitrary: res s' rule: stm32x_alloc_source.induct)
  case (1 t s bank buffer_size)
  show ?case
  proof (cases "target_alloc_working_area_try t s buffer_size")
    case (Pair a s1)
    show ?thesis
    proof (cases a)
      case (Inr source)
      then have "wa_size source = buffer_size" "areas s1 = areas s @ [source]"
        using Pair
        by (auto simp: target_alloc_working_area_try_def split: prod.splits if_splits)
      then show ?thesis
        using "1.prems" Pair Inr
        by (subst (asm) stm32x_alloc_source.simps) auto
    next
      case (Inl e)
      then have s1: "areas s1 = areas s"
        using Pair
        by (auto simp: target_alloc_working_area_try_def logged_def split: prod.splits if_splits)
      show ?thesis
      proof (cases "buffer_size div 2 \<le> 256")
        case True
        then show ?thesis
          using "1.prems" Pair Inl s1
          by (subst (asm) stm32x_alloc_source.simps)
             (auto simp: target_free_working_area_def logged_def)
      next
        case False
        then have big: "256 < buffer_size div 2"
          by simp
        have "stm32x_alloc_source t s1 bank (buffer_size div 2) = (res, s')"
          using "1.prems" Pair Inl False
          by (subst (asm) stm32x_alloc_source.simps) simp
        from "1.IH" [OF Pair [symmetric] Inl False this "1.prems"(2) big]
        show ?thesis using s1 by (auto split: sum.splits)
      qed
    qed
  qed
qed

text \<open>
  Every return of \<^verbatim>\<open>stm32x_write_block\<close> leaves as many working areas allocated as
  it found, but one: the return after a failed upload of the routine, which leaves the
  area of the routine behind.
\<close>

lemma write_block_other_exits_release:
  assumes "stm32x_write_block t s bank buffer offs count = Some (r, s', bank')"
  shows "length (areas s') = length (areas s)
         \<or> (\<exists>alg. areas s' = areas s @ [alg] \<and> r \<noteq> ERROR_OK
               \<and> last (calls s') = WriteBuffer (wa_address alg) stm32x_flash_write_code)"
proof (cases "target_alloc_working_area t s (of_nat (length stm32x_flash_write_code))")
  case (Pair a s1)
  show ?thesis
  proof (cases a)
    case (Inl e)
    then have "areas s1 = areas s"
      using Pair by (auto simp: target_alloc_working_area_def logged_def split: prod.splits if_splits)
    then show ?thesis
      using assms Pair Inl by (simp add: stm32x_write_block_def)
  next
    case (Inr alg)
    then have s1: "areas s1 = areas s @ [alg]" and sz: "wa_size alg = 40"
      using Pair
      by (auto simp: target_alloc_working_area_def logged_def stm32x_flash_write_code_def
          split: prod.splits if_splits)
    define bank1 where
      "bank1 = bank\<lparr>driver_priv := (driver_priv bank)\<lparr>write_algorithm := Some alg\<rparr>\<rparr>"
    obtain r2 s2 where up: "target_write_buffer t s1 (wa_address alg) stm32x_flash_write_code = (r2, s2)"
      by (cases "target_write_buffer t s1 (wa_address alg) stm32x_flash_write_code")
    then have s2: "areas s2 = areas s1"
      and l2: "last (calls s2) = WriteBuffer (wa_address alg) stm32x_flash_write_code"
      by (auto simp: target_write_buffer_def logged_def)
    show ?thesis
    proof (cases "r2 = ERROR_OK")
      case False
      then show ?thesis
        using assms Pair Inr up s1 s2 l2 by (auto simp: stm32x_write_block_def)
    next
      case True
      obtain res s3 where al: "stm32x_alloc_source t s2 bank1 16384 = (res, s3)"
        by (cases "stm32x_alloc_source t s2 bank1 16384")
      have wa: "write_algorithm (driver_priv bank1) = Some alg"
        by (simp add: bank1_def)
      note src = alloc_source_areas [OF al wa]
      show ?thesis
      proof (cases res)
        case (Inl e)
        then have "areas s3 = remove1 alg (areas s2)"
          using src by simp
        then have "length (areas s3) = length (areas s)"
          using s1 s2 by (simp add: length_remove1)
        then show ?thesis
          using assms Pair Inr up True al Inl
          by (auto simp: stm32x_write_block_def bank1_def [symmetric])
      next
        case (Inr p)
        obtain source sz' where p: "p = (source, sz')"
          by (cases p)
        then have s3: "areas s3 = areas s2 @ [source]" and big: "256 < wa_size source"
          using src Inr by simp_all
        have ne: "source \<noteq> alg"
          using big sz by auto
        obtain r4 s4 where lp: "stm32x_write_block_loop t s3 source alg
            (register_offset (driver_priv bank1)) sz' r2 buffer (base bank + offs) count
            = Some (r4, s4)"
          and s': "s' = target_free_working_area t (target_free_working_area t s4 source) alg"
          using assms Pair \<open>a = Inr alg\<close> up True al Inr p
          by (auto simp: stm32x_write_block_def bank1_def [symmetric] split: option.splits)
        have "areas s4 = areas s @ [alg, source]"
          using write_block_loop_areas [OF lp] s3 s2 s1 by simp
        then have "length (areas s') = length (areas s)"
          using ne by (simp add: s' target_free_working_area_def logged_def length_remove1)
        then show ?thesis ..
      qed
    qed
  qed
qed

text \<open>
  C1, at a failing input. The target hands out the working area for the routine,
  and the upload of the routine into it fails. \<^verbatim>\<open>stm32x_write_block\<close> returns the
  error of the upload at once: the calls it made are the allocation and the upload,
  there is no call that frees the area, and the area is still allocated after the
  return.
\<close>

theorem write_block_leaks_routine_area:
  "map_option (\<lambda>(retval, s, bank). (retval, calls s, areas s))
     (stm32x_write_block upload_fails start_state stm32x_bank4 [1, 2, 3, 4] 0 2)
   = Some (ERROR_FAIL,
           [AllocWorkingArea 40, WriteBuffer 0x20000000 stm32x_flash_write_code],
           [\<lparr>wa_address = 0x20000000, wa_size = 40\<rparr>])"
  by (simp add: stm32x_write_block_def upload_fails_def quiet_target_def start_state_def
      target_alloc_working_area_def target_write_buffer_def logged_def
      stm32x_flash_write_code_def)

section \<open>Errors of a sector erase on the NUC\<close>

text \<open>
  C5, at a failing input. Sector 1 of a four sector bank is erased on a NUC whose
  \<^verbatim>\<open>ISPCON\<close> shows the fail flag after the erase. \<^verbatim>\<open>nucX1_erase\<close> writes the flag back
  to clear it, leaves the sector's erased state as it was (unknown), goes on to
  lock the chip again and returns \<^verbatim>\<open>ERROR_OK\<close>.
\<close>

theorem nucX1_erase_swallows_failure:
  "(case nucX1_erase isp_fails start_state nucX1_bank4 1 1 of
      (retval, s, bank) \<Rightarrow> (retval, drop 13 (calls s), map is_erased (sectors bank)))
   = (ERROR_OK,
      [WriteU32 NUCX1_FLASH_ISPADR 512, WriteU32 NUCX1_FLASH_ISPTRG ISPTRG_ISPGO,
       ReadU32 NUCX1_FLASH_ISPTRG, ReadU32 NUCX1_FLASH_ISPCON,
       WriteU32 NUCX1_FLASH_ISPCON ISPCON_ISPFF, WriteU32 NUCX1_SYS_WRPROT nucX1_LOCK],
      [- 1, - 1, - 1, - 1])"
  by (simp add: nucX1_erase_def nucX1_erase_sectors.simps nucX1_wait_go.simps isp_fails_def
      quiet_target_def start_state_def nucX1_bank4_def build_sectors_def sector_at_def
      target_calls nucX1_consts upt_conv_Cons)

section \<open>Calls made by the stm32x driver\<close>

lemma only_calls_refl: "only_calls P s s"
  by (simp add: only_calls_def)

lemma only_callsI:
  "halted s' = halted s \<Longrightarrow> calls s' = calls s @ new \<Longrightarrow> list_all P new \<Longrightarrow> only_calls P s s'"
  by (simp add: only_calls_def)

lemma only_callsE:
  assumes "only_calls P s s'"
  obtains new where "calls s' = calls s @ new" and "list_all P new" and "halted s' = halted s"
  using assms unfolding only_calls_def by (metis append_take_drop_id)

lemma only_calls_trans:
  assumes "only_calls P s s1" and "only_calls P s1 s2"
  shows "only_calls P s s2"
proof -
  from assms(1) obtain n1 where 1: "calls s1 = calls s @ n1" "list_all P n1" "halted s1 = halted s"
    by (rule only_callsE)
  from assms(2) obtain n2 where 2: "calls s2 = calls s1 @ n2" "list_all P n2" "halted s2 = halted s1"
    by (rule only_callsE)
  show ?thesis
    by (rule only_callsI [where new = "n1 @ n2"]) (simp_all add: 1 2)
qed

lemma only_calls_logged: "P c \<Longrightarrow> only_calls P s (logged s c)"
  by (simp add: only_calls_def logged_def)

lemma only_calls_step: "only_calls P s s1 \<Longrightarrow> P c \<Longrightarrow> only_calls P s (logged s1 c)"
  using only_calls_trans only_calls_logged by blast

lemma only_calls_mono: "only_calls P s s' \<Longrightarrow> (\<And>c. P c \<Longrightarrow> Q c) \<Longrightarrow> only_calls Q s s'"
  unfolding only_calls_def by (auto simp: list_all_iff)

lemma wait_busy_loop_calls:
  "only_calls (status_call bank) s (snd (stm32x_wait_busy_loop t s bank timeout))"
proof (induction t s bank timeout rule: stm32x_wait_busy_loop.induct)
  case (1 t s bank timeout)
  let ?s1 = "logged s (ReadU32 (stm32x_get_flash_reg bank STM32_FLASH_SR))"
  have step: "only_calls (status_call bank) s ?s1"
    by (rule only_calls_logged) (simp add: status_call_def)
  show ?case
  proof (cases "stm32x_get_flash_status t s bank")
    case (Pair rv s')
    obtain retval status where rv: "rv = (retval, status)" by (cases rv)
    have s': "s' = ?s1"
      using Pair by (simp add: stm32x_get_flash_status_def target_read_u32_def)
    show ?thesis
    proof (cases "retval \<noteq> ERROR_OK \<or> status AND FLASH_BSY = 0 \<or> timeout \<le> 0")
      case True
      then show ?thesis
        using Pair rv s' step
        by (subst stm32x_wait_busy_loop.simps) auto
    next
      case False
      then have "only_calls (status_call bank) s' (snd (stm32x_wait_busy_loop t s' bank (timeout - 1)))"
        using "1.IH" [OF Pair [symmetric] rv [symmetric]] by simp
      then show ?thesis
        using False Pair rv s' step
        by (subst stm32x_wait_busy_loop.simps) (auto intro: only_calls_trans)
    qed
  qed
qed

lemma wait_status_busy_calls:
  "only_calls (status_call bank) s (snd (stm32x_wait_status_busy t s bank timeout))"
proof -
  have loop: "only_calls (status_call bank) s (snd (stm32x_wait_busy_loop t s bank timeout))"
    by (rule wait_busy_loop_calls)
  show ?thesis
    using loop
    by (auto simp: stm32x_wait_status_busy_def Let_def target_write_u32_def status_call_def
        split: prod.splits intro: only_calls_step)
qed

lemma mass_erase_call_not_sector:
  "mass_erase_call bank c \<Longrightarrow> \<not> sector_erase_call bank c"
  by (auto simp: mass_erase_call_def sector_erase_call_def status_call_def is_write_to_def
      stm32x_get_flash_reg_def stm32x_consts)

lemma wait_status_busy_mass:
  "only_calls (mass_erase_call bank) s (snd (stm32x_wait_status_busy t s bank timeout))"
  by (rule only_calls_mono [OF wait_status_busy_calls]) (simp add: mass_erase_call_def)

lemma mass_erase_calls:
  "only_calls (mass_erase_call bank) s (snd (stm32x_mass_erase t s bank))"
proof -
  have w: "only_calls (mass_erase_call bank) s0 s1 \<Longrightarrow>
           only_calls (mass_erase_call bank) s0 (snd (stm32x_wait_status_busy t s1 bank timeout))"
    for s0 s1 timeout
    using only_calls_trans wait_status_busy_mass by blast
  have k: "only_calls (mass_erase_call bank) s0 s1 \<Longrightarrow> mass_erase_call bank c \<Longrightarrow>
           only_calls (mass_erase_call bank) s0 (logged s1 c)" for s0 s1 c
    by (rule only_calls_step)
  have m: "mass_erase_call bank (WriteU32 (stm32x_get_flash_reg bank STM32_FLASH_KEYR) KEY1)"
      "mass_erase_call bank (WriteU32 (stm32x_get_flash_reg bank STM32_FLASH_KEYR) KEY2)"
      "mass_erase_call bank (WriteU32 (stm32x_get_flash_reg bank STM32_FLASH_CR) FLASH_MER)"
      "mass_erase_call bank (WriteU32 (stm32x_get_flash_reg bank STM32_FLASH_CR) (FLASH_MER OR FLASH_STRT))"
      "mass_erase_call bank (WriteU32 (stm32x_get_flash_reg bank STM32_FLASH_CR) FLASH_LOCK)"
    by (simp_all add: mass_erase_call_def)
  let ?s1 = "logged s (WriteU32 (stm32x_get_flash_reg bank STM32_FLASH_KEYR) KEY1)"
  let ?s2 = "logged ?s1 (WriteU32 (stm32x_get_flash_reg bank STM32_FLASH_KEYR) KEY2)"
  let ?s3 = "logged ?s2 (WriteU32 (stm32x_get_flash_reg bank STM32_FLASH_CR) FLASH_MER)"
  let ?s4 = "logged ?s3 (WriteU32 (stm32x_get_flash_reg bank STM32_FLASH_CR) (FLASH_MER OR FLASH_STRT))"
  let ?s5 = "snd (stm32x_wait_status_busy t ?s4 bank 100)"
  let ?s6 = "logged ?s5 (WriteU32 (stm32x_get_flash_reg bank STM32_FLASH_CR) FLASH_LOCK)"
  have 1: "only_calls (mass_erase_call bank) s ?s1" by (intro k only_calls_refl m)
  have 2: "only_calls (mass_erase_call bank) s ?s2" by (intro k 1 m)
  have 3: "only_calls (mass_erase_call bank) s ?s3" by (intro k 2 m)
  have 4: "only_calls (mass_erase_call bank) s ?s4" by (intro k 3 m)
  have 5: "only_calls (mass_erase_call bank) s ?s5" by (intro w 4)
  have 6: "only_calls (mass_erase_call bank) s ?s6" by (intro k 5 m)
  show ?thesis
    using 1 2 3 4 5 6
    by (auto simp: stm32x_mass_erase_def target_write_u32_def only_calls_refl split: prod.splits)
qed

section \<open>Erasing the full range\<close>

text \<open>
  C6, the claim as it stands fails: the nucX1 driver has no mass erase (the dispatch
  is commented out in \<^verbatim>\<open>nucX1_erase\<close>: "Nuc can't do mass erase"). Erasing the full
  range 0 to 3 of a four sector bank writes the address of every sector to
  \<^verbatim>\<open>ISPADR\<close>, one sector after the other.
\<close>

theorem full_range_erase_counterexample:
  "(case nucX1_erase quiet_target start_state nucX1_bank4 0 (num_sectors nucX1_bank4 - 1) of
      (retval, s, bank) \<Rightarrow> (retval, filter (is_write_to NUCX1_FLASH_ISPADR) (calls s)))
   = (ERROR_OK, [WriteU32 NUCX1_FLASH_ISPADR 0, WriteU32 NUCX1_FLASH_ISPADR 512,
                 WriteU32 NUCX1_FLASH_ISPADR 1024, WriteU32 NUCX1_FLASH_ISPADR 1536])"
  by (simp add: nucX1_erase_def nucX1_erase_sectors.simps nucX1_wait_go.simps
      quiet_target_def start_state_def nucX1_bank4_def build_sectors_def sector_at_def
      target_calls nucX1_consts upt_conv_Cons is_write_to_def)

text \<open>
  C6, amended. For the stm32x driver, on a halted target, an erase of the full range
  (\<open>first = 0\<close> and \<open>last = num_sectors - 1\<close>) is the mass erase: it returns the code
  and the target state of \<^verbatim>\<open>stm32x_mass_erase\<close>, leaves the bank as it was, and none
  of the calls it makes is a call of the per-sector erase (no write to the address
  register, no write of the sector erase mode or of the sector erase start trigger
  to the control register).
\<close>

theorem full_range_erase_is_mass_erase:
  assumes "halted s"
  shows "stm32x_erase t s bank 0 (num_sectors bank - 1)
           = (fst (stm32x_mass_erase t s bank), snd (stm32x_mass_erase t s bank), bank)
       \<and> only_calls (\<lambda>c. \<not> sector_erase_call bank c) s
           (fst (snd (stm32x_erase t s bank 0 (num_sectors bank - 1))))"
proof -
  have eq: "stm32x_erase t s bank 0 (num_sectors bank - 1)
           = (fst (stm32x_mass_erase t s bank), snd (stm32x_mass_erase t s bank), bank)"
    using assms by (simp add: stm32x_erase_def split: prod.splits)
  have "only_calls (\<lambda>c. \<not> sector_erase_call bank c) s (snd (stm32x_mass_erase t s bank))"
    by (rule only_calls_mono [OF mass_erase_calls]) (rule mass_erase_call_not_sector)
  then show ?thesis
    using eq by simp
qed

lemma stm32x_mass_erase_quiet:
  "stm32x_mass_erase quiet_target start_state stm32x_bank4 =
     (ERROR_OK,
      start_state\<lparr>calls :=
        [WriteU32 STM32_FLASH_KEYR KEY1, WriteU32 STM32_FLASH_KEYR KEY2,
         WriteU32 STM32_FLASH_CR FLASH_MER, WriteU32 STM32_FLASH_CR (FLASH_MER OR FLASH_STRT),
         ReadU32 STM32_FLASH_SR, WriteU32 STM32_FLASH_CR FLASH_LOCK]\<rparr>)"
  by (simp add: stm32x_mass_erase_def stm32x_wait_status_busy_def stm32x_wait_busy_loop.simps
      stm32x_get_flash_status_def stm32x_get_flash_reg_def stm32x_bank4_def quiet_target_def
      start_state_def target_calls FLASH_BSY_def FLASH_WRPRTERR_def FLASH_PGERR_def)

theorem full_range_erase_is_mass_erase_witness:
  "stm32x_erase quiet_target start_state stm32x_bank4 0 3 =
     (ERROR_OK,
      start_state\<lparr>calls :=
        [WriteU32 STM32_FLASH_KEYR KEY1, WriteU32 STM32_FLASH_KEYR KEY2,
         WriteU32 STM32_FLASH_CR FLASH_MER, WriteU32 STM32_FLASH_CR (FLASH_MER OR FLASH_STRT),
         ReadU32 STM32_FLASH_SR, WriteU32 STM32_FLASH_CR FLASH_LOCK]\<rparr>,
      stm32x_bank4)
   \<and> only_calls (\<lambda>c. \<not> sector_erase_call stm32x_bank4 c) start_state
        (start_state\<lparr>calls :=
        [WriteU32 STM32_FLASH_KEYR KEY1, WriteU32 STM32_FLASH_KEYR KEY2,
         WriteU32 STM32_FLASH_CR FLASH_MER, WriteU32 STM32_FLASH_CR (FLASH_MER OR FLASH_STRT),
         ReadU32 STM32_FLASH_SR, WriteU32 STM32_FLASH_CR FLASH_LOCK]\<rparr>)"
proof -
  have h: "halted start_state" by (simp add: start_state_def)
  have n: "num_sectors stm32x_bank4 - 1 = 3" by (simp add: stm32x_bank4_def)
  note th = full_range_erase_is_mass_erase [OF h, of quiet_target stm32x_bank4]
  have e: "stm32x_erase quiet_target start_state stm32x_bank4 0 3 =
     (ERROR_OK,
      start_state\<lparr>calls :=
        [WriteU32 STM32_FLASH_KEYR KEY1, WriteU32 STM32_FLASH_KEYR KEY2,
         WriteU32 STM32_FLASH_CR FLASH_MER, WriteU32 STM32_FLASH_CR (FLASH_MER OR FLASH_STRT),
         ReadU32 STM32_FLASH_SR, WriteU32 STM32_FLASH_CR FLASH_LOCK]\<rparr>,
      stm32x_bank4)"
    using th by (simp add: n stm32x_mass_erase_quiet)
  have "only_calls (\<lambda>c. \<not> sector_erase_call stm32x_bank4 c) start_state
        (fst (snd (stm32x_erase quiet_target start_state stm32x_bank4 0 (num_sectors stm32x_bank4 - 1))))"
    using th by (rule conjunct2)
  then show ?thesis
    using e by (simp add: n)
qed

section \<open>A sector erase that never finishes\<close>

lemma wait_busy_loop_stuck:
  assumes "0 \<le> timeout"
    and "\<forall>j \<le> nat timeout. \<exists>v.
           read_u32_resp t (calls s @ replicate j (ReadU32 (stm32x_get_flash_reg bank STM32_FLASH_SR)))
             (stm32x_get_flash_reg bank STM32_FLASH_SR) = (ERROR_OK, v) \<and> v AND FLASH_BSY \<noteq> 0"
  shows "\<exists>v. stm32x_wait_busy_loop t s bank timeout =
           ((ERROR_FAIL, v),
            s\<lparr>calls := calls s @ replicate (nat timeout + 1)
                                  (ReadU32 (stm32x_get_flash_reg bank STM32_FLASH_SR))\<rparr>)"
  using assms
proof (induction t s bank timeout rule: stm32x_wait_busy_loop.induct)
  case (1 t s bank timeout)
  let ?R = "ReadU32 (stm32x_get_flash_reg bank STM32_FLASH_SR)"
  from "1.prems"(2) [rule_format, of 0] obtain v where
    v: "read_u32_resp t (calls s) (stm32x_get_flash_reg bank STM32_FLASH_SR) = (ERROR_OK, v)"
       "v AND FLASH_BSY \<noteq> 0"
    by auto
  have st: "stm32x_get_flash_status t s bank = ((ERROR_OK, v), logged s ?R)"
    using v by (simp add: stm32x_get_flash_status_def target_read_u32_def)
  show ?case
  proof (cases "timeout \<le> 0")
    case True
    then have "timeout = 0" using "1.prems"(1) by simp
    then show ?thesis
      using st v by (subst stm32x_wait_busy_loop.simps) (simp add: logged_def)
  next
    case False
    have stuck': "\<forall>j \<le> nat (timeout - 1). \<exists>v.
           read_u32_resp t (calls (logged s ?R) @ replicate j ?R)
             (stm32x_get_flash_reg bank STM32_FLASH_SR) = (ERROR_OK, v) \<and> v AND FLASH_BSY \<noteq> 0"
    proof (intro allI impI)
      fix j assume "j \<le> nat (timeout - 1)"
      then have "Suc j \<le> nat timeout" using False by simp
      from "1.prems"(2) [rule_format, OF this]
      show "\<exists>v. read_u32_resp t (calls (logged s ?R) @ replicate j ?R)
             (stm32x_get_flash_reg bank STM32_FLASH_SR) = (ERROR_OK, v) \<and> v AND FLASH_BSY \<noteq> 0"
        by (simp add: logged_def)
    qed
    have "\<exists>v. stm32x_wait_busy_loop t (logged s ?R) bank (timeout - 1) =
           ((ERROR_FAIL, v),
            (logged s ?R)\<lparr>calls := calls (logged s ?R) @ replicate (nat (timeout - 1) + 1) ?R\<rparr>)"
      using "1.IH" [OF st [symmetric] refl _ _ False] v False stuck' by simp
    moreover have "replicate (nat timeout) ?R = ?R # replicate (nat (timeout - 1)) ?R"
    proof -
      have "nat timeout = Suc (nat (timeout - 1))" using False by simp
      then show ?thesis by (metis replicate_Suc)
    qed
    ultimately show ?thesis
      using st v False
      by (subst stm32x_wait_busy_loop.simps) (auto simp: logged_def)
  qed
qed

lemma wait_status_busy_stuck:
  assumes "0 \<le> timeout"
    and "\<forall>j \<le> nat timeout. \<exists>v.
           read_u32_resp t (calls s @ replicate j (ReadU32 (stm32x_get_flash_reg bank STM32_FLASH_SR)))
             (stm32x_get_flash_reg bank STM32_FLASH_SR) = (ERROR_OK, v) \<and> v AND FLASH_BSY \<noteq> 0"
  shows "stm32x_wait_status_busy t s bank timeout =
           (ERROR_FAIL,
            s\<lparr>calls := calls s @ replicate (nat timeout + 1)
                                  (ReadU32 (stm32x_get_flash_reg bank STM32_FLASH_SR))\<rparr>)"
  using wait_busy_loop_stuck [OF assms]
  by (auto simp: stm32x_wait_status_busy_def)

lemma stm32x_erase_sectors_unfold:
  "stm32x_erase_sectors t s bank i last' =
     (if i \<le> last' then
        (case stm32x_erase_one t s bank i of (retval, s', bank') \<Rightarrow>
           if retval \<noteq> ERROR_OK then (retval, s', bank')
           else stm32x_erase_sectors t s' bank' (i + 1) last')
      else (ERROR_OK, s, bank))"
  by (subst stm32x_erase_sectors.simps)
     (simp add: stm32x_erase_one_def split: prod.splits option.splits)

lemma same_chip_refl: "same_chip bank bank"
  by (simp add: same_chip_def)

lemma same_chip_regs:
  "same_chip bank bank' \<Longrightarrow> stm32x_get_flash_reg bank' r = stm32x_get_flash_reg bank r"
  by (simp add: same_chip_def stm32x_get_flash_reg_def)

lemma same_chip_calls:
  "same_chip bank bank' \<Longrightarrow> erase_call bank' = erase_call bank"
  by (auto simp: fun_eq_iff erase_call_def status_call_def sector_erase_call_def same_chip_regs)

lemma erase_one_calls:
  "only_calls (erase_call bank) s (fst (snd (stm32x_erase_one t s bank i)))"
proof -
  have e: "erase_call bank (WriteU32 (stm32x_get_flash_reg bank STM32_FLASH_CR) FLASH_PER)"
      "erase_call bank (WriteU32 (stm32x_get_flash_reg bank STM32_FLASH_AR) v)"
      "erase_call bank (WriteU32 (stm32x_get_flash_reg bank STM32_FLASH_CR) (FLASH_PER OR FLASH_STRT))"
    for v
    by (simp_all add: erase_call_def sector_erase_call_def is_write_to_def)
  have w: "only_calls (erase_call bank) s0 s1 \<Longrightarrow>
           only_calls (erase_call bank) s0 (snd (stm32x_wait_status_busy t s1 bank timeout))"
    for s0 s1 timeout
    using only_calls_trans only_calls_mono [OF wait_status_busy_calls, of bank "erase_call bank"]
    by (metis erase_call_def)
  have k: "only_calls (erase_call bank) s0 s1 \<Longrightarrow> erase_call bank c \<Longrightarrow>
           only_calls (erase_call bank) s0 (logged s1 c)" for s0 s1 c
    by (rule only_calls_step)
  let ?s1 = "logged s (WriteU32 (stm32x_get_flash_reg bank STM32_FLASH_CR) FLASH_PER)"
  have 1: "only_calls (erase_call bank) s ?s1" by (intro k only_calls_refl e)
  show ?thesis
  proof (cases "sector_at bank i")
    case None
    then show ?thesis
      using 1 by (auto simp: stm32x_erase_one_def target_write_u32_def split: prod.splits)
  next
    case (Some sec)
    let ?s2 = "logged ?s1 (WriteU32 (stm32x_get_flash_reg bank STM32_FLASH_AR) (base bank + offset sec))"
    let ?s3 = "logged ?s2 (WriteU32 (stm32x_get_flash_reg bank STM32_FLASH_CR) (FLASH_PER OR FLASH_STRT))"
    let ?s4 = "snd (stm32x_wait_status_busy t ?s3 bank 100)"
    have 2: "only_calls (erase_call bank) s ?s2" by (intro k 1 e)
    have 3: "only_calls (erase_call bank) s ?s3" by (intro k 2 e)
    have 4: "only_calls (erase_call bank) s ?s4" by (intro w 3)
    show ?thesis
      using Some 1 2 3 4
      by (auto simp: stm32x_erase_one_def target_write_u32_def split: prod.splits)
  qed
qed

lemma erase_one_frame:
  assumes "stm32x_erase_one t s bank i = (r, s', bank')"
  shows "same_chip bank bank'"
    and "j \<noteq> i \<Longrightarrow> sector_at bank' j = sector_at bank j"
  using assms
  by (auto simp: stm32x_erase_one_def same_chip_def sector_at_def
      split: prod.splits option.splits if_splits)

lemma erase_sectors_frame:
  "stm32x_erase_sectors t s bank i last' = (r, s', bank') \<Longrightarrow>
     same_chip bank bank'
     \<and> (\<forall>j. j < i \<or> last' < j \<longrightarrow> sector_at bank' j = sector_at bank j)
     \<and> only_calls (erase_call bank) s s'"
proof (induction "nat (last' + 1 - i)" arbitrary: i s bank)
  case 0
  then have "\<not> i \<le> last'" by simp
  then show ?case
    using "0.prems" by (subst (asm) stm32x_erase_sectors_unfold) (simp add: same_chip_refl only_calls_refl)
next
  case (Suc n)
  then have le: "i \<le> last'" by simp
  obtain r1 s1 b1 where one: "stm32x_erase_one t s bank i = (r1, s1, b1)"
    by (cases "stm32x_erase_one t s bank i") auto
  have f1: "same_chip bank b1" and f2: "\<And>j. j \<noteq> i \<Longrightarrow> sector_at b1 j = sector_at bank j"
    using erase_one_frame [OF one] by auto
  have c1: "only_calls (erase_call bank) s s1"
    using erase_one_calls [of bank s t i] one by simp
  show ?case
  proof (cases "r1 \<noteq> ERROR_OK")
    case True
    then have "(r, s', bank') = (r1, s1, b1)"
      using Suc.prems le one by (subst (asm) stm32x_erase_sectors_unfold) simp
    then show ?thesis using f1 f2 c1 le by auto
  next
    case False
    then have rest: "stm32x_erase_sectors t s1 b1 (i + 1) last' = (r, s', bank')"
      using Suc.prems le one by (subst (asm) stm32x_erase_sectors_unfold) simp
    have "n = nat (last' + 1 - (i + 1))" using Suc.hyps(2) by simp
    from Suc.hyps(1) [OF this rest]
    have ih: "same_chip b1 bank'"
      "\<forall>j. j < i + 1 \<or> last' < j \<longrightarrow> sector_at bank' j = sector_at b1 j"
      "only_calls (erase_call b1) s1 s'"
      by auto
    have "same_chip bank bank'"
      using f1 ih(1) by (simp add: same_chip_def)
    moreover have "\<forall>j. j < i \<or> last' < j \<longrightarrow> sector_at bank' j = sector_at bank j"
      using ih(2) f2 le by auto
    moreover have "only_calls (erase_call bank) s s'"
      using c1 ih(3) same_chip_calls [OF f1] only_calls_trans by metis
    ultimately show ?thesis by simp
  qed
qed

lemma erase_sectors_split:
  "i \<le> k \<Longrightarrow> k \<le> last' + 1 \<Longrightarrow>
   stm32x_erase_sectors t s bank i last' =
     (case stm32x_erase_sectors t s bank i (k - 1) of (r, s1, b1) \<Rightarrow>
        if r \<noteq> ERROR_OK then (r, s1, b1) else stm32x_erase_sectors t s1 b1 k last')"
proof (induction "nat (k - i)" arbitrary: i s bank)
  case 0
  then have "i = k" by simp
  then show ?case
    by (subst (2) stm32x_erase_sectors_unfold) simp
next
  case (Suc n)
  then have lt: "i < k" by simp
  then have le: "i \<le> last'" "i \<le> k - 1" using Suc.prems by auto
  obtain r1 s1 b1 where one: "stm32x_erase_one t s bank i = (r1, s1, b1)"
    by (cases "stm32x_erase_one t s bank i") auto
  show ?case
  proof (cases "r1 \<noteq> ERROR_OK")
    case True
    then show ?thesis
      using le one
      by (subst stm32x_erase_sectors_unfold, subst (2) stm32x_erase_sectors_unfold) simp
  next
    case False
    have "n = nat (k - (i + 1))" using Suc.hyps(2) by simp
    from Suc.hyps(1) [OF this, of s1 b1] lt Suc.prems
    have "stm32x_erase_sectors t s1 b1 (i + 1) last' =
     (case stm32x_erase_sectors t s1 b1 (i + 1) (k - 1) of (r, s1, b1) \<Rightarrow>
        if r \<noteq> ERROR_OK then (r, s1, b1) else stm32x_erase_sectors t s1 b1 k last')"
      by simp
    then show ?thesis
      using False le one
      by (subst stm32x_erase_sectors_unfold, subst (2) stm32x_erase_sectors_unfold) simp
  qed
qed

lemma erase_call_not_lock: "erase_call bank c \<Longrightarrow> c \<noteq> lock_call bank"
  by (auto simp: erase_call_def status_call_def sector_erase_call_def is_write_to_def lock_call_def
      stm32x_get_flash_reg_def stm32x_consts)

lemma erase_one_stuck:
  assumes writes: "\<forall>h a v. write_u32_resp t h a v = ERROR_OK"
    and sector: "sector_at bank k = Some sec"
    and stuck: "\<forall>j \<le> 100. \<exists>v.
        read_u32_resp t (calls s @ erase_start bank sec
                           @ replicate j (ReadU32 (stm32x_get_flash_reg bank STM32_FLASH_SR)))
          (stm32x_get_flash_reg bank STM32_FLASH_SR) = (ERROR_OK, v) \<and> v AND FLASH_BSY \<noteq> 0"
  shows "stm32x_erase_one t s bank k =
           (ERROR_FAIL,
            s\<lparr>calls := calls s @ erase_start bank sec
                         @ replicate 101 (ReadU32 (stm32x_get_flash_reg bank STM32_FLASH_SR))\<rparr>,
            bank)"
proof -
  let ?s3 = "s\<lparr>calls := calls s @ erase_start bank sec\<rparr>"
  have "stm32x_wait_status_busy t ?s3 bank 100 =
          (ERROR_FAIL, ?s3\<lparr>calls := calls ?s3 @ replicate (nat 100 + 1)
                                  (ReadU32 (stm32x_get_flash_reg bank STM32_FLASH_SR))\<rparr>)"
    using stuck by (intro wait_status_busy_stuck) simp_all
  then show ?thesis
    using writes sector
    by (simp add: stm32x_erase_one_def target_write_u32_def logged_def erase_start_def)
qed

text \<open>
  C4. An erase of the sectors \<open>first\<close> to \<open>last\<close> (not the full range, target
  halted, register writes succeeding) has erased the sectors before \<open>k\<close>, and the
  status register read after the start of the erase of sector \<open>k\<close> shows the busy
  bit at every one of the 101 reads the retry budget of 100 allows. Then
  \<^verbatim>\<open>stm32x_erase\<close> returns \<^verbatim>\<open>ERROR_FAIL\<close>, the code of the timeout. The last calls it
  made are those 101 reads: no later sector is started. The sector table is the one
  reached before sector \<open>k\<close>: the entries from \<open>k\<close> on, the erased state of sector
  \<open>k\<close> among them, are as they were before the erase. The write of \<^verbatim>\<open>FLASH_LOCK\<close>
  to the control register is not among the calls of the erase: the flash stays
  unlocked.
\<close>

theorem erase_timeout_aborts_range:
  assumes halted: "halted s"
    and part: "\<not> (first = 0 \<and> last' = num_sectors bank - 1)"
    and range: "first \<le> k" "k \<le> last'"
    and writes: "\<forall>h a v. write_u32_resp t h a v = ERROR_OK"
    and before: "stm32x_erase_sectors t (unlocked bank s) bank first (k - 1) = (ERROR_OK, sk, bankk)"
    and sector: "sector_at bankk k = Some sec"
    and stuck: "\<forall>j \<le> 100. \<exists>v.
        read_u32_resp t (calls sk @ erase_start bank sec
                           @ replicate j (ReadU32 (stm32x_get_flash_reg bank STM32_FLASH_SR)))
          (stm32x_get_flash_reg bank STM32_FLASH_SR) = (ERROR_OK, v) \<and> v AND FLASH_BSY \<noteq> 0"
  shows "stm32x_erase t s bank first last' =
           (ERROR_FAIL,
            sk\<lparr>calls := calls sk @ erase_start bank sec
                          @ replicate 101 (ReadU32 (stm32x_get_flash_reg bank STM32_FLASH_SR))\<rparr>,
            bankk)
       \<and> (\<forall>j. k \<le> j \<longrightarrow> sector_at bankk j = sector_at bank j)
       \<and> only_calls (\<lambda>c. c \<noteq> lock_call bank) s
           (sk\<lparr>calls := calls sk @ erase_start bank sec
                          @ replicate 101 (ReadU32 (stm32x_get_flash_reg bank STM32_FLASH_SR))\<rparr>)"
proof -
  let ?R = "ReadU32 (stm32x_get_flash_reg bank STM32_FLASH_SR)"
  let ?final = "sk\<lparr>calls := calls sk @ erase_start bank sec @ replicate 101 ?R\<rparr>"
  from erase_sectors_frame [OF before]
  have chip: "same_chip bank bankk"
    and frame: "\<forall>j. j < first \<or> k - 1 < j \<longrightarrow> sector_at bankk j = sector_at bank j"
    and calls_before: "only_calls (erase_call bank) (unlocked bank s) sk"
    by auto
  have regs: "stm32x_get_flash_reg bankk r = stm32x_get_flash_reg bank r" for r
    using chip by (rule same_chip_regs)
  have start: "erase_start bankk sec = erase_start bank sec"
    using chip by (simp add: erase_start_def regs same_chip_def)
  have one: "stm32x_erase_one t sk bankk k = (ERROR_FAIL, ?final, bankk)"
    using erase_one_stuck [of t bankk k sec sk] writes sector stuck
    by (simp add: regs start)
  have at_k: "stm32x_erase_sectors t sk bankk k last' = (ERROR_FAIL, ?final, bankk)"
    using range one by (subst stm32x_erase_sectors_unfold) simp
  have loop: "stm32x_erase_sectors t (unlocked bank s) bank first last' = (ERROR_FAIL, ?final, bankk)"
    using erase_sectors_split [of first k last' t "unlocked bank s" bank] range before at_k
    by simp
  have np: "(first = 0 \<and> last' = num_sectors bank - 1) = False"
    using part by simp
  have result: "stm32x_erase t s bank first last' = (ERROR_FAIL, ?final, bankk)"
    using halted writes loop
    by (simp add: stm32x_erase_def target_write_u32_def unlocked_def np)
  have untouched: "\<forall>j. k \<le> j \<longrightarrow> sector_at bankk j = sector_at bank j"
    using frame by auto
  have key: "only_calls (\<lambda>c. c \<noteq> lock_call bank) s (unlocked bank s)"
    by (simp add: only_calls_def unlocked_def logged_def lock_call_def
        stm32x_get_flash_reg_def stm32x_consts)
  have mid: "only_calls (\<lambda>c. c \<noteq> lock_call bank) (unlocked bank s) sk"
    by (rule only_calls_mono [OF calls_before]) (rule erase_call_not_lock)
  have tail: "only_calls (\<lambda>c. c \<noteq> lock_call bank) sk ?final"
    by (simp add: only_calls_def erase_start_def lock_call_def list_all_iff
        stm32x_get_flash_reg_def stm32x_consts)
  have "only_calls (\<lambda>c. c \<noteq> lock_call bank) s ?final"
    using key mid tail only_calls_trans by blast
  then show ?thesis
    using result untouched by simp
qed

lemma reg0: "stm32x_get_flash_reg stm32x_bank4 r = r"
  by (simp add: stm32x_get_flash_reg_def stm32x_bank4_def)

lemma base4: "base stm32x_bank4 = 0x08000000"
  by (simp add: stm32x_bank4_def)

lemma before2:
  "stm32x_erase_sectors (busy_after_erase_of 0x08000800) (unlocked stm32x_bank4 start_state)
     stm32x_bank4 1 (2 - 1) = (ERROR_OK, before_sector2, stm32x_bank4_erased1)"
  by (simp add: stm32x_erase_sectors.simps stm32x_wait_status_busy_def stm32x_wait_busy_loop.simps
      stm32x_get_flash_status_def reg0 unlocked_def busy_after_erase_of_def quiet_target_def
      start_state_def before_sector2_def stm32x_bank4_erased1_def target_calls sector_at_def
      stm32x_consts)
     (simp add: stm32x_bank4_def build_sectors_def upt_conv_Cons)

lemma sector2_at: "sector_at stm32x_bank4_erased1 2 = Some sector2"
  by (simp add: sector_at_def stm32x_bank4_erased1_def stm32x_bank4_def build_sectors_def
      upt_conv_Cons sector2_def)

lemma stuck2:
  "\<forall>j \<le> 100. \<exists>v.
      read_u32_resp (busy_after_erase_of 0x08000800)
        (calls before_sector2 @ erase_start stm32x_bank4 sector2
           @ replicate j (ReadU32 (stm32x_get_flash_reg stm32x_bank4 STM32_FLASH_SR)))
        (stm32x_get_flash_reg stm32x_bank4 STM32_FLASH_SR) = (ERROR_OK, v) \<and> v AND FLASH_BSY \<noteq> 0"
  by (simp add: busy_after_erase_of_def quiet_target_def erase_start_def reg0 sector2_def
      base4 FLASH_BSY_def)

theorem erase_timeout_aborts_range_witness:
  "stm32x_erase (busy_after_erase_of 0x08000800) start_state stm32x_bank4 1 3 =
     (ERROR_FAIL,
      before_sector2\<lparr>calls := calls before_sector2 @ erase_start stm32x_bank4 sector2
                         @ replicate 101 (ReadU32 STM32_FLASH_SR)\<rparr>,
      stm32x_bank4_erased1)
   \<and> sector_at stm32x_bank4_erased1 2 = sector_at stm32x_bank4 2
   \<and> sector_at stm32x_bank4_erased1 3 = sector_at stm32x_bank4 3
   \<and> only_calls (\<lambda>c. c \<noteq> lock_call stm32x_bank4) start_state
        (before_sector2\<lparr>calls := calls before_sector2 @ erase_start stm32x_bank4 sector2
                         @ replicate 101 (ReadU32 STM32_FLASH_SR)\<rparr>)"
proof -
  have h: "halted start_state" by (simp add: start_state_def)
  have p: "\<not> ((1::int) = 0 \<and> (3::int) = num_sectors stm32x_bank4 - 1)" by simp
  have r: "(1::int) \<le> 2" "(2::int) \<le> 3" by simp_all
  have w: "\<forall>h a v. write_u32_resp (busy_after_erase_of 0x08000800) h a v = ERROR_OK"
    by (simp add: busy_after_erase_of_def quiet_target_def)
  show ?thesis
    using erase_timeout_aborts_range [OF h p r w before2 sector2_at stuck2]
    by (simp add: reg0)
qed

section \<open>A block write without working areas\<close>

lemma alloc_source_all_fail:
  assumes "\<forall>h sz. fst (alloc_try_resp t h sz) \<noteq> ERROR_OK"
  shows "stm32x_alloc_source t s bank 16384 =
     (Inl ERROR_TARGET_RESOURCE_NOT_AVAILABLE,
      (case write_algorithm (driver_priv bank) of
         Some wa \<Rightarrow> target_free_working_area t
            (s\<lparr>calls := calls s @ map AllocWorkingAreaTry [16384, 8192, 4096, 2048, 1024, 512]\<rparr>) wa
       | None \<Rightarrow> s\<lparr>calls := calls s @ map AllocWorkingAreaTry [16384, 8192, 4096, 2048, 1024, 512]\<rparr>))"
proof -
  have f: "target_alloc_working_area_try t s' sz =
             (Inl (fst (alloc_try_resp t (calls s') sz)), logged s' (AllocWorkingAreaTry sz))" for s' sz
    using assms [rule_format, of "calls s'" sz]
    by (cases "alloc_try_resp t (calls s') sz") (simp add: target_alloc_working_area_try_def)
  show ?thesis
    by (simp add: stm32x_alloc_source.simps [of t _ bank] f logged_def split: option.splits)
qed

lemma write_block_no_area:
  assumes "fst (alloc_resp t (calls s) 40) \<noteq> ERROR_OK"
  shows "stm32x_write_block t s bank buffer offs count =
           Some (ERROR_TARGET_RESOURCE_NOT_AVAILABLE, logged s (AllocWorkingArea 40), bank)"
proof -
  have len: "length stm32x_flash_write_code = 40"
    by (simp add: stm32x_flash_write_code_def)
  show ?thesis
    using assms
    by (cases "alloc_resp t (calls s) 40")
       (simp add: stm32x_write_block_def target_alloc_working_area_def len)
qed

text \<open>
  C7. When the allocation of the routine's working area fails (as it does with an
  allocator that always fails), \<^verbatim>\<open>stm32x_write_block\<close> returns
  \<^verbatim>\<open>ERROR_TARGET_RESOURCE_NOT_AVAILABLE\<close> and the one call it made is that allocation:
  nothing was uploaded to the target. When the routine's area is obtained at \<open>a\<close>, the
  routine is uploaded into it and every allocation of the data buffer fails, the sizes
  16384, 8192, 4096, 2048, 1024 and 512 are tried; the next halving reaches the
  threshold of 256 bytes, the routine's area is freed (the last call; the list of
  allocated areas is the earlier one again) and the function returns
  \<^verbatim>\<open>ERROR_TARGET_RESOURCE_NOT_AVAILABLE\<close>.
\<close>

theorem write_block_without_working_area:
  "(fst (alloc_resp t (calls s) 40) \<noteq> ERROR_OK \<longrightarrow>
      stm32x_write_block t s bank buffer offs count =
        Some (ERROR_TARGET_RESOURCE_NOT_AVAILABLE, logged s (AllocWorkingArea 40), bank))
   \<and> (alloc_resp t (calls s) 40 = (ERROR_OK, a)
        \<and> write_buffer_resp t (calls s @ [AllocWorkingArea 40]) a stm32x_flash_write_code = ERROR_OK
        \<and> (\<forall>h sz. fst (alloc_try_resp t h sz) \<noteq> ERROR_OK) \<longrightarrow>
      stm32x_write_block t s bank buffer offs count =
        Some (ERROR_TARGET_RESOURCE_NOT_AVAILABLE,
              s\<lparr>calls := calls s @ [AllocWorkingArea 40, WriteBuffer a stm32x_flash_write_code]
                             @ map AllocWorkingAreaTry [16384, 8192, 4096, 2048, 1024, 512]
                             @ [FreeWorkingArea \<lparr>wa_address = a, wa_size = 40\<rparr>],
                areas := remove1 \<lparr>wa_address = a, wa_size = 40\<rparr>
                           (areas s @ [\<lparr>wa_address = a, wa_size = 40\<rparr>])\<rparr>,
              bank\<lparr>driver_priv := (driver_priv bank)
                     \<lparr>write_algorithm := Some \<lparr>wa_address = a, wa_size = 40\<rparr>\<rparr>\<rparr>))"
proof (intro conjI impI)
  have len: "length stm32x_flash_write_code = 40"
    by (simp add: stm32x_flash_write_code_def)
  {
    assume "fst (alloc_resp t (calls s) 40) \<noteq> ERROR_OK"
    then show "stm32x_write_block t s bank buffer offs count =
        Some (ERROR_TARGET_RESOURCE_NOT_AVAILABLE, logged s (AllocWorkingArea 40), bank)"
      by (cases "alloc_resp t (calls s) 40")
         (simp add: stm32x_write_block_def target_alloc_working_area_def len)
  }
  {
    assume h: "alloc_resp t (calls s) 40 = (ERROR_OK, a)
        \<and> write_buffer_resp t (calls s @ [AllocWorkingArea 40]) a stm32x_flash_write_code = ERROR_OK
        \<and> (\<forall>h sz. fst (alloc_try_resp t h sz) \<noteq> ERROR_OK)"
    then have tries: "\<forall>h sz. fst (alloc_try_resp t h sz) \<noteq> ERROR_OK" by simp
    show "stm32x_write_block t s bank buffer offs count =
        Some (ERROR_TARGET_RESOURCE_NOT_AVAILABLE,
              s\<lparr>calls := calls s @ [AllocWorkingArea 40, WriteBuffer a stm32x_flash_write_code]
                             @ map AllocWorkingAreaTry [16384, 8192, 4096, 2048, 1024, 512]
                             @ [FreeWorkingArea \<lparr>wa_address = a, wa_size = 40\<rparr>],
                areas := remove1 \<lparr>wa_address = a, wa_size = 40\<rparr>
                           (areas s @ [\<lparr>wa_address = a, wa_size = 40\<rparr>])\<rparr>,
              bank\<lparr>driver_priv := (driver_priv bank)
                     \<lparr>write_algorithm := Some \<lparr>wa_address = a, wa_size = 40\<rparr>\<rparr>\<rparr>)"
      using h
      by (simp add: stm32x_write_block_def target_alloc_working_area_def target_write_buffer_def
          target_free_working_area_def len logged_def alloc_source_all_fail [OF tries])
  }
qed

theorem write_block_without_working_area_witness:
  "stm32x_write_block no_working_area start_state stm32x_bank4 [1, 2, 3, 4] 0 2 =
     Some (ERROR_TARGET_RESOURCE_NOT_AVAILABLE,
           start_state\<lparr>calls := [AllocWorkingArea 40]\<rparr>, stm32x_bank4)
   \<and> stm32x_write_block no_data_area start_state stm32x_bank4 [1, 2, 3, 4] 0 2 =
     Some (ERROR_TARGET_RESOURCE_NOT_AVAILABLE,
           start_state\<lparr>calls :=
             [AllocWorkingArea 40, WriteBuffer 0x20000000 stm32x_flash_write_code,
              AllocWorkingAreaTry 16384, AllocWorkingAreaTry 8192, AllocWorkingAreaTry 4096,
              AllocWorkingAreaTry 2048, AllocWorkingAreaTry 1024, AllocWorkingAreaTry 512,
              FreeWorkingArea routine_area]\<rparr>,
           stm32x_bank4\<lparr>driver_priv := (driver_priv stm32x_bank4)\<lparr>write_algorithm := Some routine_area\<rparr>\<rparr>)"
proof -
  have a: "fst (alloc_resp no_working_area (calls start_state) 40) \<noteq> ERROR_OK"
    by (simp add: no_working_area_def quiet_target_def)
  have b: "alloc_resp no_data_area (calls start_state) 40 = (ERROR_OK, 0x20000000)
        \<and> write_buffer_resp no_data_area (calls start_state @ [AllocWorkingArea 40]) 0x20000000
              stm32x_flash_write_code = ERROR_OK
        \<and> (\<forall>h sz. fst (alloc_try_resp no_data_area h sz) \<noteq> ERROR_OK)"
    by (simp add: no_data_area_def quiet_target_def)
  have 1: "stm32x_write_block no_working_area start_state stm32x_bank4 [1, 2, 3, 4] 0 2 =
     Some (ERROR_TARGET_RESOURCE_NOT_AVAILABLE, logged start_state (AllocWorkingArea 40), stm32x_bank4)"
    using write_block_without_working_area
      [where t = no_working_area and s = start_state and bank = stm32x_bank4
         and buffer = "[1, 2, 3, 4]" and offs = 0 and count = 2] a
    by blast
  have 2: "stm32x_write_block no_data_area start_state stm32x_bank4 [1, 2, 3, 4] 0 2 =
        Some (ERROR_TARGET_RESOURCE_NOT_AVAILABLE,
              start_state\<lparr>calls := calls start_state
                             @ [AllocWorkingArea 40, WriteBuffer 0x20000000 stm32x_flash_write_code]
                             @ map AllocWorkingAreaTry [16384, 8192, 4096, 2048, 1024, 512]
                             @ [FreeWorkingArea \<lparr>wa_address = 0x20000000, wa_size = 40\<rparr>],
                areas := remove1 \<lparr>wa_address = 0x20000000, wa_size = 40\<rparr>
                           (areas start_state @ [\<lparr>wa_address = 0x20000000, wa_size = 40\<rparr>])\<rparr>,
              stm32x_bank4\<lparr>driver_priv := (driver_priv stm32x_bank4)
                     \<lparr>write_algorithm := Some \<lparr>wa_address = 0x20000000, wa_size = 40\<rparr>\<rparr>\<rparr>)"
    using write_block_without_working_area
      [where t = no_data_area and s = start_state and bank = stm32x_bank4
         and buffer = "[1, 2, 3, 4]" and offs = 0 and count = 2 and a = "0x20000000"] b
    by blast
  show ?thesis
    unfolding 1 2 by (simp add: logged_def start_state_def routine_area_def)
qed

section \<open>The protection check\<close>

lemma protect_run_result:
  assumes "0 \<le> first + s" and "first + n \<le> int (length secs)"
  shows "\<exists>secs'. protect_run secs set' first s n = Some secs'
           \<and> length secs' = length secs
           \<and> (\<forall>j < length secs. secs' ! j =
                 (if first + s \<le> int j \<and> int j < first + n
                  then (secs ! j)\<lparr>is_protected := set'\<rparr> else secs ! j))"
  using assms
proof (induction "nat (n - s)" arbitrary: s secs)
  case 0
  then have "\<not> s < n" by simp
  then show ?case
    by (subst protect_run.simps) auto
next
  case (Suc m)
  then have lt: "s < n" by simp
  let ?k = "nat (first + s)"
  let ?secs1 = "secs[?k := (secs ! ?k)\<lparr>is_protected := set'\<rparr>]"
  have k: "?k < length secs" "int ?k = first + s"
    using Suc.prems lt by auto
  have m: "m = nat (n - (s + 1))" using Suc.hyps(2) by simp
  have "\<exists>secs'. protect_run ?secs1 set' first (s + 1) n = Some secs'
           \<and> length secs' = length ?secs1
           \<and> (\<forall>j < length ?secs1. secs' ! j =
                 (if first + (s + 1) \<le> int j \<and> int j < first + n
                  then (?secs1 ! j)\<lparr>is_protected := set'\<rparr> else ?secs1 ! j))"
    using Suc.prems by (intro Suc.hyps(1) [OF m]) auto
  then obtain secs' where r: "protect_run ?secs1 set' first (s + 1) n = Some secs'"
    "length secs' = length secs"
    "\<forall>j < length secs. secs' ! j =
                 (if first + (s + 1) \<le> int j \<and> int j < first + n
                  then (?secs1 ! j)\<lparr>is_protected := set'\<rparr> else ?secs1 ! j)"
    by auto
  have run: "protect_run secs set' first s n = Some secs'"
    using lt k Suc.prems r(1) by (subst protect_run.simps) simp
  have "secs' ! j = (if first + s \<le> int j \<and> int j < first + n
                  then (secs ! j)\<lparr>is_protected := set'\<rparr> else secs ! j)"
    if "j < length secs" for j
  proof (cases "j = ?k")
    case True
    then show ?thesis using r(3) that k lt by simp
  next
    case False
    then have "int j \<noteq> first + s" using k by linarith
    then show ?thesis using r(3) that False by (auto simp: nth_list_update)
  qed
  then show ?case using run r(2) by simp
qed

lemma group_index:
  assumes "0 < (pp :: int)" and "i * pp \<le> j" and "j < i * pp + pp"
  shows "j div pp = i"
proof -
  define r where "r = j - i * pp"
  have r: "0 \<le> r" "r < pp" "j = r + i * pp"
    using assms by (simp_all add: r_def)
  have "(r + i * pp) div pp = i + r div pp"
    using assms(1) by (simp add: div_mult_self1)
  moreover have "r div pp = 0"
    using r by (simp add: div_pos_pos_trivial)
  ultimately show ?thesis using r(3) by simp
qed

lemma protect_bits_result:
  assumes "0 < pp" and "0 \<le> i" and "num_bits \<le> 32" and "num_bits * pp \<le> int (length secs)"
  shows "\<exists>secs'. protect_bits secs protection pp num_bits i = Some secs'
           \<and> length secs' = length secs
           \<and> (\<forall>j < length secs. secs' ! j =
                 (if i * pp \<le> int j \<and> int j < num_bits * pp
                  then (secs ! j)\<lparr>is_protected := prot_flag protection (int j div pp)\<rparr>
                  else secs ! j))"
  using assms
proof (induction "nat (num_bits - i)" arbitrary: i secs)
  case 0
  then have ge: "\<not> i < num_bits" by simp
  then have "num_bits * pp \<le> i * pp" using \<open>0 < pp\<close> by (simp add: mult_right_mono)
  then show ?case
    using ge by (subst protect_bits.simps) auto
next
  case (Suc m)
  then have lt: "i < num_bits" by simp
  then have i32: "\<not> (i < 0 \<or> 32 \<le> i)" using Suc.prems by simp
  have "(i + 1) * pp \<le> num_bits * pp"
    using lt \<open>0 < pp\<close> by (intro mult_right_mono) simp_all
  then have fit: "i * pp + pp \<le> int (length secs)"
    using Suc.prems(4) by (simp add: algebra_simps)
  have nn: "0 \<le> i * pp + 0" using Suc.prems by simp
  from protect_run_result [OF nn fit, of "prot_flag protection i"]
  obtain secs1 where r1: "protect_run secs (prot_flag protection i) (i * pp) 0 pp = Some secs1"
    "length secs1 = length secs"
    "\<forall>j < length secs. secs1 ! j =
        (if i * pp + 0 \<le> int j \<and> int j < i * pp + pp
         then (secs ! j)\<lparr>is_protected := prot_flag protection i\<rparr> else secs ! j)"
    by auto
  have m: "m = nat (num_bits - (i + 1))" using Suc.hyps(2) by simp
  have "\<exists>secs'. protect_bits secs1 protection pp num_bits (i + 1) = Some secs'
           \<and> length secs' = length secs1
           \<and> (\<forall>j < length secs1. secs' ! j =
                 (if (i + 1) * pp \<le> int j \<and> int j < num_bits * pp
                  then (secs1 ! j)\<lparr>is_protected := prot_flag protection (int j div pp)\<rparr>
                  else secs1 ! j))"
    using Suc.prems r1(2) by (intro Suc.hyps(1) [OF m]) auto
  then obtain secs' where r2: "protect_bits secs1 protection pp num_bits (i + 1) = Some secs'"
    "length secs' = length secs"
    "\<forall>j < length secs. secs' ! j =
                 (if (i + 1) * pp \<le> int j \<and> int j < num_bits * pp
                  then (secs1 ! j)\<lparr>is_protected := prot_flag protection (int j div pp)\<rparr>
                  else secs1 ! j)"
    using r1(2) by auto
  have bits: "protect_bits secs protection pp num_bits i = Some secs'"
    using lt i32 r1(1) r2(1)
    by (subst protect_bits.simps) (simp add: prot_flag_def Let_def)
  have "secs' ! j = (if i * pp \<le> int j \<and> int j < num_bits * pp
                  then (secs ! j)\<lparr>is_protected := prot_flag protection (int j div pp)\<rparr>
                  else secs ! j)"
    if j: "j < length secs" for j
  proof (cases "i * pp \<le> int j \<and> int j < i * pp + pp")
    case True
    then have "int j div pp = i" using \<open>0 < pp\<close> by (intro group_index) simp_all
    moreover have "int j < num_bits * pp"
      using True \<open>(i + 1) * pp \<le> num_bits * pp\<close> by (simp add: algebra_simps)
    moreover have "\<not> (i + 1) * pp \<le> int j" using True by (simp add: algebra_simps)
    ultimately show ?thesis using r1(3) r2(3) j True by simp
  next
    case False
    have "secs1 ! j =
        (if i * pp + 0 \<le> int j \<and> int j < i * pp + pp
         then (secs ! j)\<lparr>is_protected := prot_flag protection i\<rparr> else secs ! j)"
      using r1(3) j by blast
    then have same: "secs1 ! j = secs ! j" using False by (auto split: if_splits)
    have "((i + 1) * pp \<le> int j) = (i * pp \<le> int j)"
      using False \<open>0 < pp\<close> by (auto simp: algebra_simps)
    then show ?thesis using r2(3) j same by simp
  qed
  then show ?case using bits r2(2) by simp
qed

lemma prot_flag_bit:
  "prot_flag protection (int b) = (if bit protection b then 0 else 1)"
proof -
  have "push_bit b (1 :: u32) = 2 ^ b" by (simp add: push_bit_of_1)
  then show ?thesis
    by (simp add: prot_flag_def and_exp_eq_0_iff_not_bit)
qed

lemma c_div_nat: "c_div (int a) (int b) = int (a div b)"
  by (simp add: c_div_def zdiv_int sgn_if)

lemma protect_check_flags:
  assumes halted: "halted s"
    and bank0: "register_offset (driver_priv bank) = FLASH_OFFSET_B0"
    and ppage: "ppage_size (driver_priv bank) = int q" "0 < q" "q \<noteq> 2"
    and count: "num_sectors bank = int (length (sectors bank))"
    and bits: "length (sectors bank) div q \<le> 32"
    and wrpr: "read_u32_resp t (calls s) STM32_FLASH_WRPR = (ERROR_OK, protection)"
  shows "stm32x_protect_check t s bank =
           (ERROR_OK, logged s (ReadU32 STM32_FLASH_WRPR),
            bank\<lparr>sectors := protection_flags protection q (sectors bank)\<rparr>)"
proof -
  let ?n = "length (sectors bank)"
  let ?nb = "int (?n div q)"
  have nb: "c_div (num_sectors bank) (int q) = ?nb"
    by (simp add: count c_div_nat)
  have fit: "?nb * int q \<le> int ?n"
  proof -
    have "(?n div q) * q \<le> ?n" by simp
    then have "int ((?n div q) * q) \<le> int ?n" by (rule iffD2 [OF of_nat_le_iff])
    then show ?thesis by simp
  qed
  from protect_bits_result [of "int q" 0 ?nb "sectors bank" protection] ppage bits fit
  obtain secs' where r: "protect_bits (sectors bank) protection (int q) ?nb 0 = Some secs'"
    "length secs' = ?n"
    "\<forall>j < ?n. secs' ! j =
        (if 0 * int q \<le> int j \<and> int j < ?nb * int q
         then (sectors bank ! j)\<lparr>is_protected := prot_flag protection (int j div int q)\<rparr>
         else sectors bank ! j)"
    by auto
  have "secs' = protection_flags protection q (sectors bank)"
  proof (rule nth_equalityI)
    show "length secs' = length (protection_flags protection q (sectors bank))"
      using r(2) by (simp add: protection_flags_def)
  next
    fix j assume "j < length secs'"
    then have j: "j < ?n" using r(2) by simp
    have c: "(int j < ?nb * int q) = (j < (?n div q) * q)"
      by (metis of_nat_less_iff of_nat_mult)
    have d: "int j div int q = int (j div q)"
      by (simp add: zdiv_int)
    show "secs' ! j = protection_flags protection q (sectors bank) ! j"
      using r(3) j by (simp add: protection_flags_def c d prot_flag_bit)
  qed
  then show ?thesis
    using halted bank0 ppage wrpr r(1)
    by (simp add: stm32x_protect_check_def stm32x_check_operation_supported_def
        target_read_u32_def nb Let_def)
qed

lemma bit_fffffffe: "bit (0xFFFFFFFE :: u32) n = (0 < n \<and> n < 32)"
proof -
  have "(0xFFFFFFFE :: u32) = - 2" by simp
  then show ?thesis
    by (simp only: bit_minus_2_iff) (auto simp: possible_bit_word)
qed

lemma flags_fffffffe:
  assumes "length secs = 128"
  shows "map is_protected (protection_flags 0xFFFFFFFE 4 secs) = replicate 4 1 @ replicate 124 0"
proof (rule nth_equalityI)
  show "length (map is_protected (protection_flags 0xFFFFFFFE 4 secs))
          = length (replicate 4 1 @ replicate 124 (0::int))"
    using assms by (simp add: protection_flags_def)
next
  fix j assume "j < length (map is_protected (protection_flags 0xFFFFFFFE 4 secs))"
  then have j: "j < 128" using assms by (simp add: protection_flags_def)
  then have d: "j div 4 < 32" by simp
  have z: "(0 < j div 4) = (4 \<le> j)" by (simp add: div_greater_zero_iff)
  have b: "bit (0xFFFFFFFE :: u32) (j div 4) = (4 \<le> j)"
    by (simp only: bit_fffffffe d z) simp
  show "map is_protected (protection_flags 0xFFFFFFFE 4 secs) ! j
          = (replicate 4 1 @ replicate 124 0) ! j"
    using j assms
    by (simp add: protection_flags_def b nth_append del: bit_numeral_word_iff)
qed

lemma protect_check_scenario:
  "stm32x_protect_check wrpr_fffffffe start_state stm32x_bank128 =
     (ERROR_OK, start_state\<lparr>calls := [ReadU32 STM32_FLASH_WRPR]\<rparr>,
      stm32x_bank128\<lparr>sectors := protection_flags 0xFFFFFFFE 4 (sectors stm32x_bank128)\<rparr>)"
proof -
  have "stm32x_protect_check wrpr_fffffffe start_state stm32x_bank128 =
     (ERROR_OK, logged start_state (ReadU32 STM32_FLASH_WRPR),
      stm32x_bank128\<lparr>sectors := protection_flags 0xFFFFFFFE 4 (sectors stm32x_bank128)\<rparr>)"
    by (rule protect_check_flags)
       (simp_all add: start_state_def stm32x_bank128_def FLASH_OFFSET_B0_def wrpr_fffffffe_def
          quiet_target_def length_build_sectors)
  then show ?thesis by (simp add: logged_def start_state_def)
qed

text \<open>
  C3, the claim as it stands fails: it has the sense of the bits reversed. For the
  medium density bank of 128 sectors (pages of 1024 bytes, 4 sectors for each bit)
  and the register value \<^verbatim>\<open>0xFFFFFFFE\<close>, \<^verbatim>\<open>stm32x_protect_check\<close> leaves the sectors
  0 to 3 protected (flag 1) and the sectors 4 to 127 not protected (flag 0).
\<close>

theorem protect_check_counterexample:
  "(case stm32x_protect_check wrpr_fffffffe start_state stm32x_bank128 of
      (retval, s, bank) \<Rightarrow> (retval, map is_protected (sectors bank)))
   = (ERROR_OK, replicate 4 1 @ replicate 124 0)"
proof -
  have "length (sectors stm32x_bank128) = 128"
    by (simp add: stm32x_bank128_def length_build_sectors)
  then show ?thesis
    by (simp add: protect_check_scenario flags_fffffffe)
qed

text \<open>
  C3, amended. On a halted target, for a bank on the primary register offset whose
  profile has \<open>q\<close> sectors for each protection bit (\<open>q\<close> not 2, at most 32 groups) and
  whose protection register reads \<open>protection\<close>, \<^verbatim>\<open>stm32x_protect_check\<close> succeeds
  with the one register read and sets the flags as \<open>protection_flags\<close> says: bit
  \<open>i\<close> governs the sectors \<open>i * q\<close> up to \<open>(i + 1) * q\<close>, a clear bit means protected
  and a set bit means not protected. So for 128 sectors, \<open>q = 4\<close> and the value
  \<^verbatim>\<open>0xFFFFFFFE\<close> (bit 0 clear) the sectors 0 to 3 are protected and the sectors 4 to
  127 are not.
\<close>

theorem protect_check_reads_bitmap:
  assumes "halted s"
    and "register_offset (driver_priv bank) = FLASH_OFFSET_B0"
    and "ppage_size (driver_priv bank) = int q" and "0 < q" and "q \<noteq> 2"
    and "num_sectors bank = int (length (sectors bank))"
    and "length (sectors bank) div q \<le> 32"
    and "read_u32_resp t (calls s) STM32_FLASH_WRPR = (ERROR_OK, protection)"
  shows "stm32x_protect_check t s bank =
           (ERROR_OK, logged s (ReadU32 STM32_FLASH_WRPR),
            bank\<lparr>sectors := protection_flags protection q (sectors bank)\<rparr>)
       \<and> (protection = 0xFFFFFFFE \<and> q = 4 \<and> length (sectors bank) = 128 \<longrightarrow>
            map is_protected (protection_flags protection q (sectors bank))
              = replicate 4 1 @ replicate 124 0)"
  using protect_check_flags [OF assms] flags_fffffffe by blast

theorem protect_check_reads_bitmap_witness:
  "stm32x_protect_check wrpr_fffffffe start_state stm32x_bank128 =
     (ERROR_OK, start_state\<lparr>calls := [ReadU32 STM32_FLASH_WRPR]\<rparr>,
      stm32x_bank128\<lparr>sectors := protection_flags 0xFFFFFFFE 4 (sectors stm32x_bank128)\<rparr>)
   \<and> map is_protected (protection_flags 0xFFFFFFFE 4 (sectors stm32x_bank128))
       = replicate 4 1 @ replicate 124 0"
proof -
  have h: "halted start_state"
    "register_offset (driver_priv stm32x_bank128) = FLASH_OFFSET_B0"
    "ppage_size (driver_priv stm32x_bank128) = int 4" "0 < (4::nat)" "(4::nat) \<noteq> 2"
    "num_sectors stm32x_bank128 = int (length (sectors stm32x_bank128))"
    "length (sectors stm32x_bank128) div 4 \<le> 32"
    "read_u32_resp wrpr_fffffffe (calls start_state) STM32_FLASH_WRPR = (ERROR_OK, 0xFFFFFFFE)"
    by (simp_all add: start_state_def stm32x_bank128_def FLASH_OFFSET_B0_def wrpr_fffffffe_def
          quiet_target_def length_build_sectors)
  have l: "length (sectors stm32x_bank128) = 128"
    by (simp add: stm32x_bank128_def length_build_sectors)
  show ?thesis
    using protect_check_reads_bitmap [OF h] l
    by (simp add: logged_def start_state_def)
qed

section \<open>Writing an odd number of bytes\<close>

lemma unlocked_calls: "unlocked bank s = s\<lparr>calls := calls s @ unlock_calls bank\<rparr>"
  by (simp add: unlocked_def unlock_calls_def logged_def)

lemma wait_status_busy_idle:
  assumes "flash_idle t bank"
  shows "stm32x_wait_status_busy t s bank timeout =
           (ERROR_OK, logged s (ReadU32 (stm32x_get_flash_reg bank STM32_FLASH_SR)))"
proof -
  from assms obtain v where
    v: "read_u32_resp t (calls s) (stm32x_get_flash_reg bank STM32_FLASH_SR) = (ERROR_OK, v)"
      "v AND FLASH_BSY = 0" "v AND FLASH_WRPRTERR = 0" "v AND FLASH_PGERR = 0"
    unfolding flash_idle_def by blast
  have "v AND (FLASH_WRPRTERR OR FLASH_PGERR) = 0"
    using v(3,4) by (simp add: bit.conj_disj_distrib)
  then show ?thesis
    using v
    by (simp add: stm32x_wait_status_busy_def stm32x_wait_busy_loop.simps [of t s]
        stm32x_get_flash_status_def target_read_u32_def)
qed

lemma write_words_step:
  assumes wr32: "\<forall>h a v. write_u32_resp t h a v = ERROR_OK"
    and wr16: "\<forall>h a v. write_u16_resp t h a v = ERROR_OK"
    and idle: "flash_idle t bank"
    and pos: "0 < w"
    and fits: "unat bw + 2 \<le> length buffer"
  shows "stm32x_write_words t s bank buffer a w bw =
           stm32x_write_words t
             (s\<lparr>calls := calls s @
                [WriteU32 (stm32x_get_flash_reg bank STM32_FLASH_CR) FLASH_PG,
                 WriteU16 a (halfword (buffer ! unat bw) (buffer ! (unat bw + 1))),
                 ReadU32 (stm32x_get_flash_reg bank STM32_FLASH_SR)]\<rparr>)
             bank buffer (a + 2) (w - 1) (bw + 2)"
proof -
  have nf: "\<not> length buffer < unat bw + 2" using fits by simp
  show ?thesis
    using pos nf wr32 wr16
    by (subst stm32x_write_words.simps)
       (simp add: target_write_u32_def target_write_u16_def wait_status_busy_idle [OF idle]
          logged_def Let_def)
qed

lemma write_words_healthy:
  assumes wr32: "\<forall>h a v. write_u32_resp t h a v = ERROR_OK"
    and wr16: "\<forall>h a v. write_u16_resp t h a v = ERROR_OK"
    and idle: "flash_idle t bank"
    and len: "2 * (k + unat w) \<le> length buffer" "length buffer < 2 ^ 32"
  shows "stm32x_write_words t s bank buffer (a0 + 2 * of_nat k) w (2 * of_nat k) =
           (ERROR_OK,
            s\<lparr>calls := calls s @ concat (map (unit_write bank a0 buffer) [k..<k + unat w])\<rparr>,
            a0 + 2 * of_nat (k + unat w), 2 * of_nat (k + unat w))"
  using len
proof (induction "unat w" arbitrary: w k s)
  case 0
  then have "w = 0" by (simp add: unat_eq_0)
  then show ?case
    by (subst stm32x_write_words.simps) simp
next
  case (Suc n)
  then have pos: "0 < w" by (simp add: word_greater_zero_iff unat_gt_0 [symmetric])
  have n: "n = unat (w - 1)"
    using Suc.hyps(2) pos by (simp add: unat_minus_one word_greater_zero_iff)
  have le: "2 * k + 2 \<le> length buffer" using Suc.prems Suc.hyps(2) by simp
  then have small: "2 * k + 2 < 2 ^ 32" using Suc.prems by simp
  have bw: "unat (2 * of_nat k :: u32) = 2 * k"
    using small by (simp add: unat_word_ariths unat_of_nat take_bit_nat_eq_self)
  have fits: "unat (2 * of_nat k :: u32) + 2 \<le> length buffer"
    using bw le by simp
  let ?s1 = "s\<lparr>calls := calls s @ unit_write bank a0 buffer k\<rparr>"
  have idx: "Suc k + unat (w - 1) = k + unat w"
    using n Suc.hyps(2) by simp
  have ih: "stm32x_write_words t ?s1 bank buffer (a0 + 2 * of_nat (Suc k)) (w - 1) (2 * of_nat (Suc k)) =
           (ERROR_OK,
            ?s1\<lparr>calls := calls ?s1 @ concat (map (unit_write bank a0 buffer) [Suc k..<Suc k + unat (w - 1)])\<rparr>,
            a0 + 2 * of_nat (Suc k + unat (w - 1)), 2 * of_nat (Suc k + unat (w - 1)))"
    using Suc.prems idx by (intro Suc.hyps(1) [OF n]) simp_all
  have upt: "[k..<k + unat w] = k # [Suc k..<k + unat w]"
    using Suc.hyps(2) by (simp add: upt_conv_Cons)
  have a: "a0 + 2 * of_nat k + 2 = a0 + 2 * of_nat (Suc k)"
    and b: "(2 * of_nat k :: u32) + 2 = 2 * of_nat (Suc k)"
    by simp_all
  have s1: "s\<lparr>calls := calls s @
                [WriteU32 (stm32x_get_flash_reg bank STM32_FLASH_CR) FLASH_PG,
                 WriteU16 (a0 + 2 * of_nat k)
                   (halfword (buffer ! unat (2 * of_nat k :: u32)) (buffer ! (unat (2 * of_nat k :: u32) + 1))),
                 ReadU32 (stm32x_get_flash_reg bank STM32_FLASH_SR)]\<rparr> = ?s1"
    by (simp only: bw unit_write_def)
  have "stm32x_write_words t s bank buffer (a0 + 2 * of_nat k) w (2 * of_nat k) =
          stm32x_write_words t ?s1 bank buffer (a0 + 2 * of_nat (Suc k)) (w - 1) (2 * of_nat (Suc k))"
    using write_words_step [OF wr32 wr16 idle pos fits, of s "a0 + 2 * of_nat k"]
    by (simp only: s1 a b)
  also have "\<dots> = (ERROR_OK,
            ?s1\<lparr>calls := calls ?s1 @ concat (map (unit_write bank a0 buffer) [Suc k..<Suc k + unat (w - 1)])\<rparr>,
            a0 + 2 * of_nat (Suc k + unat (w - 1)), 2 * of_nat (Suc k + unat (w - 1)))"
    by (rule ih)
  also have "\<dots> = (ERROR_OK,
            s\<lparr>calls := calls s @ concat (map (unit_write bank a0 buffer) [k..<k + unat w])\<rparr>,
            a0 + 2 * of_nat (k + unat w), 2 * of_nat (k + unat w))"
    by (simp only: idx upt) simp
  finally show ?case .
qed

lemma odd_count:
  assumes "count AND 0x00000001 \<noteq> (0 :: u32)"
  shows "unat count = 2 * unat (count div 2) + 1"
proof -
  have "odd count"
    using assms by (simp add: and_one_eq mod_2_eq_odd)
  moreover have "odd (unat count) = odd count"
    by (simp flip: bit_0 add: bit_unsigned_iff)
  ultimately have "odd (unat count)"
    by simp
  moreover have "unat (count div 2) = unat count div 2"
    by (simp add: unat_div)
  ultimately show ?thesis
    by (simp add: odd_two_times_div_two_succ)
qed

lemma write_block_bank:
  assumes "stm32x_write_block t s bank buffer offs count = Some (r, s', bank')"
  shows "stm32x_get_flash_reg bank' = stm32x_get_flash_reg bank"
  using assms
  by (auto simp: stm32x_write_block_def Let_def stm32x_get_flash_reg_def fun_eq_iff
      split: prod.splits sum.splits if_splits option.splits)

lemma write_after_block:
  assumes halted: "halted s"
    and even: "offs AND 0x1 = 0"
    and odd: "count AND 0x00000001 \<noteq> 0"
    and len: "length buffer = unat count"
    and wr32: "\<forall>h a v. write_u32_resp t h a v = ERROR_OK"
    and wr16: "\<forall>h a v. write_u16_resp t h a v = ERROR_OK"
    and idle: "flash_idle t bank"
    and pos: "0 < count div 2"
    and block: "stm32x_write_block t (s\<lparr>calls := calls s @ unlock_calls bank\<rparr>) bank buffer offs
                  (count div 2) = Some (ERROR_OK, sb, bankb)"
  shows "stm32x_write t s bank buffer offs count =
           Some (ERROR_OK,
                 sb\<lparr>calls := calls sb @
                   [WriteU32 (stm32x_get_flash_reg bank STM32_FLASH_CR) FLASH_PG,
                    WriteU16 (base bank + offs + 2 * (count div 2)) (halfword (last buffer) 0xff),
                    ReadU32 (stm32x_get_flash_reg bank STM32_FLASH_SR),
                    WriteU32 STM32_FLASH_CR FLASH_LOCK]\<rparr>,
                 bankb)"
proof -
  let ?w = "count div 2"
  let ?n = "unat ?w"
  have cnt: "unat count = 2 * ?n + 1" using odd by (rule odd_count)
  have lenb: "length buffer = 2 * ?n + 1" using len cnt by simp
  have small: "length buffer < 2 ^ 32"
    using len unsigned_less [of count, where ?'a = nat] by simp
  have bw: "unat (2 * ?w) = 2 * ?n"
    using lenb small by (simp add: unat_word_ariths)
  have regs: "stm32x_get_flash_reg bankb r = stm32x_get_flash_reg bank r" for r
    using write_block_bank [OF block] by simp
  have idleb: "flash_idle t bankb"
    using idle by (simp add: flash_idle_def regs)
  have lastb: "last buffer = buffer ! (2 * ?n)"
  proof -
    have "buffer \<noteq> []" using lenb by auto
    then have "last buffer = buffer ! (length buffer - 1)" by (rule last_conv_nth)
    then show ?thesis using lenb by simp
  qed
  have nowords: "stm32x_write_words t sb bankb (drop (2 * ?n) buffer) a 0 0 = (ERROR_OK, sb, a, 0)" for a
    by (subst stm32x_write_words.simps) simp
  have odd': "(count AND 1 = 0) = False" using odd by simp
  have even': "(offs AND 1 = 0) = True" using even by simp
  have block': "stm32x_write_block t
           (s\<lparr>calls := calls s @
              [WriteU32 (stm32x_get_flash_reg bank STM32_FLASH_KEYR) KEY1,
               WriteU32 (stm32x_get_flash_reg bank STM32_FLASH_KEYR) KEY2]\<rparr>)
           bank buffer offs ?w = Some (ERROR_OK, sb, bankb)"
    using block by (simp add: unlock_calls_def)
  show ?thesis
    using halted wr32 wr16 pos block' lenb
    by (simp add: stm32x_write_def Let_def target_write_u32_def target_write_u16_def
        wait_status_busy_idle [OF idleb] logged_def odd' even' bw nowords regs lastb
        mult.commute [of _ "2 :: u32"])
qed

text \<open>
  The data area that the search ends with has more than 256 bytes, so every pass of
  the loop of the block write hands at least one half word to the routine: the loop
  ends, and \<^verbatim>\<open>stm32x_write_block\<close> returns on every input.
\<close>

lemma alloc_source_size:
  assumes "stm32x_alloc_source t s bank buffer_size = (Inr (source, sz), s')"
    and "256 < buffer_size"
  shows "256 < sz"
  using assms
proof (induction t s bank buffer_size arbitrary: s' rule: stm32x_alloc_source.induct)
  case (1 t s bank buffer_size)
  show ?case
  proof (cases "target_alloc_working_area_try t s buffer_size")
    case (Pair a s1)
    show ?thesis
    proof (cases a)
      case (Inr src)
      then show ?thesis
        using "1.prems" Pair by (subst (asm) stm32x_alloc_source.simps) auto
    next
      case (Inl e)
      show ?thesis
      proof (cases "buffer_size div 2 \<le> 256")
        case True
        then show ?thesis
          using "1.prems" Pair Inl by (subst (asm) stm32x_alloc_source.simps) auto
      next
        case False
        then have big: "256 < buffer_size div 2"
          by simp
        have "stm32x_alloc_source t s1 bank (buffer_size div 2) = (Inr (source, sz), s')"
          using "1.prems" Pair Inl False
          by (subst (asm) stm32x_alloc_source.simps) simp
        from "1.IH" [OF Pair [symmetric] Inl False this big]
        show ?thesis .
      qed
    qed
  qed
qed

lemma write_block_loop_returns:
  assumes "2 \<le> buffer_size"
  shows "\<exists>y. stm32x_write_block_loop t s source algorithm reg_offset buffer_size retval buffer
           address count = Some y"
proof (induction "unat count" arbitrary: count s retval buffer address rule: less_induct)
  case less
  show ?case
  proof (cases "0 < count")
    case False
    then show ?thesis
      by (subst stm32x_write_block_loop.simps) simp
  next
    case True
    define n where "n = (if buffer_size div 2 < count then buffer_size div 2 else count)"
    have "0 < buffer_size div 2"
      using assms by (simp add: word_greater_zero_iff div_word_self word_le_nat_alt unat_div unat_eq_0 [symmetric])
    then have n: "0 < n" "n \<le> count"
      using True by (auto simp: n_def)
    then have "unat (count - n) < unat count"
      by (simp add: unat_sub word_greater_zero_iff unat_gt_0 [symmetric] word_le_nat_alt)
    note ih = less [OF this]
    show ?thesis
      using True ih
      by (subst stm32x_write_block_loop.simps)
         (auto simp: Let_def n_def [symmetric] split: prod.splits)
  qed
qed

lemma write_block_returns:
  "\<exists>r s' bank'. stm32x_write_block t s bank buffer offs count = Some (r, s', bank')"
proof (cases "target_alloc_working_area t s (of_nat (length stm32x_flash_write_code))")
  case (Pair a s1)
  show ?thesis
  proof (cases a)
    case (Inl e)
    then show ?thesis
      using Pair by (simp add: stm32x_write_block_def)
  next
    case (Inr alg)
    define bank1 where
      "bank1 = bank\<lparr>driver_priv := (driver_priv bank)\<lparr>write_algorithm := Some alg\<rparr>\<rparr>"
    obtain r2 s2 where up: "target_write_buffer t s1 (wa_address alg) stm32x_flash_write_code = (r2, s2)"
      by (cases "target_write_buffer t s1 (wa_address alg) stm32x_flash_write_code")
    obtain res s3 where al: "stm32x_alloc_source t s2 bank1 16384 = (res, s3)"
      by (cases "stm32x_alloc_source t s2 bank1 16384")
    show ?thesis
    proof (cases res)
      case (Inl e)
      then show ?thesis
        using Pair \<open>a = Inr alg\<close> up al
        by (simp add: stm32x_write_block_def bank1_def [symmetric])
    next
      case (Inr p)
      obtain source sz where p: "p = (source, sz)"
        by (cases p)
      have "256 < sz"
        using alloc_source_size [of t s2 bank1 16384 source sz s3] al Inr p by simp
      then have "2 \<le> sz"
        by (simp add: word_le_nat_alt word_less_nat_alt)
      then obtain y where "stm32x_write_block_loop t s3 source alg
          (register_offset (driver_priv bank1)) sz r2 buffer (base bank + offs) count = Some y"
        using write_block_loop_returns by blast
      then show ?thesis
        using Pair \<open>a = Inr alg\<close> up al Inr p
        by (cases y) (auto simp: stm32x_write_block_def bank1_def [symmetric])
    qed
  qed
qed

text \<open>
  \<^verbatim>\<open>stm32x_write\<close> of an odd number of bytes on a target that answers every write
  with \<^verbatim>\<open>ERROR_OK\<close> and never shows busy or an error: a single byte, a block write
  that reports that there is no working area, and a block write that fails otherwise.
\<close>

lemma write_single_byte:
  assumes halted: "halted s"
    and even: "offs AND 0x1 = 0"
    and odd: "count AND 0x00000001 \<noteq> 0"
    and len: "length buffer = unat count"
    and wr32: "\<forall>h a v. write_u32_resp t h a v = ERROR_OK"
    and wr16: "\<forall>h a v. write_u16_resp t h a v = ERROR_OK"
    and idle: "flash_idle t bank"
    and none: "\<not> 0 < count div 2"
  shows "stm32x_write t s bank buffer offs count =
           Some (ERROR_OK,
                 (unlocked bank s)\<lparr>calls := calls (unlocked bank s) @
                   [WriteU32 (stm32x_get_flash_reg bank STM32_FLASH_CR) FLASH_PG,
                    WriteU16 (base bank + offs + 2 * (count div 2)) (halfword (last buffer) 0xff),
                    ReadU32 (stm32x_get_flash_reg bank STM32_FLASH_SR),
                    WriteU32 STM32_FLASH_CR FLASH_LOCK]\<rparr>,
                 bank)"
proof -
  have w0: "count div 2 = 0" using none by (simp add: word_greater_zero_iff)
  have cnt: "unat count = 2 * unat (count div 2) + 1" using odd by (rule odd_count)
  then have lenb: "length buffer = 1" using len w0 by simp
  then have lastb: "last buffer = buffer ! 0"
    by (cases buffer) simp_all
  have nowords: "stm32x_write_words t s' bank buffer a 0 0 = (ERROR_OK, s', a, 0)" for a s'
    by (subst stm32x_write_words.simps) simp
  have odd': "(count AND 1 = 0) = False" using odd by simp
  have even': "(offs AND 1 = 0) = True" using even by simp
  show ?thesis
    using halted wr32 wr16 lenb
    by (simp add: stm32x_write_def Let_def target_write_u32_def target_write_u16_def
        wait_status_busy_idle [OF idle] logged_def unlocked_calls unlock_calls_def odd' even'
        w0 nowords lastb)
qed

lemma write_block_unavailable:
  assumes halted: "halted s"
    and even: "offs AND 0x1 = 0"
    and odd: "count AND 0x00000001 \<noteq> 0"
    and len: "length buffer = unat count"
    and wr32: "\<forall>h a v. write_u32_resp t h a v = ERROR_OK"
    and wr16: "\<forall>h a v. write_u16_resp t h a v = ERROR_OK"
    and idle: "flash_idle t bank"
    and pos: "0 < count div 2"
    and block: "stm32x_write_block t (s\<lparr>calls := calls s @ unlock_calls bank\<rparr>) bank buffer offs
                  (count div 2) = Some (ERROR_TARGET_RESOURCE_NOT_AVAILABLE, sb, bankb)"
  shows "stm32x_write t s bank buffer offs count =
           Some (ERROR_OK,
                 sb\<lparr>calls := calls sb
                   @ concat (map (unit_write bank (base bank + offs) buffer)
                               [0..<unat (count div 2)])
                   @ [WriteU32 (stm32x_get_flash_reg bank STM32_FLASH_CR) FLASH_PG,
                      WriteU16 (base bank + offs + 2 * (count div 2)) (halfword (last buffer) 0xff),
                      ReadU32 (stm32x_get_flash_reg bank STM32_FLASH_SR),
                      WriteU32 STM32_FLASH_CR FLASH_LOCK]\<rparr>,
                 bankb)"
proof -
  let ?w = "count div 2"
  let ?n = "unat ?w"
  let ?a0 = "base bank + offs"
  let ?s4 = "sb\<lparr>calls := calls sb @ concat (map (unit_write bank ?a0 buffer) [0..<?n])\<rparr>"
  have cnt: "unat count = 2 * ?n + 1" using odd by (rule odd_count)
  have lenb: "length buffer = 2 * ?n + 1" using len cnt by simp
  have small: "length buffer < 2 ^ 32"
    using len unsigned_less [of count, where ?'a = nat] by simp
  have bw: "unat (2 * ?w) = 2 * ?n"
    using lenb small by (simp add: unat_word_ariths)
  have regs: "stm32x_get_flash_reg bankb r = stm32x_get_flash_reg bank r" for r
    using write_block_bank [OF block] by simp
  have idleb: "flash_idle t bankb"
    using idle by (simp add: flash_idle_def regs)
  have units: "unit_write bankb = unit_write bank"
    by (simp add: unit_write_def regs fun_eq_iff)
  have words: "stm32x_write_words t sb bankb buffer ?a0 ?w 0 =
      (ERROR_OK, ?s4, ?a0 + 2 * of_nat ?n, 2 * of_nat ?n)"
    using write_words_healthy [OF wr32 wr16 idleb, where k = 0 and w = ?w and buffer = buffer
        and s = sb and ?a0.0 = ?a0] lenb small
    by (simp add: units)
  have lastb: "last buffer = buffer ! (2 * ?n)"
  proof -
    have "buffer \<noteq> []" using lenb by auto
    then have "last buffer = buffer ! (length buffer - 1)" by (rule last_conv_nth)
    then show ?thesis using lenb by simp
  qed
  have fits: "\<not> length buffer < Suc (unat (2 * ?w))"
    using bw lenb by simp
  have odd': "(count AND 1 = 0) = False" using odd by simp
  have even': "(offs AND 1 = 0) = True" using even by simp
  have block': "stm32x_write_block t
           (s\<lparr>calls := calls s @
              [WriteU32 (stm32x_get_flash_reg bank STM32_FLASH_KEYR) KEY1,
               WriteU32 (stm32x_get_flash_reg bank STM32_FLASH_KEYR) KEY2]\<rparr>)
           bank buffer offs ?w = Some (ERROR_TARGET_RESOURCE_NOT_AVAILABLE, sb, bankb)"
    using block by (simp add: unlock_calls_def)
  show ?thesis
    using halted wr32 wr16 pos block' words fits
    by (simp add: stm32x_write_def Let_def target_write_u32_def target_write_u16_def
        wait_status_busy_idle [OF idleb] logged_def odd' even' bw regs lastb)
qed

lemma write_block_error:
  assumes halted: "halted s"
    and even: "offs AND 0x1 = 0"
    and wr32: "\<forall>h a v. write_u32_resp t h a v = ERROR_OK"
    and pos: "0 < count div 2"
    and block: "stm32x_write_block t (s\<lparr>calls := calls s @ unlock_calls bank\<rparr>) bank buffer offs
                  (count div 2) = Some (rb, sb, bankb)"
    and err: "rb \<noteq> ERROR_OK" "rb \<noteq> ERROR_TARGET_RESOURCE_NOT_AVAILABLE"
  shows "stm32x_write t s bank buffer offs count = Some (rb, sb, bankb)"
proof -
  have even': "(offs AND 1 = 0) = True" using even by simp
  have block': "stm32x_write_block t
           (s\<lparr>calls := calls s @
              [WriteU32 (stm32x_get_flash_reg bank STM32_FLASH_KEYR) KEY1,
               WriteU32 (stm32x_get_flash_reg bank STM32_FLASH_KEYR) KEY2]\<rparr>)
           bank buffer offs (count div 2) = Some (rb, sb, bankb)"
    using block by (simp add: unlock_calls_def)
  show ?thesis
    using halted wr32 pos block' err
    by (simp add: stm32x_write_def Let_def target_write_u32_def logged_def even')
qed

text \<open>
  Whatever the target answers: when the loop over the half words returns
  \<^verbatim>\<open>ERROR_OK\<close> it has advanced by all of them, and a write that returns
  \<^verbatim>\<open>ERROR_OK\<close> has written the padded last unit, followed only by status calls and
  the lock.
\<close>

lemma write_words_ok:
  assumes "stm32x_write_words t s bank buffer a w bw = (ERROR_OK, s', a', bw')"
  shows "a' = a + 2 * w \<and> bw' = bw + 2 * w"
  using assms
proof (induction "unat w" arbitrary: w s a bw)
  case 0
  then have "w = 0" by (simp add: unat_eq_0)
  then show ?case
    using "0.prems" by (subst (asm) stm32x_write_words.simps) simp
next
  case (Suc n)
  then have pos: "0 < w" by (simp add: word_greater_zero_iff unat_gt_0 [symmetric])
  have n: "n = unat (w - 1)"
    using Suc.hyps(2) pos by (simp add: unat_minus_one word_greater_zero_iff)
  from Suc.prems pos obtain s1 where
    "stm32x_write_words t s1 bank buffer (a + 2) (w - 1) (bw + 2) = (ERROR_OK, s', a', bw')"
    by (subst (asm) stm32x_write_words.simps)
       (auto simp: Let_def split: if_splits prod.splits)
  from Suc.hyps(1) [OF n this] show ?case
    by simp
qed

lemma write_tail:
  assumes W: "stm32x_write_words t sm bankm bufm am wm 0 = (ERROR_OK, s3, a3, bw3)"
    and P: "target_write_u32 t s3 r v = (r4, s4)"
    and U: "target_write_u16 t s4 a3 x = (r5, s5)"
    and B: "stm32x_wait_status_busy t s5 bankm n = (r6, s6)"
    and L: "target_write_u32 t s6 STM32_FLASH_CR FLASH_LOCK = (r7, s')"
    and regs: "stm32x_get_flash_reg bankm = stm32x_get_flash_reg bank"
    and A: "am + 2 * wm = A"
    and X: "bw3 = 2 * wm \<Longrightarrow> x = X"
  shows "\<exists>pre post. calls s' = pre @ WriteU16 A X # post @ [WriteU32 STM32_FLASH_CR FLASH_LOCK]
           \<and> list_all (status_call bank) post"
proof -
  have w: "a3 = A" "x = X"
    using write_words_ok [OF W] A X by simp_all
  have "only_calls (status_call bankm) s5 s6"
    using wait_status_busy_calls [of bankm s5 t n] B by simp
  then obtain post where post: "calls s6 = calls s5 @ post" "list_all (status_call bankm) post"
    by (rule only_callsE)
  have "status_call bankm = status_call bank"
    by (simp add: status_call_def regs fun_eq_iff)
  then have st: "list_all (status_call bank) post"
    using post(2) by simp
  have "calls s5 = calls s3 @ [WriteU32 r v, WriteU16 A X]"
    using P U w by (auto simp: target_write_u32_def target_write_u16_def logged_def)
  moreover have "calls s' = calls s6 @ [WriteU32 STM32_FLASH_CR FLASH_LOCK]"
    using L by (auto simp: target_write_u32_def logged_def)
  ultimately have "calls s' = (calls s3 @ [WriteU32 r v]) @ WriteU16 A X # post
      @ [WriteU32 STM32_FLASH_CR FLASH_LOCK]"
    using post(1) by simp
  then show ?thesis
    using st by blast
qed

lemma last_byte:
  assumes odd: "count AND 0x00000001 \<noteq> (0 :: u32)"
    and len: "length buffer = unat count"
  shows "buffer ! unat (2 * (count div 2)) = last buffer"
    and "buffer ! unat (count div 2 * 2) = last buffer"
proof -
  have cnt: "unat count = 2 * unat (count div 2) + 1" using odd by (rule odd_count)
  have lenb: "length buffer = 2 * unat (count div 2) + 1" using len cnt by simp
  have small: "length buffer < 2 ^ 32"
    using len unsigned_less [of count, where ?'a = nat] by simp
  have bw: "unat (2 * (count div 2)) = 2 * unat (count div 2)"
    using lenb small by (simp add: unat_word_ariths)
  have "buffer \<noteq> []" using lenb by auto
  then have "last buffer = buffer ! (length buffer - 1)" by (rule last_conv_nth)
  then show "buffer ! unat (2 * (count div 2)) = last buffer"
    using lenb bw by simp
  then show "buffer ! unat (count div 2 * 2) = last buffer"
    by (simp add: mult.commute)
qed

lemma write_success_trace:
  assumes odd: "count AND 0x00000001 \<noteq> 0"
    and len: "length buffer = unat count"
    and ok: "stm32x_write t s bank buffer offs count = Some (ERROR_OK, s', bank')"
  shows "\<exists>pre post. calls s' = pre @ WriteU16 (base bank + offs + 2 * (count div 2))
                                      (halfword (last buffer) 0xff) # post
                        @ [WriteU32 STM32_FLASH_CR FLASH_LOCK]
           \<and> list_all (status_call bank) post"
proof -
  have odd': "(count AND 1 = 0) = False" using odd by simp
  note lb = last_byte [OF odd len]
  show ?thesis
    using ok
    apply (simp add: stm32x_write_def Let_def odd' split: if_splits prod.splits option.splits)
      apply (erule (4) write_tail, (auto simp: lb dest: write_block_bank)[3])+
    done
qed

text \<open>
  \<^verbatim>\<open>stm32x_write\<close> returns on every input. The units of the buffer extended by the
  filler byte, from unit \<open>k\<close> on, are the whole units of the buffer from \<open>k\<close> on and
  the padded last one.
\<close>

lemma write_returns:
  "\<exists>r s' bank'. stm32x_write t s bank buffer offs count = Some (r, s', bank')"
proof -
  obtain rb sb bankb where
    "stm32x_write_block t
       (snd (target_write_u32 t
          (snd (target_write_u32 t s (stm32x_get_flash_reg bank STM32_FLASH_KEYR) KEY1))
          (stm32x_get_flash_reg bank STM32_FLASH_KEYR) KEY2))
       bank buffer offs (count div 2) = Some (rb, sb, bankb)"
    using write_block_returns by blast
  then show ?thesis
    by (auto simp: stm32x_write_def Let_def split: prod.splits option.splits)
qed

lemma padded_units:
  assumes odd: "count AND 0x00000001 \<noteq> (0 :: u32)"
    and len: "length buffer = unat count"
    and k: "k \<le> unat (count div 2)"
  shows "concat (map (unit_write bank a (buffer @ [0xff])) [k..<(unat count + 1) div 2])
         = concat (map (unit_write bank a buffer) [k..<unat (count div 2)])
           @ [WriteU32 (stm32x_get_flash_reg bank STM32_FLASH_CR) FLASH_PG,
              WriteU16 (a + 2 * (count div 2)) (halfword (last buffer) 0xff),
              ReadU32 (stm32x_get_flash_reg bank STM32_FLASH_SR)]"
proof -
  let ?n = "unat (count div 2)"
  have cnt: "unat count = 2 * ?n + 1" using odd by (rule odd_count)
  have lenb: "length buffer = 2 * ?n + 1" using len cnt by simp
  have same: "map (unit_write bank a (buffer @ [0xff])) [k..<?n]
                = map (unit_write bank a buffer) [k..<?n]"
    using lenb by (simp add: unit_write_def nth_append)
  have lastb: "last buffer = buffer ! (2 * ?n)"
  proof -
    have "buffer \<noteq> []" using lenb by auto
    then have "last buffer = buffer ! (length buffer - 1)" by (rule last_conv_nth)
    then show ?thesis using lenb by simp
  qed
  have lastu: "unit_write bank a (buffer @ [0xff]) ?n =
          [WriteU32 (stm32x_get_flash_reg bank STM32_FLASH_CR) FLASH_PG,
           WriteU16 (a + 2 * (count div 2)) (halfword (last buffer) 0xff),
           ReadU32 (stm32x_get_flash_reg bank STM32_FLASH_SR)]"
    using lenb by (simp add: unit_write_def nth_append lastb)
  have units: "[k..<(unat count + 1) div 2] = [k..<?n] @ [?n]"
    using cnt k by simp
  show ?thesis
    by (simp only: units map_append concat_append same list.map concat.simps lastu append_Nil2)
qed

text \<open>
  The block write of the first two of the three bytes \<open>[1, 2, 3]\<close> on the example
  targets.
\<close>

lemma quiet_idle: "flash_idle quiet_target bank" "flash_idle no_working_area bank"
  "flash_idle no_data_area bank"
  by (simp_all add: flash_idle_def quiet_target_def no_working_area_def no_data_area_def)

lemma block_write_quiet:
  "stm32x_write_block quiet_target
     (unlocked stm32x_bank4 start_state)
     stm32x_bank4 [1, 2, 3] 0 (3 div 2) = Some (ERROR_OK, after_block_write, stm32x_bank4_routine)"
  by (simp add: stm32x_write_block_def stm32x_alloc_source.simps stm32x_write_block_loop.simps
      quiet_target_def start_state_def unlocked_calls unlock_calls_def reg0 base4 target_calls
      stm32x_flash_write_code_def after_block_write_def stm32x_bank4_routine_def
      routine_area_def data_area_def FLASH_PGERR_def FLASH_WRPRTERR_def Let_def)
     (simp add: stm32x_bank4_def)

lemma block_write_no_working_area:
  "stm32x_write_block no_working_area (unlocked stm32x_bank4 start_state) stm32x_bank4
     [1, 2, 3] 0 (3 div 2)
   = Some (ERROR_TARGET_RESOURCE_NOT_AVAILABLE,
           start_state\<lparr>calls := [WriteU32 STM32_FLASH_KEYR KEY1, WriteU32 STM32_FLASH_KEYR KEY2,
                                   AllocWorkingArea 40]\<rparr>,
           stm32x_bank4)"
proof -
  have "fst (alloc_resp no_working_area (calls (unlocked stm32x_bank4 start_state)) 40) \<noteq> ERROR_OK"
    by (simp add: no_working_area_def)
  from write_block_no_area [OF this] show ?thesis
    by (simp add: logged_def unlocked_calls unlock_calls_def reg0 start_state_def)
qed

lemma block_write_no_data_area:
  "stm32x_write_block no_data_area (unlocked stm32x_bank4 start_state) stm32x_bank4
     [1, 2, 3] 0 (3 div 2)
   = Some (ERROR_TARGET_RESOURCE_NOT_AVAILABLE,
           start_state\<lparr>calls :=
             [WriteU32 STM32_FLASH_KEYR KEY1, WriteU32 STM32_FLASH_KEYR KEY2,
              AllocWorkingArea 40, WriteBuffer 0x20000000 stm32x_flash_write_code,
              AllocWorkingAreaTry 16384, AllocWorkingAreaTry 8192, AllocWorkingAreaTry 4096,
              AllocWorkingAreaTry 2048, AllocWorkingAreaTry 1024, AllocWorkingAreaTry 512,
              FreeWorkingArea routine_area]\<rparr>,
           stm32x_bank4_routine)"
proof -
  have tries: "\<forall>h sz. fst (alloc_try_resp no_data_area h sz) \<noteq> ERROR_OK"
    by (simp add: no_data_area_def)
  have len: "length stm32x_flash_write_code = 40"
    by (simp add: stm32x_flash_write_code_def)
  have resp: "alloc_resp no_data_area h sz = (ERROR_OK, 0x20000000)"
    "write_buffer_resp no_data_area h a bs = ERROR_OK" for h sz a bs
    by (simp_all add: no_data_area_def quiet_target_def)
  show ?thesis
    by (simp add: stm32x_write_block_def target_alloc_working_area_def target_write_buffer_def
        target_free_working_area_def len logged_def alloc_source_all_fail [OF tries] resp
        unlocked_calls unlock_calls_def reg0 start_state_def
        routine_area_def stm32x_bank4_routine_def)
qed

text \<open>
  C9, the claim as it stands fails: the write function of the nucX1 driver halves
  the byte count and programs nothing. For three bytes at offset 0 it returns
  \<^verbatim>\<open>ERROR_OK\<close> without a single call to the target, so no unit is written and all
  three bytes are dropped.
\<close>

theorem odd_count_write_counterexample:
  "nucX1_write_block quiet_target start_state nucX1_bank4 [1, 2, 3] 0 3 = (ERROR_OK, start_state)
   \<and> calls start_state = []"
  by (simp add: nucX1_write_block_def start_state_def)

text \<open>
  C9, amended. \<^verbatim>\<open>stm32x_write\<close> of an odd number \<open>count\<close> of bytes, the buffer holding
  \<open>count\<close> bytes. First, the call returns. Second, whatever the target answers:
  when the call returns \<^verbatim>\<open>ERROR_OK\<close>, the last half word it wrote is the last byte
  of the buffer with the filler \<^verbatim>\<open>0xff\<close> as its high half, at the address of the last
  unit; after it come only calls on the status register, and the lock. A write that
  reports success has not dropped the trailing byte. Third, on a halted target, to
  an even offset, when the register and half word writes succeed and the status
  register shows neither busy nor error: let \<open>rb\<close> be what the block write of the
  \<open>count div 2\<close> whole units returns (with a single byte there is no block write,
  which counts as \<^verbatim>\<open>ERROR_OK\<close>). The buffer extended by the one filler byte has
  \<open>(count + 1) div 2\<close> units. If \<open>rb\<close> is \<^verbatim>\<open>ERROR_OK\<close> the host writes the last of
  them, the padded one; if \<open>rb\<close> is \<^verbatim>\<open>ERROR_TARGET_RESOURCE_NOT_AVAILABLE\<close> (no
  working area for the routine, or none for the data) the host writes all of them,
  one after the other; each unit is the program mode, the half word and a status
  read. Then it locks and returns \<^verbatim>\<open>ERROR_OK\<close>. Any other error of the block write
  is returned as it is: the write has failed and says so.
\<close>

theorem odd_count_write_pads_last_unit:
  assumes "count AND 0x00000001 \<noteq> 0"
    and "length buffer = unat count"
  shows "(\<exists>r s1 bank1. stm32x_write t s bank buffer offs count = Some (r, s1, bank1))
       \<and> (stm32x_write t s bank buffer offs count = Some (ERROR_OK, s', bank') \<longrightarrow>
            (\<exists>pre post.
               calls s' = pre @ WriteU16 (base bank + offs + 2 * (count div 2))
                                   (halfword (last buffer) 0xff) # post
                            @ [WriteU32 STM32_FLASH_CR FLASH_LOCK]
               \<and> list_all (status_call bank) post))
       \<and> (halted s \<and> offs AND 0x1 = 0
            \<and> (\<forall>h a v. write_u32_resp t h a v = ERROR_OK)
            \<and> (\<forall>h a v. write_u16_resp t h a v = ERROR_OK)
            \<and> flash_idle t bank \<longrightarrow>
            (\<exists>rb sb bankb.
               (if 0 < count div 2
                then stm32x_write_block t (unlocked bank s) bank buffer offs (count div 2)
                else Some (ERROR_OK, unlocked bank s, bank)) = Some (rb, sb, bankb)
               \<and> stm32x_write t s bank buffer offs count =
                   Some (if rb = ERROR_OK \<or> rb = ERROR_TARGET_RESOURCE_NOT_AVAILABLE
                         then (ERROR_OK,
                               sb\<lparr>calls := calls sb
                                 @ concat (map (unit_write bank (base bank + offs) (buffer @ [0xff]))
                                     [(if rb = ERROR_OK then unat (count div 2) else 0)
                                        ..<(unat count + 1) div 2])
                                 @ [WriteU32 STM32_FLASH_CR FLASH_LOCK]\<rparr>,
                               bankb)
                         else (rb, sb, bankb))))"
proof (intro conjI impI)
  show "\<exists>r s1 bank1. stm32x_write t s bank buffer offs count = Some (r, s1, bank1)"
    by (rule write_returns)
next
  assume "stm32x_write t s bank buffer offs count = Some (ERROR_OK, s', bank')"
  with assms show "\<exists>pre post.
       calls s' = pre @ WriteU16 (base bank + offs + 2 * (count div 2))
                           (halfword (last buffer) 0xff) # post
                    @ [WriteU32 STM32_FLASH_CR FLASH_LOCK]
       \<and> list_all (status_call bank) post"
    by (rule write_success_trace)
next
  assume "halted s \<and> offs AND 0x1 = 0
            \<and> (\<forall>h a v. write_u32_resp t h a v = ERROR_OK)
            \<and> (\<forall>h a v. write_u16_resp t h a v = ERROR_OK)
            \<and> flash_idle t bank"
  then have h: "halted s" "offs AND 0x1 = 0" "\<forall>h a v. write_u32_resp t h a v = ERROR_OK"
    "\<forall>h a v. write_u16_resp t h a v = ERROR_OK" "flash_idle t bank"
    by simp_all
  note hs = h(1,2) assms h(3,4,5)
  note pu = padded_units [OF assms, of _ bank "base bank + offs"]
  show "\<exists>rb sb bankb.
               (if 0 < count div 2
                then stm32x_write_block t (unlocked bank s) bank buffer offs (count div 2)
                else Some (ERROR_OK, unlocked bank s, bank)) = Some (rb, sb, bankb)
               \<and> stm32x_write t s bank buffer offs count =
                   Some (if rb = ERROR_OK \<or> rb = ERROR_TARGET_RESOURCE_NOT_AVAILABLE
                         then (ERROR_OK,
                               sb\<lparr>calls := calls sb
                                 @ concat (map (unit_write bank (base bank + offs) (buffer @ [0xff]))
                                     [(if rb = ERROR_OK then unat (count div 2) else 0)
                                        ..<(unat count + 1) div 2])
                                 @ [WriteU32 STM32_FLASH_CR FLASH_LOCK]\<rparr>,
                               bankb)
                         else (rb, sb, bankb))"
  proof (cases "0 < count div 2")
    case False
    then show ?thesis
      using write_single_byte [OF hs False] pu [of "unat (count div 2)"] by simp
  next
    case True
    obtain rb sb bankb where
      block: "stm32x_write_block t (unlocked bank s) bank buffer offs (count div 2)
                = Some (rb, sb, bankb)"
      using write_block_returns by blast
    then have block': "stm32x_write_block t (s\<lparr>calls := calls s @ unlock_calls bank\<rparr>) bank
        buffer offs (count div 2) = Some (rb, sb, bankb)"
      by (simp add: unlocked_calls)
    consider "rb = ERROR_OK" | "rb = ERROR_TARGET_RESOURCE_NOT_AVAILABLE"
      | "rb \<noteq> ERROR_OK" "rb \<noteq> ERROR_TARGET_RESOURCE_NOT_AVAILABLE"
      by blast
    then show ?thesis
    proof cases
      case 1
      then show ?thesis
        using True block write_after_block [OF hs True, of sb bankb] block'
          pu [of "unat (count div 2)"]
        by simp
    next
      case 2
      then show ?thesis
        using True block write_block_unavailable [OF hs True, of sb bankb] block' pu [of 0]
        by simp
    next
      case 3
      then show ?thesis
        using True block write_block_error [OF h(1,2,3) True block' 3]
        by simp
    qed
  qed
qed

theorem odd_count_write_pads_last_unit_witness:
  "stm32x_write no_working_area start_state stm32x_bank4 [1, 2, 3] 0 3 =
     Some (ERROR_OK,
           start_state\<lparr>calls :=
             [WriteU32 STM32_FLASH_KEYR KEY1, WriteU32 STM32_FLASH_KEYR KEY2,
              AllocWorkingArea 40,
              WriteU32 STM32_FLASH_CR FLASH_PG, WriteU16 0x08000000 0x0201, ReadU32 STM32_FLASH_SR,
              WriteU32 STM32_FLASH_CR FLASH_PG, WriteU16 0x08000002 0xff03, ReadU32 STM32_FLASH_SR,
              WriteU32 STM32_FLASH_CR FLASH_LOCK]\<rparr>,
           stm32x_bank4)
   \<and> stm32x_write quiet_target start_state stm32x_bank4 [1, 2, 3] 0 3 =
     Some (ERROR_OK,
           after_block_write\<lparr>calls := calls after_block_write @
             [WriteU32 STM32_FLASH_CR FLASH_PG, WriteU16 0x08000002 0xff03, ReadU32 STM32_FLASH_SR,
              WriteU32 STM32_FLASH_CR FLASH_LOCK]\<rparr>,
           stm32x_bank4_routine)
   \<and> stm32x_write quiet_target start_state stm32x_bank4 [0xAB] 0 1 =
     Some (ERROR_OK,
           start_state\<lparr>calls :=
             [WriteU32 STM32_FLASH_KEYR KEY1, WriteU32 STM32_FLASH_KEYR KEY2,
              WriteU32 STM32_FLASH_CR FLASH_PG, WriteU16 0x08000000 0xffAB, ReadU32 STM32_FLASH_SR,
              WriteU32 STM32_FLASH_CR FLASH_LOCK]\<rparr>,
           stm32x_bank4)
   \<and> stm32x_write no_data_area start_state stm32x_bank4 [1, 2, 3] 0 3 =
     Some (ERROR_OK,
           start_state\<lparr>calls :=
             [WriteU32 STM32_FLASH_KEYR KEY1, WriteU32 STM32_FLASH_KEYR KEY2,
              AllocWorkingArea 40, WriteBuffer 0x20000000 stm32x_flash_write_code,
              AllocWorkingAreaTry 16384, AllocWorkingAreaTry 8192, AllocWorkingAreaTry 4096,
              AllocWorkingAreaTry 2048, AllocWorkingAreaTry 1024, AllocWorkingAreaTry 512,
              FreeWorkingArea routine_area,
              WriteU32 STM32_FLASH_CR FLASH_PG, WriteU16 0x08000000 0x0201, ReadU32 STM32_FLASH_SR,
              WriteU32 STM32_FLASH_CR FLASH_PG, WriteU16 0x08000002 0xff03, ReadU32 STM32_FLASH_SR,
              WriteU32 STM32_FLASH_CR FLASH_LOCK]\<rparr>,
           stm32x_bank4_routine)"
proof -
  have h3: "halted start_state" "(0 :: u32) AND 0x1 = 0" "(3 :: u32) AND 0x00000001 \<noteq> 0"
    "length [1, 2, 3 :: u8] = unat (3 :: u32)"
    and h1: "halted start_state" "(0 :: u32) AND 0x1 = 0" "(1 :: u32) AND 0x00000001 \<noteq> 0"
    "length [0xAB :: u8] = unat (1 :: u32)"
    by (simp_all add: start_state_def)
  have n: "\<forall>h a v. write_u32_resp no_working_area h a v = ERROR_OK"
    "\<forall>h a v. write_u16_resp no_working_area h a v = ERROR_OK"
    and q: "\<forall>h a v. write_u32_resp quiet_target h a v = ERROR_OK"
    "\<forall>h a v. write_u16_resp quiet_target h a v = ERROR_OK"
    and d: "\<forall>h a v. write_u32_resp no_data_area h a v = ERROR_OK"
    "\<forall>h a v. write_u16_resp no_data_area h a v = ERROR_OK"
    by (simp_all add: no_working_area_def no_data_area_def quiet_target_def)
  have u: "0 < (3 :: u32) div 2" "(0 < (1 :: u32) div 2) = False"
    by simp_all
  have r: "(ERROR_TARGET_RESOURCE_NOT_AVAILABLE = ERROR_OK) = False"
    by simp
  note ev = unlock_calls_def unit_write_def reg0 base4 halfword_def start_state_def
    unlocked_calls
  have 1: "stm32x_write no_working_area start_state stm32x_bank4 [1, 2, 3] 0 3 =
     Some (ERROR_OK,
           start_state\<lparr>calls :=
             [WriteU32 STM32_FLASH_KEYR KEY1, WriteU32 STM32_FLASH_KEYR KEY2,
              AllocWorkingArea 40,
              WriteU32 STM32_FLASH_CR FLASH_PG, WriteU16 0x08000000 0x0201, ReadU32 STM32_FLASH_SR,
              WriteU32 STM32_FLASH_CR FLASH_PG, WriteU16 0x08000002 0xff03, ReadU32 STM32_FLASH_SR,
              WriteU32 STM32_FLASH_CR FLASH_LOCK]\<rparr>,
           stm32x_bank4)"
    using odd_count_write_pads_last_unit [OF h3(3,4), of no_working_area start_state stm32x_bank4 0]
      h3(1,2) n quiet_idle(2)
    by (simp only: u if_True if_False block_write_no_working_area simp_thms) (simp add: ev upt_conv_Cons)
  have 2: "stm32x_write quiet_target start_state stm32x_bank4 [1, 2, 3] 0 3 =
     Some (ERROR_OK,
           after_block_write\<lparr>calls := calls after_block_write @
             [WriteU32 STM32_FLASH_CR FLASH_PG, WriteU16 0x08000002 0xff03, ReadU32 STM32_FLASH_SR,
              WriteU32 STM32_FLASH_CR FLASH_LOCK]\<rparr>,
           stm32x_bank4_routine)"
    using odd_count_write_pads_last_unit [OF h3(3,4), of quiet_target start_state stm32x_bank4 0]
      h3(1,2) q quiet_idle(1)
    by (simp only: u if_True if_False block_write_quiet simp_thms) (simp add: ev upt_conv_Cons)
  have 3: "stm32x_write quiet_target start_state stm32x_bank4 [0xAB] 0 1 =
     Some (ERROR_OK,
           start_state\<lparr>calls :=
             [WriteU32 STM32_FLASH_KEYR KEY1, WriteU32 STM32_FLASH_KEYR KEY2,
              WriteU32 STM32_FLASH_CR FLASH_PG, WriteU16 0x08000000 0xffAB, ReadU32 STM32_FLASH_SR,
              WriteU32 STM32_FLASH_CR FLASH_LOCK]\<rparr>,
           stm32x_bank4)"
    using odd_count_write_pads_last_unit [OF h1(3,4), of quiet_target start_state stm32x_bank4 0]
      h1(1,2) q quiet_idle(1)
    by (simp only: u if_True if_False simp_thms) (simp add: ev upt_conv_Cons)
  have 4: "stm32x_write no_data_area start_state stm32x_bank4 [1, 2, 3] 0 3 =
     Some (ERROR_OK,
           start_state\<lparr>calls :=
             [WriteU32 STM32_FLASH_KEYR KEY1, WriteU32 STM32_FLASH_KEYR KEY2,
              AllocWorkingArea 40, WriteBuffer 0x20000000 stm32x_flash_write_code,
              AllocWorkingAreaTry 16384, AllocWorkingAreaTry 8192, AllocWorkingAreaTry 4096,
              AllocWorkingAreaTry 2048, AllocWorkingAreaTry 1024, AllocWorkingAreaTry 512,
              FreeWorkingArea routine_area,
              WriteU32 STM32_FLASH_CR FLASH_PG, WriteU16 0x08000000 0x0201, ReadU32 STM32_FLASH_SR,
              WriteU32 STM32_FLASH_CR FLASH_PG, WriteU16 0x08000002 0xff03, ReadU32 STM32_FLASH_SR,
              WriteU32 STM32_FLASH_CR FLASH_LOCK]\<rparr>,
           stm32x_bank4_routine)"
    using odd_count_write_pads_last_unit [OF h3(3,4), of no_data_area start_state stm32x_bank4 0]
      h3(1,2) d quiet_idle(3)
    by (simp only: u if_True if_False block_write_no_data_area simp_thms) (simp add: ev upt_conv_Cons)
  show ?thesis
    using 1 2 3 4 by (intro conjI)
qed

end
